(* ===== verification/Prelude.thy ===== *)
theory Prelude
  imports Main "HOL-Library.Word" "HOL-Library.Sublist" "HOL-Library.Code_Target_Nat"
begin

text \<open>
  Shared vocabulary of the development: the collections of simplification rules the
  component theories fill, the fixed-width integer arithmetic of Go's \<open>int\<close> and \<open>int64\<close>
  (64-bit two's complement on the supported platforms), list lemmas about the first and
  the last occurrence of a byte, and the type names used everywhere.
\<close>

section \<open>Collections\<close>

named_theorems go_defs \<open>definitions of Go library functions, unfolded to evaluate closed terms\<close>
named_theorems sm_defs \<open>operations of the protocol state machine\<close>
named_theorems conn_defs \<open>operations of the connection layer\<close>
named_theorems builder_defs \<open>operations of the envelope builder\<close>
named_theorems engine_defs \<open>operations of the session engine\<close>
named_theorems frame_simps \<open>fields an operation does not write\<close>

section \<open>Types\<close>

text \<open>
  Go strings and byte slices are sequences of bytes; an Isabelle \<^typ>\<open>char\<close> is a byte.
  A duration or an instant is an integer number of nanoseconds; the zero \<open>time.Time\<close> of a
  cleared deadline is \<^const>\<open>None\<close>.
\<close>

type_synonym bytes = string
type_synonym duration = int
type_synonym deadline = "int option"

section \<open>Signed 64-bit integers\<close>

text \<open>\<open>i64 x\<close> is the value a Go \<open>int64\<close> (or \<open>int\<close>) variable holds after the exact result
  \<open>x\<close> is stored in it.\<close>

definition i64 :: "int \<Rightarrow> int" where
  "i64 x = (x + 2 ^ 63) mod 2 ^ 64 - 2 ^ 63"

abbreviation in_i64 :: "int \<Rightarrow> bool" where
  "in_i64 x \<equiv> - (2 ^ 63) \<le> x \<and> x < 2 ^ 63"

lemma i64_id [simp]: "in_i64 x \<Longrightarrow> i64 x = x"
  by (simp add: i64_def)

lemma i64_in_range: "in_i64 (i64 x)"
proof -
  have "0 \<le> (x + 2 ^ 63) mod 2 ^ 64" and "(x + 2 ^ 63) mod 2 ^ 64 < (2 :: int) ^ 64"
    by simp_all
  then show ?thesis by (simp add: i64_def)
qed

lemma i64_wraps: "i64 (2 ^ 63) = - (2 ^ 63)"
  by (simp add: i64_def)

section \<open>Occurrences of a byte\<close>

text \<open>\<open>index_of c s\<close> is \<open>strings.Index(s, c)\<close> for a one-byte \<open>c\<close>, with \<^const>\<open>None\<close> for
  -1, and \<open>last_index_of c s\<close> is \<open>strings.LastIndex(s, c)\<close>.\<close>

fun index_of :: "'a \<Rightarrow> 'a list \<Rightarrow> nat option" where
  "index_of c [] = None"
| "index_of c (x # xs) = (if x = c then Some 0 else map_option Suc (index_of c xs))"

fun last_index_of :: "'a \<Rightarrow> 'a list \<Rightarrow> nat option" where
  "last_index_of c [] = None"
| "last_index_of c (x # xs) =
     (case last_index_of c xs of
        Some i \<Rightarrow> Some (Suc i)
      | None \<Rightarrow> if x = c then Some 0 else None)"

lemma index_of_None [simp]: "index_of c xs = None \<longleftrightarrow> c \<notin> set xs"
  by (induction xs) auto

lemma index_of_notin [simp]: "c \<notin> set xs \<Longrightarrow> index_of c xs = None"
  by simp

lemma index_of_Some:
  "index_of c xs = Some i \<longleftrightarrow> i < length xs \<and> xs ! i = c \<and> c \<notin> set (take i xs)"
proof (induction xs arbitrary: i)
  case Nil
  then show ?case by simp
next
  case (Cons x xs)
  then show ?case by (cases i) auto
qed

lemma index_of_append [simp]: "c \<notin> set xs \<Longrightarrow> index_of c (xs @ c # ys) = Some (length xs)"
  by (induction xs) auto

lemma index_of_split:
  assumes "index_of c xs = Some i"
  shows "xs = take i xs @ c # drop (Suc i) xs"
  using assms id_take_nth_drop [of i xs] by (simp add: index_of_Some)

lemma last_index_of_None [simp]: "last_index_of c xs = None \<longleftrightarrow> c \<notin> set xs"
  by (induction xs) (auto split: option.splits)

lemma last_index_of_notin [simp]: "c \<notin> set xs \<Longrightarrow> last_index_of c xs = None"
  by simp

lemma last_index_of_append [simp]:
  "c \<notin> set ys \<Longrightarrow> last_index_of c (xs @ c # ys) = Some (length xs)"
  by (induction xs) auto

lemma last_index_of_Some:
  assumes "last_index_of c xs = Some i"
  shows "i < length xs" and "xs ! i = c" and "c \<notin> set (drop (Suc i) xs)"
proof -
  have "i < length xs \<and> xs ! i = c \<and> c \<notin> set (drop (Suc i) xs)"
    using assms
  proof (induction xs arbitrary: i)
    case Nil
    then show ?case by simp
  next
    case (Cons x xs)
    show ?case
    proof (cases "last_index_of c xs")
      case None
      with Cons.prems have "x = c" "i = 0" by (auto split: if_splits)
      with None show ?thesis by simp
    next
      case (Some j)
      with Cons.prems have "i = Suc j" by simp
      with Cons.IH [OF Some] show ?thesis by simp
    qed
  qed
  then show "i < length xs" and "xs ! i = c" and "c \<notin> set (drop (Suc i) xs)" by simp_all
qed

lemma last_index_of_split:
  assumes "last_index_of c xs = Some i"
  shows "xs = take i xs @ c # drop (Suc i) xs"
  using last_index_of_Some [OF assms] id_take_nth_drop [of i xs] by simp

section \<open>Prefixes and suffixes\<close>

definition HasPrefix :: "'a list \<Rightarrow> 'a list \<Rightarrow> bool" where
  [go_defs]: "HasPrefix s p \<longleftrightarrow> length p \<le> length s \<and> take (length p) s = p"

definition HasSuffix :: "'a list \<Rightarrow> 'a list \<Rightarrow> bool" where
  [go_defs]: "HasSuffix s p \<longleftrightarrow> length p \<le> length s \<and> drop (length s - length p) s = p"

definition TrimSuffix :: "'a list \<Rightarrow> 'a list \<Rightarrow> 'a list" where
  [go_defs]: "TrimSuffix s p = (if HasSuffix s p then take (length s - length p) s else s)"

lemma HasPrefix_iff: "HasPrefix s p \<longleftrightarrow> (\<exists>t. s = p @ t)"
proof
  assume "HasPrefix s p"
  then have "s = p @ drop (length p) s"
    unfolding HasPrefix_def by (metis append_take_drop_id)
  then show "\<exists>t. s = p @ t" ..
qed (auto simp: HasPrefix_def)

lemma HasSuffix_iff: "HasSuffix s p \<longleftrightarrow> (\<exists>t. s = t @ p)"
proof
  assume "HasSuffix s p"
  then have "s = take (length s - length p) s @ p"
    unfolding HasSuffix_def by (metis append_take_drop_id)
  then show "\<exists>t. s = t @ p" ..
qed (auto simp: HasSuffix_def)

lemma HasPrefix_append [simp]: "HasPrefix (p @ s) p"
  by (simp add: HasPrefix_def)

lemma HasPrefix_single [simp]: "HasPrefix s [c] \<longleftrightarrow> s \<noteq> [] \<and> hd s = c"
  by (cases s) (auto simp: HasPrefix_def)

lemma HasSuffix_append [simp]: "HasSuffix (s @ p) p"
  by (simp add: HasSuffix_def)

lemma HasSuffix_single [simp]: "HasSuffix s [c] \<longleftrightarrow> s \<noteq> [] \<and> last s = c"
  by (auto simp: HasSuffix_iff) (metis append_butlast_last_id)

lemma TrimSuffix_append [simp]: "TrimSuffix (s @ p) p = s"
  by (simp add: TrimSuffix_def)

lemma TrimSuffix_cases:
  obtains "s = TrimSuffix s p @ p" | "\<not> HasSuffix s p" "TrimSuffix s p = s"
proof (cases "HasSuffix s p")
  case True
  then obtain t where "s = t @ p" by (auto simp: HasSuffix_iff)
  then show thesis using that(1) by simp
next
  case False
  then show thesis using that(2) by (simp add: TrimSuffix_def)
qed

lemma length_TrimSuffix_le: "length (TrimSuffix s p) \<le> length s"
  by (simp add: TrimSuffix_def)

section \<open>Invariants of step relations\<close>

text \<open>The contract of a component that keeps an invariant: it holds initially and every step
  preserves it, so it holds in every state a run can visit.\<close>

locale invariant_system =
  fixes init :: "'s \<Rightarrow> bool"
    and step :: "'s \<Rightarrow> 's \<Rightarrow> bool"
    and inv :: "'s \<Rightarrow> bool"
  assumes init_inv: "init s \<Longrightarrow> inv s"
    and step_inv: "step s t \<Longrightarrow> inv s \<Longrightarrow> inv t"
begin

lemma steps_inv: "step\<^sup>*\<^sup>* s t \<Longrightarrow> inv s \<Longrightarrow> inv t"
  by (induction rule: rtranclp_induct) (auto intro: step_inv)

lemma reachable_inv: "init s \<Longrightarrow> step\<^sup>*\<^sup>* s t \<Longrightarrow> inv t"
  by (blast intro: steps_inv init_inv)

end

end
