(* ===== verification/Go_Strings.thy ===== *)
theory Go_Strings
  imports Prelude
begin

text \<open>
  The parts of Go's \<open>utf8\<close>, \<open>unicode\<close>, \<open>strings\<close>, \<open>bytes\<close>, \<open>strconv\<close>, \<open>fmt\<close> and
  \<open>encoding/hex\<close> packages that the sources call, on byte strings.

  The case tables of \<open>unicode.ToUpper\<close> and \<open>unicode.ToLower\<close> are a parameter: a record
  \<open>unicode\<close> of two functions on code points, consulted for code points from 128 on only;
  the ASCII part is fixed here as Go fixes it. Every theorem holds for every such table.
  White space is the fixed set of \<open>unicode.IsSpace\<close>. Decoding follows \<open>utf8.DecodeRune\<close>:
  an ill-formed byte is the replacement rune U+FFFD of width 1.
\<close>

section \<open>UTF-8\<close>

type_synonym rune = nat

definition RuneError :: rune where
  "RuneError = 0xFFFD"

definition cont_byte :: "nat \<Rightarrow> nat \<Rightarrow> char \<Rightarrow> bool" where
  [go_defs]: "cont_byte lo hi c \<longleftrightarrow> lo \<le> of_char c \<and> of_char c \<le> hi"

text \<open>The three multi-byte forms: \<open>b0\<close> is the leading byte, the second byte of a three- or
  four-byte form has the narrower range that excludes overlong forms and surrogates.\<close>

fun decode2 :: "nat \<Rightarrow> bytes \<Rightarrow> rune \<times> nat" where
  "decode2 b0 (c1 # _) =
     (if cont_byte 0x80 0xBF c1 then (b0 mod 0x20 * 0x40 + of_char c1 mod 0x40, 2)
      else (RuneError, 1))"
| "decode2 b0 _ = (RuneError, 1)"

fun decode3 :: "nat \<Rightarrow> bytes \<Rightarrow> rune \<times> nat" where
  "decode3 b0 (c1 # c2 # _) =
     (if cont_byte (if b0 = 0xE0 then 0xA0 else 0x80) (if b0 = 0xED then 0x9F else 0xBF) c1
        \<and> cont_byte 0x80 0xBF c2
      then (b0 mod 0x10 * 0x1000 + of_char c1 mod 0x40 * 0x40 + of_char c2 mod 0x40, 3)
      else (RuneError, 1))"
| "decode3 b0 _ = (RuneError, 1)"

fun decode4 :: "nat \<Rightarrow> bytes \<Rightarrow> rune \<times> nat" where
  "decode4 b0 (c1 # c2 # c3 # _) =
     (if cont_byte (if b0 = 0xF0 then 0x90 else 0x80) (if b0 = 0xF4 then 0x8F else 0xBF) c1
        \<and> cont_byte 0x80 0xBF c2 \<and> cont_byte 0x80 0xBF c3
      then (b0 mod 0x08 * 0x40000 + of_char c1 mod 0x40 * 0x1000
              + of_char c2 mod 0x40 * 0x40 + of_char c3 mod 0x40, 4)
      else (RuneError, 1))"
| "decode4 b0 _ = (RuneError, 1)"

fun decode_rune :: "bytes \<Rightarrow> rune \<times> nat" where
  "decode_rune [] = (RuneError, 0)"
| "decode_rune (c0 # r0) =
     (let b0 = of_char c0 :: nat in
      if b0 < 0x80 then (b0, 1)
      else if 0xC2 \<le> b0 \<and> b0 \<le> 0xDF then decode2 b0 r0
      else if 0xE0 \<le> b0 \<and> b0 \<le> 0xEF then decode3 b0 r0
      else if 0xF0 \<le> b0 \<and> b0 \<le> 0xF4 then decode4 b0 r0
      else (RuneError, 1))"

declare decode_rune.simps(2) [simp del]

lemma decode_rune_ascii [simp]: "of_char c < (0x80 :: nat) \<Longrightarrow> decode_rune (c # s) = (of_char c, 1)"
  by (simp add: decode_rune.simps(2))

lemma decode2_width: "1 \<le> snd (decode2 b r)" "snd (decode2 b r) \<le> Suc (length r)"
  by (induction b r rule: decode2.induct) auto

lemma decode3_width: "1 \<le> snd (decode3 b r)" "snd (decode3 b r) \<le> Suc (length r)"
  by (induction b r rule: decode3.induct) auto

lemma decode4_width: "1 \<le> snd (decode4 b r)" "snd (decode4 b r) \<le> Suc (length r)"
  by (induction b r rule: decode4.induct) auto

lemma decode_rune_width:
  assumes "s \<noteq> []"
  shows "1 \<le> snd (decode_rune s)" and "snd (decode_rune s) \<le> length s"
proof -
  from assms obtain c r where "s = c # r" by (cases s) auto
  then show "1 \<le> snd (decode_rune s)" and "snd (decode_rune s) \<le> length s"
    using decode2_width [of "of_char c" r] decode3_width [of "of_char c" r]
      decode4_width [of "of_char c" r]
    by (simp_all add: decode_rune.simps(2) Let_def)
qed

text \<open>A rune below 128 comes from that one byte: multi-byte sequences and errors never decode
  to ASCII.\<close>

lemma mod_in_block: "k * m \<le> b \<Longrightarrow> b < k * m + m \<Longrightarrow> b mod m = b - k * (m :: nat)"
  by (metis add_diff_inverse_nat less_diff_conv2 add.commute mod_less mod_mult_self3 not_less)

lemma decode2_high: "0xC2 \<le> b \<Longrightarrow> b \<le> 0xDF \<Longrightarrow> 0x80 \<le> fst (decode2 b r)"
  using mod_in_block [of 6 32 b]
  by (induction b r rule: decode2.induct) (auto simp: RuneError_def)

lemma decode3_high: "0xE0 \<le> b \<Longrightarrow> b \<le> 0xEF \<Longrightarrow> 0x80 \<le> fst (decode3 b r)"
proof (induction b r rule: decode3.induct)
  case (1 b c1 c2 r)
  let ?x = "of_char c1 :: nat"
  have b: "b mod 0x10 = b - 0xE0" using 1 mod_in_block [of 14 16 b] by simp
  have "b = 0xE0 \<Longrightarrow> 0xA0 \<le> ?x \<Longrightarrow> ?x \<le> 0xBF \<Longrightarrow> 0x80 \<le> ?x mod 0x40 * 0x40"
    using mod_in_block [of 2 64 ?x] by simp
  with 1 show ?case by (auto simp: RuneError_def cont_byte_def b)
qed (simp_all add: RuneError_def)

lemma decode4_high: "0xF0 \<le> b \<Longrightarrow> b \<le> 0xF4 \<Longrightarrow> 0x80 \<le> fst (decode4 b r)"
proof (induction b r rule: decode4.induct)
  case (1 b c1 c2 c3 r)
  let ?x = "of_char c1 :: nat"
  have b: "b mod 0x08 = b - 0xF0" using 1 mod_in_block [of 30 8 b] by simp
  have "b = 0xF0 \<Longrightarrow> 0x90 \<le> ?x \<Longrightarrow> ?x \<le> 0xBF \<Longrightarrow> 0x80 \<le> ?x mod 0x40 * 0x1000"
    using mod_in_block [of 2 64 ?x] by simp
  with 1 show ?case by (auto simp: RuneError_def cont_byte_def b)
qed (simp_all add: RuneError_def)

lemma decode_rune_high:
  assumes "0x80 \<le> (of_char c :: nat)"
  shows "0x80 \<le> fst (decode_rune (c # s))"
  using assms
  by (simp add: decode_rune.simps(2) Let_def decode2_high decode3_high decode4_high RuneError_def)

lemma decode_rune_ascii_only:
  assumes "fst (decode_rune (c # s)) < 0x80"
  shows "fst (decode_rune (c # s)) = of_char c" and "snd (decode_rune (c # s)) = 1"
proof -
  from assms have "of_char c < (0x80 :: nat)"
    using decode_rune_high [of c s] by linarith
  then show "fst (decode_rune (c # s)) = of_char c" and "snd (decode_rune (c # s)) = 1"
    by simp_all
qed

function decode_runes :: "bytes \<Rightarrow> rune list" where
  "decode_runes s =
     (if s = [] then [] else fst (decode_rune s) # decode_runes (drop (snd (decode_rune s)) s))"
  by pat_completeness auto
termination
proof (relation "measure length", goal_cases)
  case (2 s)
  then show ?case using decode_rune_width [of s] by simp
qed simp

declare decode_runes.simps [simp del]

lemma decode_runes_Nil [simp]: "decode_runes [] = []"
  by (simp add: decode_runes.simps)

lemma decode_runes_Cons_ascii [simp]:
  "of_char c < (0x80 :: nat) \<Longrightarrow> decode_runes (c # s) = of_char c # decode_runes s"
  by (subst decode_runes.simps) simp

definition encode_valid :: "rune \<Rightarrow> bytes" where
  "encode_valid r =
     (if r < 0x80 then [char_of r]
      else if r < 0x800 then [char_of (0xC0 + r div 0x40), char_of (0x80 + r mod 0x40)]
      else if r < 0x10000 then
        [char_of (0xE0 + r div 0x1000), char_of (0x80 + r div 0x40 mod 0x40),
         char_of (0x80 + r mod 0x40)]
      else
        [char_of (0xF0 + r div 0x40000), char_of (0x80 + r div 0x1000 mod 0x40),
         char_of (0x80 + r div 0x40 mod 0x40), char_of (0x80 + r mod 0x40)])"

text \<open>\<open>utf8.EncodeRune\<close>: surrogates and values above U+10FFFF are encoded as U+FFFD.\<close>

definition encode_rune :: "rune \<Rightarrow> bytes" where
  "encode_rune r =
     encode_valid (if 0x10FFFF < r \<or> 0xD800 \<le> r \<and> r \<le> 0xDFFF then RuneError else r)"

lemma encode_rune_ascii [simp]: "r < 0x80 \<Longrightarrow> encode_rune r = [char_of r]"
  by (simp add: encode_rune_def encode_valid_def)

text \<open>\<open>utf8.DecodeLastRuneInString\<close>: look back at most four bytes for a byte that can start a
  rune, and accept the decoding from there only if it ends exactly at the end.\<close>

definition rune_start :: "char \<Rightarrow> bool" where
  "rune_start c \<longleftrightarrow> (of_char c :: nat) div 0x40 \<noteq> 2"

definition decode_last_rune :: "bytes \<Rightarrow> rune \<times> nat" where
  "decode_last_rune s =
     (if s = [] then (RuneError, 0)
      else if of_char (last s) < (0x80 :: nat) then (of_char (last s), 1)
      else (case filter (\<lambda>k. k \<le> length s \<and> rune_start (s ! (length s - k))) [2, 3, 4] of
              [] \<Rightarrow> (RuneError, 1)
            | k # _ \<Rightarrow>
                (if snd (decode_rune (drop (length s - k) s)) = k
                 then decode_rune (drop (length s - k) s) else (RuneError, 1))))"

lemma decode_last_rune_width:
  assumes "s \<noteq> []"
  shows "1 \<le> snd (decode_last_rune s)" and "snd (decode_last_rune s) \<le> length s"
proof -
  have "1 \<le> snd (decode_last_rune s) \<and> snd (decode_last_rune s) \<le> length s"
    using assms by (auto simp: decode_last_rune_def Suc_le_eq split: list.split)
  then show "1 \<le> snd (decode_last_rune s)" and "snd (decode_last_rune s) \<le> length s" by simp_all
qed

lemma decode_last_rune_ascii [simp]:
  "s \<noteq> [] \<Longrightarrow> of_char (last s) < (0x80 :: nat) \<Longrightarrow> decode_last_rune s = (of_char (last s), 1)"
  by (simp add: decode_last_rune_def)

section \<open>White space\<close>

text \<open>\<open>unicode.IsSpace\<close>.\<close>

definition IsSpace :: "rune \<Rightarrow> bool" where
  "IsSpace r \<longleftrightarrow>
     r \<in> {0x09, 0x0A, 0x0B, 0x0C, 0x0D, 0x20, 0x85, 0xA0, 0x1680, 0x2028, 0x2029, 0x202F,
          0x205F, 0x3000} \<or> 0x2000 \<le> r \<and> r \<le> 0x200A"

function trim_left_space :: "bytes \<Rightarrow> bytes" where
  "trim_left_space s =
     (if s \<noteq> [] \<and> IsSpace (fst (decode_rune s))
      then trim_left_space (drop (snd (decode_rune s)) s) else s)"
  by pat_completeness auto
termination
proof (relation "measure length", goal_cases)
  case (2 s)
  then show ?case using decode_rune_width [of s] by simp
qed simp

function trim_right_space :: "bytes \<Rightarrow> bytes" where
  "trim_right_space s =
     (if s \<noteq> [] \<and> IsSpace (fst (decode_last_rune s))
      then trim_right_space (take (length s - snd (decode_last_rune s)) s) else s)"
  by pat_completeness auto
termination
proof (relation "measure length", goal_cases)
  case (2 s)
  then show ?case using decode_last_rune_width [of s] by simp
qed simp

declare trim_left_space.simps [simp del] trim_right_space.simps [simp del]

definition TrimSpace :: "bytes \<Rightarrow> bytes" where
  "TrimSpace s = trim_right_space (trim_left_space s)"

text \<open>A byte that is neither white space nor the start of a multi-byte rune.\<close>

definition solid :: "char \<Rightarrow> bool" where
  "solid c \<longleftrightarrow> of_char c < (0x80 :: nat) \<and> \<not> IsSpace (of_char c)"

lemma trim_left_space_Nil [simp]: "trim_left_space [] = []"
  by (simp add: trim_left_space.simps)

lemma trim_right_space_Nil [simp]: "trim_right_space [] = []"
  by (simp add: trim_right_space.simps)

lemma TrimSpace_Nil [simp]: "TrimSpace [] = []"
  by (simp add: TrimSpace_def)

lemma trim_left_space_solid [simp]: "solid c \<Longrightarrow> trim_left_space (c # s) = c # s"
  by (subst trim_left_space.simps) (simp add: solid_def)

lemma trim_right_space_solid [simp]: "solid c \<Longrightarrow> trim_right_space (s @ [c]) = s @ [c]"
  by (subst trim_right_space.simps) (simp add: solid_def)

lemma trim_left_space_blank [simp]: "trim_left_space (CHR '' '' # s) = trim_left_space s"
  by (subst trim_left_space.simps) (simp add: IsSpace_def)

text \<open>A string that starts and ends with solid bytes is left alone.\<close>

lemma TrimSpace_solid:
  assumes "s \<noteq> []" and "solid (hd s)" and "solid (last s)"
  shows "TrimSpace s = s"
proof -
  have "trim_left_space s = s" using assms(1,2) by (cases s) auto
  moreover have "trim_right_space s = s"
    using assms(1,3) trim_right_space_solid [of "last s" "butlast s"] by simp
  ultimately show ?thesis by (simp add: TrimSpace_def)
qed

lemma trim_left_space_suffix: "\<exists>p. s = p @ trim_left_space s"
proof (induction s rule: trim_left_space.induct)
  case (1 s)
  show ?case
  proof (cases "s \<noteq> [] \<and> IsSpace (fst (decode_rune s))")
    case True
    with 1 obtain p where "drop (snd (decode_rune s)) s = p @ trim_left_space s"
      by (metis trim_left_space.simps)
    then have "s = (take (snd (decode_rune s)) s @ p) @ trim_left_space s"
      by (metis append.assoc append_take_drop_id)
    then show ?thesis ..
  next
    case False
    then have "trim_left_space s = s" by (subst trim_left_space.simps) auto
    then show ?thesis by simp
  qed
qed

lemma trim_right_space_prefix: "\<exists>q. s = trim_right_space s @ q"
proof (induction s rule: trim_right_space.induct)
  case (1 s)
  show ?case
  proof (cases "s \<noteq> [] \<and> IsSpace (fst (decode_last_rune s))")
    case True
    with 1 obtain q where
      "take (length s - snd (decode_last_rune s)) s = trim_right_space s @ q"
      by (metis trim_right_space.simps)
    then have "s = trim_right_space s @ q @ drop (length s - snd (decode_last_rune s)) s"
      by (metis append.assoc append_take_drop_id)
    then show ?thesis by blast
  next
    case False
    then have "trim_right_space s = s" by (subst trim_right_space.simps) auto
    then show ?thesis by simp
  qed
qed

text \<open>Trimming returns a contiguous part of its input.\<close>

lemma TrimSpace_sublist: "sublist (TrimSpace s) s"
  unfolding TrimSpace_def sublist_def
  by (metis trim_left_space_suffix trim_right_space_prefix append.assoc)

lemma set_TrimSpace: "set (TrimSpace s) \<subseteq> set s"
  using TrimSpace_sublist by (rule set_mono_sublist)

lemma length_TrimSpace_le: "length (TrimSpace s) \<le> length s"
  using TrimSpace_sublist by (rule sublist_length_le)

section \<open>Case\<close>

record unicode =
  uc_upper :: "rune \<Rightarrow> rune"
  uc_lower :: "rune \<Rightarrow> rune"

definition rune_upper :: "unicode \<Rightarrow> rune \<Rightarrow> rune" where
  [go_defs]: "rune_upper U r =
     (if r < 0x80 then (if 97 \<le> r \<and> r \<le> 122 then r - 32 else r) else uc_upper U r)"

definition rune_lower :: "unicode \<Rightarrow> rune \<Rightarrow> rune" where
  [go_defs]: "rune_lower U r =
     (if r < 0x80 then (if 65 \<le> r \<and> r \<le> 90 then r + 32 else r) else uc_lower U r)"

definition ToUpper :: "unicode \<Rightarrow> bytes \<Rightarrow> bytes" where
  "ToUpper U s = concat (map (\<lambda>r. encode_rune (rune_upper U r)) (decode_runes s))"

definition ToLower :: "unicode \<Rightarrow> bytes \<Rightarrow> bytes" where
  "ToLower U s = concat (map (\<lambda>r. encode_rune (rune_lower U r)) (decode_runes s))"

text \<open>On ASCII strings both work byte by byte, whatever the table.\<close>

definition ascii :: "bytes \<Rightarrow> bool" where
  "ascii s \<longleftrightarrow> (\<forall>c \<in> set s. of_char c < (0x80 :: nat))"

definition upper_byte :: "char \<Rightarrow> char" where
  [go_defs]: "upper_byte c =
     (if 97 \<le> (of_char c :: nat) \<and> of_char c \<le> (122 :: nat) then char_of (of_char c - 32 :: nat) else c)"

definition lower_byte :: "char \<Rightarrow> char" where
  [go_defs]: "lower_byte c =
     (if 65 \<le> (of_char c :: nat) \<and> of_char c \<le> (90 :: nat) then char_of (of_char c + 32 :: nat) else c)"

lemma ascii_Nil [simp]: "ascii []"
  by (simp add: ascii_def)

lemma ascii_Cons [simp]: "ascii (c # s) \<longleftrightarrow> of_char c < (0x80 :: nat) \<and> ascii s"
  by (simp add: ascii_def)

lemma ascii_append [simp]: "ascii (s @ t) \<longleftrightarrow> ascii s \<and> ascii t"
  by (auto simp: ascii_def)

lemma ToUpper_Nil [simp]: "ToUpper U [] = []"
  by (simp add: ToUpper_def)

lemma ToLower_Nil [simp]: "ToLower U [] = []"
  by (simp add: ToLower_def)

lemma ToUpper_Cons_ascii [simp]:
  "of_char c < (0x80 :: nat) \<Longrightarrow> ToUpper U (c # s) = upper_byte c # ToUpper U s"
  by (simp add: ToUpper_def rune_upper_def upper_byte_def)

lemma ToLower_Cons_ascii [simp]:
  "of_char c < (0x80 :: nat) \<Longrightarrow> ToLower U (c # s) = lower_byte c # ToLower U s"
  by (simp add: ToLower_def rune_lower_def lower_byte_def)

lemma ToUpper_ascii_append: "ascii s \<Longrightarrow> ToUpper U (s @ t) = map upper_byte s @ ToUpper U t"
  by (induction s) simp_all

lemma ToUpper_ascii: "ascii s \<Longrightarrow> ToUpper U s = map upper_byte s"
  using ToUpper_ascii_append [of s U "[]"] by simp

lemma ToLower_ascii: "ascii s \<Longrightarrow> ToLower U s = map lower_byte s"
  by (induction s) simp_all

text \<open>Upper- and lower-casing agree up to case.\<close>

lemma upper_lower_byte [simp]: "upper_byte (lower_byte c) = upper_byte c"
  by (auto simp: upper_byte_def lower_byte_def)

lemma upper_byte_idem [simp]: "upper_byte (upper_byte c) = upper_byte c"
  by (auto simp: upper_byte_def)

lemma lower_byte_idem [simp]: "lower_byte (lower_byte c) = lower_byte c"
  by (auto simp: lower_byte_def)

lemma ascii_upper_byte [simp]:
  "of_char (upper_byte c) < (0x80 :: nat) \<longleftrightarrow> of_char c < (0x80 :: nat)"
  by (auto simp: upper_byte_def)

lemma ascii_lower_byte [simp]:
  "of_char (lower_byte c) < (0x80 :: nat) \<longleftrightarrow> of_char c < (0x80 :: nat)"
  by (auto simp: lower_byte_def)

text \<open>
  An ASCII prefix of an upper-cased string uses up at least as many bytes of the original: the
  slice expression \<open>arg[len(prefix)+1:]\<close> behind \<open>strings.HasPrefix(strings.ToUpper(arg), p)\<close>
  stays in range, whatever the case table does to the rest.
\<close>

lemma encode_rune_nonempty [simp]: "encode_rune r \<noteq> []"
  by (simp add: encode_rune_def encode_valid_def)

lemma high_lead_byte: "0x80 \<le> n \<Longrightarrow> n < 0x100 \<Longrightarrow> \<not> of_char (char_of n) < (0x80 :: nat)"
  for n :: nat by simp

lemma encode_valid_hd_ascii:
  assumes "r < 0x110000" and "encode_valid r = c # t" and "of_char c < (0x80 :: nat)"
  shows "t = []"
proof (cases "r < 0x80")
  case True
  with assms(2) show ?thesis by (simp add: encode_valid_def)
next
  case False
  have "r < 0x800 \<Longrightarrow> r div 0x40 < 0x20" and "r < 0x10000 \<Longrightarrow> r div 0x1000 < 0x10"
    and "r div 0x40000 < 0x08"
    using assms(1) by (simp_all add: div_less_iff_less_mult)
  with False assms(2) have "\<exists>n :: nat. c = char_of n \<and> 0x80 \<le> n \<and> n < 0x100"
    by (auto simp: encode_valid_def split: if_splits intro: exI [of _ "0xC0 + r div 0x40"]
        exI [of _ "0xE0 + r div 0x1000"] exI [of _ "0xF0 + r div 0x40000"])
  with assms(3) show ?thesis using high_lead_byte by blast
qed

lemma encode_rune_hd_ascii:
  assumes "encode_rune r = c # t" and "of_char c < (0x80 :: nat)"
  shows "t = []"
proof (rule encode_valid_hd_ascii)
  show "(if 0x10FFFF < r \<or> 0xD800 \<le> r \<and> r \<le> 0xDFFF then RuneError else r) < 0x110000"
    by (simp add: RuneError_def)
  show "encode_valid (if 0x10FFFF < r \<or> 0xD800 \<le> r \<and> r \<le> 0xDFFF then RuneError else r) = c # t"
    using assms(1) by (simp add: encode_rune_def)
qed (rule assms(2))

lemma decode_runes_step:
  "s \<noteq> [] \<Longrightarrow> decode_runes s = fst (decode_rune s) # decode_runes (drop (snd (decode_rune s)) s)"
  by (subst decode_runes.simps) simp

lemma length_decode_runes_le: "length (decode_runes s) \<le> length s"
proof (induction s rule: decode_runes.induct)
  case (1 s)
  show ?case
  proof (cases "s = []")
    case False
    with 1 have "length (decode_runes s) \<le> Suc (length s - snd (decode_rune s))"
      by (simp add: decode_runes_step)
    also have "\<dots> \<le> length s" using decode_rune_width [OF False] by simp
    finally show ?thesis .
  qed simp
qed

lemma ascii_prefix_of_encoding:
  assumes "concat (map (\<lambda>r. encode_rune (f r)) rs) = p @ t" and "ascii p"
  shows "length p \<le> length rs"
  using assms
proof (induction rs arbitrary: p)
  case Nil
  then show ?case by simp
next
  case (Cons r rs)
  show ?case
  proof (cases p)
    case (Cons c q)
    obtain d e where enc: "encode_rune (f r) = d # e"
      using encode_rune_nonempty by (metis neq_Nil_conv)
    with Cons.prems Cons have "d = c" by simp
    with Cons.prems Cons enc have "e = []" using encode_rune_hd_ascii [of "f r" c e] by simp
    with Cons.prems Cons enc have "length q \<le> length rs"
      by (intro Cons.IH) simp_all
    with Cons show ?thesis by simp
  qed simp
qed

lemma ToUpper_prefix_length:
  assumes "HasPrefix (ToUpper U s) p" and "ascii p"
  shows "length p \<le> length s"
proof -
  from assms(1) obtain t where "ToUpper U s = p @ t" by (auto simp: HasPrefix_iff)
  with assms(2) have "length p \<le> length (decode_runes s)"
    by (intro ascii_prefix_of_encoding) (auto simp: ToUpper_def)
  with length_decode_runes_le [of s] show ?thesis by simp
qed

text \<open>A \<open>range\<close> loop that tests runes with an ASCII-only predicate tests the bytes: ill-formed and
  multi-byte input decodes to runes that fail it.\<close>

lemma list_all_decode_runes:
  assumes "\<And>r. P r \<Longrightarrow> r < 0x80"
  shows "list_all P (decode_runes s) \<longleftrightarrow> (\<forall>c \<in> set s. P (of_char c))"
proof (induction s rule: decode_runes.induct)
  case (1 s)
  show ?case
  proof (cases s)
    case (Cons c t)
    show ?thesis
    proof (cases "of_char c < (0x80 :: nat)")
      case True
      with 1 Cons show ?thesis by simp
    next
      case False
      then have "\<not> P (fst (decode_rune (c # t)))" and "\<not> P (of_char c)"
        using decode_rune_high [of c t] assms by (metis not_less)+
      with Cons show ?thesis by (simp add: decode_runes_step)
    qed
  qed simp
qed

section \<open>Fields and Split\<close>

text \<open>\<open>word_len s\<close> is the number of bytes before the first white-space rune of \<open>s\<close>.\<close>

function word_len :: "bytes \<Rightarrow> nat" where
  "word_len s =
     (if s = [] \<or> IsSpace (fst (decode_rune s)) then 0
      else snd (decode_rune s) + word_len (drop (snd (decode_rune s)) s))"
  by pat_completeness auto
termination
proof (relation "measure length", goal_cases)
  case (2 s)
  then show ?case using decode_rune_width [of s] by simp
qed simp

declare word_len.simps [simp del]

lemma trim_left_space_result:
  "trim_left_space s = [] \<or> \<not> IsSpace (fst (decode_rune (trim_left_space s)))"
proof (induction s rule: trim_left_space.induct)
  case (1 s)
  show ?case
  proof (cases "s \<noteq> [] \<and> IsSpace (fst (decode_rune s))")
    case True
    then have "trim_left_space s = trim_left_space (drop (snd (decode_rune s)) s)"
      by (subst trim_left_space.simps) simp
    with 1 True show ?thesis by simp
  next
    case False
    then have "trim_left_space s = s" by (subst trim_left_space.simps) auto
    with False show ?thesis by auto
  qed
qed

lemma word_len_pos:
  assumes "s \<noteq> []" and "\<not> IsSpace (fst (decode_rune s))"
  shows "0 < word_len s"
  using assms decode_rune_width [OF assms(1)] by (subst word_len.simps) simp

lemma length_trim_left_space_le: "length (trim_left_space s) \<le> length s"
  using trim_left_space_suffix [of s] by (metis le_add2 length_append)

text \<open>\<open>strings.Fields\<close>.\<close>

function Fields :: "bytes \<Rightarrow> bytes list" where
  "Fields s =
     (if trim_left_space s = [] then []
      else take (word_len (trim_left_space s)) (trim_left_space s)
             # Fields (drop (word_len (trim_left_space s)) (trim_left_space s)))"
  by pat_completeness auto
termination
proof (relation "measure length", goal_cases)
  case (2 s)
  then have "length (trim_left_space s) - word_len (trim_left_space s) < length (trim_left_space s)"
    using word_len_pos [of "trim_left_space s"] trim_left_space_result [of s] by simp
  with length_trim_left_space_le [of s] show ?case by simp
qed simp

declare Fields.simps [simp del]

text \<open>\<open>strings.Split(s, sep)\<close> for a one-byte separator.\<close>

fun Split :: "char \<Rightarrow> bytes \<Rightarrow> bytes list" where
  "Split c [] = [[]]"
| "Split c (x # xs) =
     (if x = c then [] # Split c xs
      else (case Split c xs of w # ws \<Rightarrow> (x # w) # ws | [] \<Rightarrow> [[x]]))"

lemma Split_nonempty [simp]: "Split c s \<noteq> []"
  by (induction s) (auto split: list.splits)

lemma Split_notin [simp]: "c \<notin> set s \<Longrightarrow> Split c s = [s]"
  by (induction s) auto

lemma Split_append_sep: "c \<notin> set a \<Longrightarrow> Split c (a @ c # b) = a # Split c b"
  by (induction a) auto

lemma Split_parts: "w \<in> set (Split c s) \<Longrightarrow> c \<notin> set w"
proof (induction s arbitrary: w)
  case (Cons x xs)
  then show ?case by (auto split: list.splits if_splits)
qed simp

text \<open>Joining the parts with the separator gives the string back.\<close>

fun join :: "char \<Rightarrow> bytes list \<Rightarrow> bytes" where
  "join c [] = []"
| "join c [w] = w"
| "join c (w # v # ws) = w @ c # join c (v # ws)"

lemma join_Cons: "ws \<noteq> [] \<Longrightarrow> join c (w # ws) = w @ c # join c ws"
  by (cases ws) auto

lemma join_nonempty: "ws \<noteq> [] \<Longrightarrow> hd ws \<noteq> [] \<Longrightarrow> join c ws \<noteq> []"
  by (induction c ws rule: join.induct) auto

lemma join_Split: "join c (Split c s) = s"
proof (induction s)
  case (Cons x xs)
  obtain w ws where split: "Split c xs = w # ws" by (cases "Split c xs") auto
  with Cons show ?case by (cases ws) auto
qed simp

lemma Split_join: "ws \<noteq> [] \<Longrightarrow> \<forall>w \<in> set ws. c \<notin> set w \<Longrightarrow> Split c (join c ws) = ws"
  by (induction c ws rule: join.induct) (simp_all add: Split_append_sep)

lemma set_join: "ws \<noteq> [] \<Longrightarrow> set (join c ws) \<subseteq> insert c (\<Union>w \<in> set ws. set w)"
  by (induction c ws rule: join.induct) auto

section \<open>Numbers\<close>

definition digit :: "nat \<Rightarrow> char" where
  "digit d = char_of (48 + d)"

fun show_nat :: "nat \<Rightarrow> bytes" where
  "show_nat n = (if n < 10 then [digit n] else show_nat (n div 10) @ [digit (n mod 10)])"

declare show_nat.simps [simp del]

text \<open>\<open>fmt.Sprintf("%d", n)\<close>.\<close>

definition itoa :: "int \<Rightarrow> bytes" where
  "itoa n = (if n < 0 then CHR ''-'' # show_nat (nat (- n)) else show_nat (nat n))"

definition is_digit :: "char \<Rightarrow> bool" where
  "is_digit c \<longleftrightarrow> 48 \<le> (of_char c :: nat) \<and> of_char c \<le> (57 :: nat)"

definition dec_val :: "bytes \<Rightarrow> nat" where
  "dec_val ds = foldl (\<lambda>a c. 10 * a + (of_char c - 48)) 0 ds"

text \<open>
  \<open>fmt.Sscanf(s, "%d", &size)\<close> for an \<open>int64\<close> target and an \<open>s\<close> without leading white space:
  \<^const>\<open>None\<close> where the scan fails and leaves the target unchanged, that is when there is no
  digit or when \<open>strconv.ParseInt\<close> reports that the value is out of range.
\<close>

definition Sscanf_d :: "bytes \<Rightarrow> int option" where
  "Sscanf_d s =
     (let neg = HasPrefix s ''-'';
          rest = (if HasPrefix s ''-'' \<or> HasPrefix s ''+'' then tl s else s);
          ds = takeWhile is_digit rest;
          v = (if neg then - int (dec_val ds) else int (dec_val ds))
      in if ds = [] \<or> \<not> in_i64 v then None else Some v)"

lemma of_char_digit [simp]: "d < 10 \<Longrightarrow> of_char (digit d) = 48 + d"
  by (simp add: digit_def)

lemma is_digit_digit [simp]: "d < 10 \<Longrightarrow> is_digit (digit d)"
  by (simp add: is_digit_def)

lemma show_nat_digits: "\<forall>c \<in> set (show_nat n). is_digit c"
proof (induction n rule: show_nat.induct)
  case (1 n)
  then show ?case by (cases "n < 10") (simp_all add: show_nat.simps [of n])
qed

lemma show_nat_nonempty [simp]: "show_nat n \<noteq> []"
  by (subst show_nat.simps) simp

lemma dec_val_snoc [simp]: "dec_val (ds @ [c]) = 10 * dec_val ds + (of_char c - 48)"
  by (simp add: dec_val_def)

lemma dec_val_show_nat [simp]: "dec_val (show_nat n) = n"
proof (induction n rule: show_nat.induct)
  case (1 n)
  show ?case
  proof (cases "n < 10")
    case True
    then show ?thesis by (simp add: show_nat.simps [of n] dec_val_def)
  next
    case False
    with 1 show ?thesis by (simp add: show_nat.simps [of n])
  qed
qed

lemma takeWhile_show_nat [simp]: "takeWhile is_digit (show_nat n) = show_nat n"
  using show_nat_digits by (simp add: takeWhile_eq_all_conv)

lemma hd_show_nat: "is_digit (hd (show_nat n))"
  using show_nat_digits [of n] by (simp add: list.set_sel(1))

text \<open>Scanning a printed \<open>int64\<close> gives the number back.\<close>

lemma Sscanf_d_itoa:
  assumes "in_i64 n"
  shows "Sscanf_d (itoa n) = Some n"
proof (cases "n < 0")
  case True
  with assms show ?thesis by (simp add: itoa_def Sscanf_d_def Let_def)
next
  case False
  have "hd (show_nat (nat n)) \<noteq> CHR ''-''" "hd (show_nat (nat n)) \<noteq> CHR ''+''"
    using hd_show_nat [of "nat n"] by (auto simp: is_digit_def)
  with False assms show ?thesis by (simp add: itoa_def Sscanf_d_def Let_def)
qed

text \<open>\<open>hex.EncodeToString\<close>.\<close>

definition hex_digit :: "nat \<Rightarrow> char" where
  "hex_digit d = (if d < 10 then char_of (48 + d) else char_of (87 + d))"

definition hex_EncodeToString :: "bytes \<Rightarrow> bytes" where
  "hex_EncodeToString b =
     concat (map (\<lambda>c. [hex_digit (of_char c div 16), hex_digit (of_char c mod 16)]) b)"

lemma length_hex_EncodeToString [simp]: "length (hex_EncodeToString b) = 2 * length b"
  by (induction b) (simp_all add: hex_EncodeToString_def)

lemma hex_digit_not_LF: "d < 16 \<Longrightarrow> CHR 0x0A \<noteq> hex_digit d"
  by (auto simp: hex_digit_def char_of_eq_iff take_bit_eq_mod dest: sym)

lemma LF_not_in_hex: "CHR 0x0A \<notin> set (hex_EncodeToString b)"
proof (induction b)
  case Nil
  show ?case by (simp add: hex_EncodeToString_def)
next
  case (Cons c b)
  have "of_char c div 16 < (16 :: nat)"
    using nat_of_char_less_256 [of c] less_mult_imp_div_less [of "of_char c" 16 16] by simp
  then have "CHR 0x0A \<noteq> hex_digit (of_char c div 16)" by (rule hex_digit_not_LF)
  moreover have "CHR 0x0A \<noteq> hex_digit (of_char c mod 16)" by (rule hex_digit_not_LF) simp
  ultimately show ?case using Cons by (simp add: hex_EncodeToString_def)
qed

end
