(* ===== verification/Protocol.thy ===== *)
theory Protocol
  imports Go_Strings
begin

text \<open>
  The protocol vocabulary of \<open>state.go\<close> and \<open>command.go\<close>: session states, command verbs,
  parsed commands and mail paths, the table of commands allowed in each state, and the error
  values of the package as one datatype.

  A session state is a Go \<open>int\<close> with twelve named constants and a command verb a Go string
  with fourteen; both are datatypes here, ordered as the \<open>iota\<close> block orders the states.
\<close>

section \<open>States\<close>

datatype State =
    StateDisconnected | StateConnected | StateGreeted | StateIdentified | StateMailFrom
  | StateRcptTo | StateData | StateDataDone | StateStartTLS | StateTerminating
  | StateTerminated | StateAborted

fun State_iota :: "State \<Rightarrow> nat" where
  "State_iota StateDisconnected = 0"
| "State_iota StateConnected = 1"
| "State_iota StateGreeted = 2"
| "State_iota StateIdentified = 3"
| "State_iota StateMailFrom = 4"
| "State_iota StateRcptTo = 5"
| "State_iota StateData = 6"
| "State_iota StateDataDone = 7"
| "State_iota StateStartTLS = 8"
| "State_iota StateTerminating = 9"
| "State_iota StateTerminated = 10"
| "State_iota StateAborted = 11"

lemma State_iota_inj [simp]: "State_iota s = State_iota t \<longleftrightarrow> s = t"
  by (cases s; cases t) simp_all

instantiation State :: linorder
begin

definition less_eq_State :: "State \<Rightarrow> State \<Rightarrow> bool" where
  "less_eq_State s t \<longleftrightarrow> State_iota s \<le> State_iota t"

definition less_State :: "State \<Rightarrow> State \<Rightarrow> bool" where
  "less_State s t \<longleftrightarrow> State_iota s < State_iota t"

instance
  by standard (auto simp: less_eq_State_def less_State_def)

end

fun State_String :: "State \<Rightarrow> string" where
  "State_String StateDisconnected = ''Disconnected''"
| "State_String StateConnected = ''Connected''"
| "State_String StateGreeted = ''Greeted''"
| "State_String StateIdentified = ''Identified''"
| "State_String StateMailFrom = ''MailFrom''"
| "State_String StateRcptTo = ''RcptTo''"
| "State_String StateData = ''Data''"
| "State_String StateDataDone = ''DataDone''"
| "State_String StateStartTLS = ''StartTLS''"
| "State_String StateTerminating = ''Terminating''"
| "State_String StateTerminated = ''Terminated''"
| "State_String StateAborted = ''Aborted''"

definition IsTerminal :: "State \<Rightarrow> bool" where
  "IsTerminal s \<longleftrightarrow> s = StateTerminated \<or> s = StateAborted"

definition CanAcceptCommands :: "State \<Rightarrow> bool" where
  "CanAcceptCommands s \<longleftrightarrow> s \<in> {StateGreeted, StateIdentified, StateMailFrom, StateRcptTo}"

definition InTransaction :: "State \<Rightarrow> bool" where
  "InTransaction s \<longleftrightarrow> s = StateMailFrom \<or> s = StateRcptTo \<or> s = StateData"

section \<open>Commands\<close>

datatype CommandVerb =
    CmdHELO | CmdEHLO | CmdMAIL | CmdRCPT | CmdDATA | CmdRSET | CmdNOOP | CmdQUIT | CmdVRFY
  | CmdEXPN | CmdHELP | CmdSTARTTLS | CmdAUTH | CmdUnknown

fun CommandVerb_String :: "CommandVerb \<Rightarrow> string" where
  "CommandVerb_String CmdHELO = ''HELO''"
| "CommandVerb_String CmdEHLO = ''EHLO''"
| "CommandVerb_String CmdMAIL = ''MAIL''"
| "CommandVerb_String CmdRCPT = ''RCPT''"
| "CommandVerb_String CmdDATA = ''DATA''"
| "CommandVerb_String CmdRSET = ''RSET''"
| "CommandVerb_String CmdNOOP = ''NOOP''"
| "CommandVerb_String CmdQUIT = ''QUIT''"
| "CommandVerb_String CmdVRFY = ''VRFY''"
| "CommandVerb_String CmdEXPN = ''EXPN''"
| "CommandVerb_String CmdHELP = ''HELP''"
| "CommandVerb_String CmdSTARTTLS = ''STARTTLS''"
| "CommandVerb_String CmdAUTH = ''AUTH''"
| "CommandVerb_String CmdUnknown = []"

definition verbs :: "CommandVerb list" where
  "verbs = [CmdHELO, CmdEHLO, CmdMAIL, CmdRCPT, CmdDATA, CmdRSET, CmdNOOP, CmdQUIT, CmdVRFY,
     CmdEXPN, CmdHELP, CmdSTARTTLS, CmdAUTH]"

text \<open>The \<open>switch\<close> over the verb constants: the constant equal to the upper-cased word.\<close>

definition ParseCommandVerb :: "unicode \<Rightarrow> bytes \<Rightarrow> CommandVerb" where
  "ParseCommandVerb U s =
     (let v = ToUpper U (TrimSpace s) in
      case find (\<lambda>c. CommandVerb_String c = v) verbs of Some c \<Rightarrow> c | None \<Rightarrow> CmdUnknown)"

text \<open>A Go map that may be nil: \<^const>\<open>None\<close> is the nil map, on which every lookup fails.\<close>

type_synonym ESMTPParams = "(string \<rightharpoonup> string) option"

definition params_get :: "ESMTPParams \<Rightarrow> string \<Rightarrow> string option" where
  "params_get ps k = (case ps of None \<Rightarrow> None | Some m \<Rightarrow> m k)"

record Command =
  cmd_Verb :: CommandVerb
  cmd_Raw :: string
  cmd_Argument :: string
  cmd_Params :: ESMTPParams

record MailPath =
  mp_Address :: string
  mp_SourceRoute :: string
  mp_IsNull :: bool

definition zero_MailPath :: MailPath where
  "zero_MailPath = \<lparr>mp_Address = [], mp_SourceRoute = [], mp_IsNull = False\<rparr>"

fun AllowedCommands :: "State \<Rightarrow> CommandVerb list" where
  "AllowedCommands StateGreeted = [CmdHELO, CmdEHLO, CmdQUIT, CmdNOOP, CmdHELP, CmdRSET]"
| "AllowedCommands StateIdentified =
     [CmdHELO, CmdEHLO, CmdMAIL, CmdQUIT, CmdNOOP, CmdHELP, CmdRSET, CmdVRFY, CmdEXPN,
      CmdSTARTTLS, CmdAUTH]"
| "AllowedCommands StateMailFrom = [CmdRCPT, CmdRSET, CmdQUIT, CmdNOOP, CmdHELP]"
| "AllowedCommands StateRcptTo = [CmdRCPT, CmdDATA, CmdRSET, CmdQUIT, CmdNOOP, CmdHELP]"
| "AllowedCommands StateData = []"
| "AllowedCommands _ = []"

definition IsCommandAllowed :: "State \<Rightarrow> CommandVerb \<Rightarrow> bool" where
  "IsCommandAllowed s c \<longleftrightarrow> list_ex (\<lambda>d. d = c) (AllowedCommands s)"

fun CommandRequiresArgument :: "CommandVerb \<Rightarrow> bool" where
  "CommandRequiresArgument CmdHELO = True"
| "CommandRequiresArgument CmdEHLO = True"
| "CommandRequiresArgument CmdMAIL = True"
| "CommandRequiresArgument CmdRCPT = True"
| "CommandRequiresArgument _ = False"

fun CommandForbidsArgument :: "CommandVerb \<Rightarrow> bool" where
  "CommandForbidsArgument CmdDATA = True"
| "CommandForbidsArgument CmdRSET = True"
| "CommandForbidsArgument CmdQUIT = True"
| "CommandForbidsArgument CmdSTARTTLS = True"
| "CommandForbidsArgument _ = False"

section \<open>Errors\<close>

text \<open>
  The error values that flow through the package: the sentinels of \<open>io\<close>, \<open>bufio\<close> and
  \<open>context\<close> it compares against, its own sentinels, its error structs, and the errors of
  foreign code (a \<open>net.Error\<close> with the answer of its \<open>Timeout\<close> method, or a plain message).
  \<open>ErrWrap\<close> is \<open>fmt.Errorf\<close> with a \<open>%w\<close> verb.
\<close>

datatype goerror =
    EOF | ErrUnexpectedEOF | ErrClosedPipe | ErrNoProgress
  | CtxDeadlineExceeded | CtxCanceled
  | ErrDeadlineExceeded
  | ErrMessageTooLarge | ErrTooManyRecipients | ErrCommandTooLong | ErrLineTooLong
  | ErrTooManyErrors | ErrTooManyTransactions | ErrTimeout | ErrConnectionClosed
  | ErrEmptyCommand | ErrInvalidCommand | ErrMissingArgument | ErrUnexpectedArgument
  | ErrInvalidPath | ErrInvalidAddress | ErrMissingColon | ErrInvalidSyntax
  | ErrEnvelopeFinalized | ErrNoMailFrom | ErrNoRecipients | ErrNoData | ErrDataWriterOpen
  | ParseError goerror int string string
  | StateTransitionError State State CommandVerb string
  | TLSError string "goerror option" string
  | StorageError string string "goerror option" bool string
  | NetError bool string
  | ErrNew string
  | ErrWrap string goerror

fun Unwrap :: "goerror \<Rightarrow> goerror option" where
  "Unwrap (ParseError e _ _ _) = Some e"
| "Unwrap (TLSError _ c _) = c"
| "Unwrap (StorageError _ _ c _ _) = c"
| "Unwrap (ErrWrap _ e) = Some e"
| "Unwrap _ = None"

lemma size_Unwrap: "Unwrap e = Some e' \<Longrightarrow> size e' < size e"
  by (cases e rule: Unwrap.cases) auto

text \<open>\<open>errors.Is(err, target)\<close>: the error or something it wraps equals the target.\<close>

function errors_Is :: "goerror \<Rightarrow> goerror \<Rightarrow> bool" where
  "errors_Is e t \<longleftrightarrow> e = t \<or> (case Unwrap e of None \<Rightarrow> False | Some e' \<Rightarrow> errors_Is e' t)"
  by pat_completeness auto
termination
  by (relation "measure (\<lambda>(e, t). size e)") (auto dest: size_Unwrap)

declare errors_Is.simps [simp del]

lemma errors_Is_refl [simp]: "errors_Is e e"
  by (simp add: errors_Is.simps)

text \<open>The panics of the Go runtime the code can run into.\<close>

datatype go_panic = NilDereference

section \<open>Facts\<close>

lemma IsCommandAllowed_iff: "IsCommandAllowed s c \<longleftrightarrow> c \<in> set (AllowedCommands s)"
  by (simp add: IsCommandAllowed_def list_ex_iff)

lemma CommandVerb_String_inj [simp]:
  "CommandVerb_String c = CommandVerb_String d \<longleftrightarrow> c = d"
  by (cases c; cases d) simp_all

lemma verbs_complete: "c \<in> set verbs \<longleftrightarrow> c \<noteq> CmdUnknown"
  by (cases c) (simp_all add: verbs_def)

lemma find_verb: "c \<noteq> CmdUnknown \<Longrightarrow> find (\<lambda>d. d = c) verbs = Some c"
  by (cases c) (simp_all add: verbs_def)

lemma find_verb_result:
  "find (\<lambda>d. CommandVerb_String d = v) verbs = Some c \<Longrightarrow> c \<noteq> CmdUnknown \<and> CommandVerb_String c = v"
  by (auto simp: find_Some_iff) (metis nth_mem verbs_complete)

text \<open>The verb of a word is \<open>c\<close> exactly when the trimmed, upper-cased word spells \<open>c\<close>.\<close>

lemma ParseCommandVerb_iff:
  assumes "c \<noteq> CmdUnknown"
  shows "ParseCommandVerb U s = c \<longleftrightarrow> ToUpper U (TrimSpace s) = CommandVerb_String c"
proof
  assume "ToUpper U (TrimSpace s) = CommandVerb_String c"
  with assms show "ParseCommandVerb U s = c" by (simp add: ParseCommandVerb_def find_verb)
next
  assume "ParseCommandVerb U s = c"
  with assms have "find (\<lambda>d. CommandVerb_String d = ToUpper U (TrimSpace s)) verbs = Some c"
    by (auto simp: ParseCommandVerb_def Let_def split: option.splits)
  then show "ToUpper U (TrimSpace s) = CommandVerb_String c" using find_verb_result by metis
qed

text \<open>Every state that accepts a command at all is one \<open>CanAcceptCommands\<close> names.\<close>

lemma AllowedCommands_accepting: "AllowedCommands s \<noteq> [] \<longleftrightarrow> CanAcceptCommands s"
  by (cases s) (simp_all add: CanAcceptCommands_def)

end
