(* ===== verification/State_Machine.thy ===== *)
theory State_Machine
  imports Protocol
begin

text \<open>
  The protocol state machine of \<open>statemachine.go\<close>. Each method takes the machine and returns
  its result with the updated machine. A \<open>StateObserver\<close> is modelled by the list of
  transitions it has been notified of; \<open>NullStateObserver\<close> keeps nothing.

  The theory shows that the two tables of the source (commands allowed in a state, states
  required by a command) are one relation, that a transition the table allows never fails
  silently, that the states a run visits form a chain of the transition table, and that the
  only way to the data phase is a complete MAIL/RCPT sequence.
\<close>

section \<open>Definitions\<close>

text \<open>The field \<open>Command\<close> of transitions and of their errors is never set: it is the empty verb.\<close>

record StateTransition =
  st_From :: State
  st_To :: State
  st_Command :: CommandVerb
  st_Success :: bool

datatype StateObserver = NullStateObserver | Observer "StateTransition list"

fun OnStateChange :: "StateTransition \<Rightarrow> StateObserver \<Rightarrow> StateObserver" where
  "OnStateChange t NullStateObserver = NullStateObserver"
| "OnStateChange t (Observer ts) = Observer (ts @ [t])"

record StateMachine =
  sm_state :: State
  sm_observer :: StateObserver

definition StateMachine_State :: "StateMachine \<Rightarrow> State" where
  "StateMachine_State m = sm_state m"

definition NewStateMachine :: StateMachine where
  [sm_defs]: "NewStateMachine = \<lparr>sm_state = StateDisconnected, sm_observer = NullStateObserver\<rparr>"

definition NewStateMachineWithObserver :: "StateObserver \<Rightarrow> StateMachine" where
  [sm_defs]: "NewStateMachineWithObserver ob = \<lparr>sm_state = StateDisconnected, sm_observer = ob\<rparr>"

definition SetObserver :: "StateObserver option \<Rightarrow> StateMachine \<Rightarrow> StateMachine" where
  [sm_defs]: "SetObserver ob m =
     m\<lparr>sm_observer := (case ob of None \<Rightarrow> NullStateObserver | Some x \<Rightarrow> x)\<rparr>"

fun validTransitions :: "State \<Rightarrow> State list" where
  "validTransitions StateDisconnected = [StateConnected]"
| "validTransitions StateConnected = [StateGreeted, StateTerminated, StateAborted]"
| "validTransitions StateGreeted = [StateIdentified, StateTerminating, StateAborted]"
| "validTransitions StateIdentified =
     [StateIdentified, StateMailFrom, StateStartTLS, StateTerminating, StateAborted]"
| "validTransitions StateMailFrom =
     [StateRcptTo, StateIdentified, StateTerminating, StateAborted]"
| "validTransitions StateRcptTo =
     [StateRcptTo, StateData, StateIdentified, StateTerminating, StateAborted]"
| "validTransitions StateData = [StateDataDone, StateAborted]"
| "validTransitions StateDataDone = [StateIdentified, StateTerminating, StateAborted]"
| "validTransitions StateStartTLS = [StateGreeted, StateAborted]"
| "validTransitions StateTerminating = [StateTerminated]"
| "validTransitions StateTerminated = []"
| "validTransitions StateAborted = []"

definition canTransition :: "State \<Rightarrow> StateMachine \<Rightarrow> bool" where
  [sm_defs]: "canTransition n m \<longleftrightarrow> list_ex (\<lambda>v. v = n) (validTransitions (sm_state m))"

definition Transition :: "State \<Rightarrow> StateMachine \<Rightarrow> goerror option \<times> StateMachine" where
  [sm_defs]: "Transition n m =
     (if \<not> canTransition n m then (Some (StateTransitionError (sm_state m) n CmdUnknown []), m)
      else (None,
            m\<lparr>sm_state := n,
              sm_observer := OnStateChange \<lparr>st_From = sm_state m, st_To = n, st_Command = CmdUnknown, st_Success = True\<rparr>
                               (sm_observer m)\<rparr>))"

definition nextStateForCommand :: "CommandVerb \<Rightarrow> StateMachine \<Rightarrow> State" where
  [sm_defs]: "nextStateForCommand c m =
     (case c of
        CmdHELO \<Rightarrow> StateIdentified
      | CmdEHLO \<Rightarrow> StateIdentified
      | CmdMAIL \<Rightarrow> StateMailFrom
      | CmdRCPT \<Rightarrow> StateRcptTo
      | CmdDATA \<Rightarrow> StateData
      | CmdRSET \<Rightarrow> (if InTransaction (sm_state m) then StateIdentified else sm_state m)
      | CmdQUIT \<Rightarrow> StateTerminating
      | CmdSTARTTLS \<Rightarrow> StateStartTLS
      | _ \<Rightarrow> sm_state m)"

definition TransitionForCommand ::
    "CommandVerb \<Rightarrow> bool \<Rightarrow> StateMachine \<Rightarrow> (State \<times> goerror option) \<times> StateMachine" where
  [sm_defs]: "TransitionForCommand c success m =
     (if \<not> success then ((sm_state m, None), m)
      else if nextStateForCommand c m = sm_state m then ((sm_state m, None), m)
      else (case Transition (nextStateForCommand c m) m of
              (Some e, m') \<Rightarrow> ((sm_state m', Some e), m')
            | (None, m') \<Rightarrow> ((sm_state m', None), m')))"

definition Reset :: "StateMachine \<Rightarrow> StateMachine" where
  [sm_defs]: "Reset m =
     (if InTransaction (sm_state m) \<or> sm_state m = StateDataDone
      then snd (Transition StateIdentified m) else m)"

definition guarded_transition ::
    "State \<Rightarrow> State \<Rightarrow> string \<Rightarrow> StateMachine \<Rightarrow> goerror option \<times> StateMachine" where
  [sm_defs]: "guarded_transition required n msg m =
     (if sm_state m \<noteq> required then (Some (StateTransitionError (sm_state m) n CmdUnknown msg), m)
      else Transition n m)"

definition Connect :: "StateMachine \<Rightarrow> goerror option \<times> StateMachine" where
  [sm_defs]: "Connect = guarded_transition StateDisconnected StateConnected ''already connected''"

definition Greet :: "StateMachine \<Rightarrow> goerror option \<times> StateMachine" where
  [sm_defs]: "Greet = guarded_transition StateConnected StateGreeted ''not in connected state''"

definition DataComplete :: "StateMachine \<Rightarrow> goerror option \<times> StateMachine" where
  [sm_defs]: "DataComplete = guarded_transition StateData StateDataDone ''not in data state''"

definition TLSComplete :: "StateMachine \<Rightarrow> goerror option \<times> StateMachine" where
  [sm_defs]: "TLSComplete = guarded_transition StateStartTLS StateGreeted ''not in STARTTLS state''"

definition Terminate :: "StateMachine \<Rightarrow> goerror option \<times> StateMachine" where
  [sm_defs]: "Terminate = Transition StateTerminated"

definition Abort :: "StateMachine \<Rightarrow> goerror option \<times> StateMachine" where
  [sm_defs]: "Abort = Transition StateAborted"

definition sm_IsCommandAllowed :: "CommandVerb \<Rightarrow> StateMachine \<Rightarrow> bool" where
  [sm_defs]: "sm_IsCommandAllowed c m = IsCommandAllowed (sm_state m) c"

text \<open>The second table of the source, and the check over it. The map has no entry for the
  unknown verb.\<close>

fun CommandStateRequirements :: "CommandVerb \<Rightarrow> State list option" where
  "CommandStateRequirements CmdHELO = Some [StateGreeted, StateIdentified]"
| "CommandStateRequirements CmdEHLO = Some [StateGreeted, StateIdentified]"
| "CommandStateRequirements CmdMAIL = Some [StateIdentified]"
| "CommandStateRequirements CmdRCPT = Some [StateMailFrom, StateRcptTo]"
| "CommandStateRequirements CmdDATA = Some [StateRcptTo]"
| "CommandStateRequirements CmdRSET =
     Some [StateGreeted, StateIdentified, StateMailFrom, StateRcptTo]"
| "CommandStateRequirements CmdNOOP =
     Some [StateGreeted, StateIdentified, StateMailFrom, StateRcptTo]"
| "CommandStateRequirements CmdQUIT =
     Some [StateGreeted, StateIdentified, StateMailFrom, StateRcptTo]"
| "CommandStateRequirements CmdVRFY = Some [StateIdentified]"
| "CommandStateRequirements CmdEXPN = Some [StateIdentified]"
| "CommandStateRequirements CmdHELP =
     Some [StateGreeted, StateIdentified, StateMailFrom, StateRcptTo]"
| "CommandStateRequirements CmdSTARTTLS = Some [StateIdentified]"
| "CommandStateRequirements CmdAUTH = Some [StateIdentified]"
| "CommandStateRequirements CmdUnknown = None"

definition IsStateValidForCommand :: "State \<Rightarrow> CommandVerb \<Rightarrow> bool" where
  "IsStateValidForCommand s c =
     (case CommandStateRequirements c of None \<Rightarrow> False | Some ss \<Rightarrow> list_ex (\<lambda>t. t = s) ss)"

section \<open>Single operations\<close>

lemma canTransition_iff: "canTransition n m \<longleftrightarrow> n \<in> set (validTransitions (sm_state m))"
  by (simp add: canTransition_def list_ex_iff)

lemma Transition_ok:
  "fst (Transition n m) = None \<longleftrightarrow> n \<in> set (validTransitions (sm_state m))"
  by (simp add: Transition_def canTransition_iff)

lemma Transition_state:
  "sm_state (snd (Transition n m)) =
     (if n \<in> set (validTransitions (sm_state m)) then n else sm_state m)"
  by (simp add: Transition_def canTransition_iff)

lemma sm_state_SetObserver [simp]: "sm_state (SetObserver ob m) = sm_state m"
  by (simp add: SetObserver_def)

lemma TransitionForCommand_False [simp]: "TransitionForCommand c False m = ((sm_state m, None), m)"
  by (simp add: TransitionForCommand_def)

lemma snd_TransitionForCommand:
  "snd (TransitionForCommand c True m) =
     (if nextStateForCommand c m = sm_state m then m else snd (Transition (nextStateForCommand c m) m))"
  by (simp add: TransitionForCommand_def case_prod_beta split: option.split)

lemma sm_state_TransitionForCommand:
  "sm_state (snd (TransitionForCommand c True m)) =
     (if nextStateForCommand c m \<in> set (validTransitions (sm_state m)) then nextStateForCommand c m
      else sm_state m)"
  by (simp add: snd_TransitionForCommand Transition_state)

lemma sm_state_Abort:
  "sm_state (snd (Abort m)) =
     (if StateAborted \<in> set (validTransitions (sm_state m)) then StateAborted else sm_state m)"
  by (simp add: Abort_def Transition_state)

lemma sm_state_Terminate:
  "sm_state (snd (Terminate m)) =
     (if StateTerminated \<in> set (validTransitions (sm_state m)) then StateTerminated else sm_state m)"
  by (simp add: Terminate_def Transition_state)

text \<open>\<open>Reset\<close> leaves a transaction that has not reached the data phase; in the data phase the
  table has no way back to \<open>Identified\<close>, and \<open>Reset\<close> drops the error.\<close>

lemma sm_state_Reset:
  "sm_state (Reset m) =
     (if sm_state m \<in> {StateMailFrom, StateRcptTo, StateDataDone} then StateIdentified
      else sm_state m)"
  by (cases "sm_state m") (auto simp: Reset_def InTransaction_def Transition_state)

lemma sm_state_DataComplete:
  "sm_state (snd (DataComplete m)) =
     (if sm_state m = StateData then StateDataDone else sm_state m)"
  by (simp add: DataComplete_def guarded_transition_def Transition_state)

lemma sm_state_TLSComplete:
  "sm_state (snd (TLSComplete m)) =
     (if sm_state m = StateStartTLS then StateGreeted else sm_state m)"
  by (simp add: TLSComplete_def guarded_transition_def Transition_state)

lemma sm_state_Connect:
  "sm_state (snd (Connect m)) =
     (if sm_state m = StateDisconnected then StateConnected else sm_state m)"
  by (simp add: Connect_def guarded_transition_def Transition_state)

lemma sm_state_Greet:
  "sm_state (snd (Greet m)) =
     (if sm_state m = StateConnected then StateGreeted else sm_state m)"
  by (simp add: Greet_def guarded_transition_def Transition_state)

lemmas sm_state_simps =
  sm_state_TransitionForCommand sm_state_Abort sm_state_Terminate sm_state_Reset
  sm_state_DataComplete sm_state_TLSComplete sm_state_Connect sm_state_Greet

section \<open>Runs\<close>

text \<open>A step is one call of a public method that changes the machine; which method a client
  calls next is not determined.\<close>

inductive sm_step :: "StateMachine \<Rightarrow> StateMachine \<Rightarrow> bool" where
  step_Transition: "sm_step m (snd (Transition n m))"
| step_Command: "sm_step m (snd (TransitionForCommand c success m))"
| step_Reset: "sm_step m (Reset m)"
| step_Connect: "sm_step m (snd (Connect m))"
| step_Greet: "sm_step m (snd (Greet m))"
| step_DataComplete: "sm_step m (snd (DataComplete m))"
| step_TLSComplete: "sm_step m (snd (TLSComplete m))"
| step_Terminate: "sm_step m (snd (Terminate m))"
| step_Abort: "sm_step m (snd (Abort m))"

text \<open>Every method is a no-op or a single use of the transition table.\<close>

lemma sm_step_Transition:
  assumes "sm_step m m'"
  shows "m' = m \<or> (\<exists>n. n \<in> set (validTransitions (sm_state m)) \<and> m' = snd (Transition n m))"
proof -
  let ?P = "\<lambda>m'. m' = m \<or>
      (\<exists>n. n \<in> set (validTransitions (sm_state m)) \<and> m' = snd (Transition n m))"
  have one: "?P (snd (Transition n m))" for n
    by (auto simp: Transition_def canTransition_iff)
  have guarded: "?P (snd (guarded_transition r n msg m))" for r n msg
    unfolding guarded_transition_def using one by auto
  from assms show ?thesis
  proof cases
    case (step_Command c success)
    then show ?thesis
      using one by (cases success) (simp_all add: snd_TransitionForCommand)
  qed (use one guarded in \<open>simp_all add: Reset_def Connect_def Greet_def DataComplete_def
      TLSComplete_def Terminate_def Abort_def\<close>)
qed

text \<open>A list of notifications is a chain from \<open>s\<close> to \<open>t\<close> when each is a successful transition of
  the table that starts where the one before ended.\<close>

fun chain :: "State \<Rightarrow> StateTransition list \<Rightarrow> State \<Rightarrow> bool" where
  "chain s [] t \<longleftrightarrow> s = t"
| "chain s (x # xs) t \<longleftrightarrow>
     st_From x = s \<and> st_Success x \<and> st_To x \<in> set (validTransitions s) \<and> chain (st_To x) xs t"

lemma chain_snoc:
  "chain s (xs @ [x]) t \<longleftrightarrow>
     chain s xs (st_From x) \<and> st_Success x \<and> st_To x \<in> set (validTransitions (st_From x)) \<and> st_To x = t"
  by (induction xs arbitrary: s) auto

definition observed :: "StateMachine \<Rightarrow> bool" where
  "observed m \<longleftrightarrow> (\<exists>ts. sm_observer m = Observer ts \<and> chain StateDisconnected ts (sm_state m))"

interpretation sm_run: invariant_system
  "\<lambda>m. m = NewStateMachineWithObserver (Observer [])" sm_step observed
proof
  show "m = NewStateMachineWithObserver (Observer []) \<Longrightarrow> observed m" for m
    by (simp add: observed_def NewStateMachineWithObserver_def)
  show "observed m'" if "sm_step m m'" and "observed m" for m m'
    using sm_step_Transition [OF that(1)] that(2)
    by (auto simp: observed_def Transition_def canTransition_iff chain_snoc)
qed

text \<open>
  (C24) The observer of a machine is told of exactly the path the machine takes: after any
  sequence of method calls, failed ones included, the notifications form an unbroken chain of
  valid transitions from \<open>Disconnected\<close> to the current state.
\<close>

theorem observer_sees_the_path:
  assumes "sm_step\<^sup>*\<^sup>* (NewStateMachineWithObserver (Observer [])) m"
  shows "\<exists>ts. sm_observer m = Observer ts \<and> chain StateDisconnected ts (sm_state m)"
  using sm_run.reachable_inv [OF refl assms] by (simp add: observed_def)

text \<open>A run that connects, greets and tries to connect again: the failed call is not seen.\<close>

theorem observer_sees_the_path_witness:
  "\<exists>ts. sm_observer (snd (Connect (snd (Greet (snd (Connect
          (NewStateMachineWithObserver (Observer [])))))))) = Observer ts
     \<and> chain StateDisconnected ts StateGreeted"
proof -
  let ?m0 = "NewStateMachineWithObserver (Observer [])"
  let ?m1 = "snd (Connect ?m0)"
  let ?m2 = "snd (Greet ?m1)"
  have "sm_step\<^sup>*\<^sup>* ?m0 (snd (Connect ?m2))"
    by (meson rtranclp.rtrancl_into_rtrancl rtranclp.rtrancl_refl step_Connect step_Greet)
  moreover have "sm_state (snd (Connect ?m2)) = StateGreeted"
    by (simp add: sm_state_simps NewStateMachineWithObserver_def)
  ultimately show ?thesis using observer_sees_the_path by metis
qed

section \<open>The tables agree\<close>

text \<open>
  The table of commands allowed in a state and the table of states required by a command
  are the same relation.
\<close>

theorem command_tables_agree: "IsCommandAllowed s c \<longleftrightarrow> IsStateValidForCommand s c"
  by (cases s; cases c) (simp_all add: IsCommandAllowed_def IsStateValidForCommand_def)

text \<open>
  A command that is allowed in the current state moves the machine to the state the
  protocol prescribes and reports no error: the transition table contains every transition the
  command table can ask for.
\<close>

theorem allowed_command_moves:
  assumes "sm_IsCommandAllowed c m"
  shows "fst (TransitionForCommand c True m) = (nextStateForCommand c m, None)
    \<and> sm_state (snd (TransitionForCommand c True m)) = nextStateForCommand c m"
proof -
  have "nextStateForCommand c m = sm_state m
      \<or> nextStateForCommand c m \<in> set (validTransitions (sm_state m))"
    using assms
    by (cases "sm_state m"; cases c)
      (simp_all add: sm_IsCommandAllowed_def IsCommandAllowed_def nextStateForCommand_def
        InTransaction_def)
  then show ?thesis
    by (auto simp: TransitionForCommand_def Transition_def canTransition_iff)
qed

theorem allowed_command_moves_witness:
  "sm_state (snd (TransitionForCommand CmdDATA True
     \<lparr>sm_state = StateRcptTo, sm_observer = NullStateObserver\<rparr>)) = StateData"
proof -
  let ?m = "\<lparr>sm_state = StateRcptTo, sm_observer = NullStateObserver\<rparr>"
  have "sm_IsCommandAllowed CmdDATA ?m" by (simp add: sm_IsCommandAllowed_def IsCommandAllowed_def)
  from allowed_command_moves [OF this] show ?thesis by (simp add: nextStateForCommand_def)
qed

section \<open>Paths\<close>

lemma chain_last:
  assumes "chain s ts t" and "s \<noteq> t"
  obtains us x where "ts = us @ [x]" and "chain s us (st_From x)"
    and "t \<in> set (validTransitions (st_From x))" and "st_To x = t"
proof (cases ts rule: rev_cases)
  case Nil
  with assms show thesis by simp
next
  case (snoc us x)
  with assms that show thesis by (auto simp: chain_snoc)
qed

lemma reach_MailFrom_from:
  "StateMailFrom \<in> set (validTransitions s) \<Longrightarrow> s = StateIdentified"
  by (cases s) simp_all

lemma reach_RcptTo_from:
  "StateRcptTo \<in> set (validTransitions s) \<Longrightarrow> s = StateMailFrom \<or> s = StateRcptTo"
  by (cases s) simp_all

lemma reach_Data_from: "StateData \<in> set (validTransitions s) \<Longrightarrow> s = StateRcptTo"
  by (cases s) simp_all

lemma chain_to_MailFrom:
  assumes "chain StateDisconnected ts StateMailFrom"
  shows "\<exists>pre. map st_To ts = pre @ [StateIdentified, StateMailFrom]"
proof -
  from assms obtain us x where ts: "ts = us @ [x]" "st_To x = StateMailFrom"
    and us: "chain StateDisconnected us StateIdentified"
    by (rule chain_last) (auto dest: reach_MailFrom_from)
  from us obtain vs y where "us = vs @ [y]" "st_To y = StateIdentified"
    by (rule chain_last) auto
  with ts show ?thesis by simp
qed

lemma chain_to_RcptTo:
  assumes "chain StateDisconnected ts StateRcptTo"
  shows "\<exists>pre k. map st_To ts =
     pre @ [StateIdentified, StateMailFrom] @ replicate (Suc k) StateRcptTo"
  using assms
proof (induction ts rule: rev_induct)
  case (snoc x us)
  then have x: "st_To x = StateRcptTo"
    and pred: "st_From x = StateMailFrom \<or> st_From x = StateRcptTo"
    and us: "chain StateDisconnected us (st_From x)"
    by (auto simp: chain_snoc dest: reach_RcptTo_from)
  from pred show ?case
  proof
    assume "st_From x = StateMailFrom"
    with us obtain pre where "map st_To us = pre @ [StateIdentified, StateMailFrom]"
      using chain_to_MailFrom by metis
    with x have "map st_To (us @ [x]) =
        pre @ [StateIdentified, StateMailFrom] @ replicate (Suc 0) StateRcptTo" by simp
    then show ?thesis by blast
  next
    assume "st_From x = StateRcptTo"
    with us snoc.IH obtain pre k where
      "map st_To us = pre @ [StateIdentified, StateMailFrom] @ replicate (Suc k) StateRcptTo"
      by metis
    with x have "map st_To (us @ [x]) =
        pre @ [StateIdentified, StateMailFrom] @ replicate (Suc (Suc k)) StateRcptTo"
      by (simp add: replicate_append_same [symmetric])
    then show ?thesis by blast
  qed
qed simp

text \<open>
  (C38) The data phase is reached only through a complete transaction prefix: any path of the
  transition table from \<open>Disconnected\<close> to \<open>Data\<close> ends with \<open>Identified\<close>, \<open>MailFrom\<close>, one or
  more \<open>RcptTo\<close>, \<open>Data\<close>.
\<close>

theorem data_needs_mail_and_rcpt:
  assumes "chain StateDisconnected ts StateData"
  shows "\<exists>pre k. map st_To ts =
     pre @ [StateIdentified, StateMailFrom] @ replicate (Suc k) StateRcptTo @ [StateData]"
proof -
  from assms obtain us x where "ts = us @ [x]" "st_To x = StateData"
    and us: "chain StateDisconnected us StateRcptTo"
    by (rule chain_last) (auto dest: reach_Data_from)
  moreover from us obtain pre k where
    "map st_To us = pre @ [StateIdentified, StateMailFrom] @ replicate (Suc k) StateRcptTo"
    using chain_to_RcptTo by metis
  ultimately have "map st_To ts =
      pre @ [StateIdentified, StateMailFrom] @ replicate (Suc k) StateRcptTo @ [StateData]"
    by simp
  then show ?thesis by blast
qed

definition full_path :: "StateTransition list" where
  "full_path = map (\<lambda>(a, b). \<lparr>st_From = a, st_To = b, st_Command = CmdUnknown, st_Success = True\<rparr>)
     [(StateDisconnected, StateConnected), (StateConnected, StateGreeted),
      (StateGreeted, StateIdentified), (StateIdentified, StateMailFrom),
      (StateMailFrom, StateRcptTo), (StateRcptTo, StateRcptTo), (StateRcptTo, StateData)]"

theorem data_needs_mail_and_rcpt_witness:
  "chain StateDisconnected full_path StateData \<and>
   (\<exists>pre k. map st_To full_path =
     pre @ [StateIdentified, StateMailFrom] @ replicate (Suc k) StateRcptTo @ [StateData])"
proof -
  have "chain StateDisconnected full_path StateData" by (simp add: full_path_def)
  with data_needs_mail_and_rcpt [OF this] show ?thesis by simp
qed

text \<open>
  A state is terminal, in the sense of \<open>IsTerminal\<close>, exactly when no method call can leave
  it: \<open>Terminated\<close> and \<open>Aborted\<close> are final and every other state has a way out.
\<close>

theorem terminal_states_absorb:
  "IsTerminal s \<longleftrightarrow> (\<forall>m m'. sm_state m = s \<longrightarrow> sm_step m m' \<longrightarrow> sm_state m' = s)"
proof
  assume "IsTerminal s"
  then have "validTransitions s = []" by (auto simp: IsTerminal_def)
  then show "\<forall>m m'. sm_state m = s \<longrightarrow> sm_step m m' \<longrightarrow> sm_state m' = s"
    by (auto dest!: sm_step_Transition)
next
  assume stays: "\<forall>m m'. sm_state m = s \<longrightarrow> sm_step m m' \<longrightarrow> sm_state m' = s"
  let ?m = "\<lparr>sm_state = s, sm_observer = NullStateObserver\<rparr>"
  have "sm_state (snd (Transition n ?m)) = s" for n
    using stays step_Transition [of ?m n] by (metis StateMachine.select_convs(1))
  then have "n \<in> set (validTransitions s) \<Longrightarrow> n = s" for n
    by (metis Transition_state StateMachine.select_convs(1))
  then show "IsTerminal s"
    by (cases s) (auto simp: IsTerminal_def dest: meta_spec)
qed

theorem terminal_states_absorb_witness:
  "sm_state (snd (Transition StateIdentified \<lparr>sm_state = StateAborted, sm_observer = NullStateObserver\<rparr>))
     = StateAborted"
proof -
  have "IsTerminal StateAborted" by (simp add: IsTerminal_def)
  with terminal_states_absorb [of StateAborted] step_Transition show ?thesis
    by (metis StateMachine.select_convs(1))
qed

end
