(* ===== verification/Smtp_Parser.thy ===== *)
theory Smtp_Parser
  imports Protocol
begin

text \<open>
  The command parser of \<open>parser.go\<close> on byte strings: command lines, ESMTP parameters, mail
  paths, addresses, HELO host names, and the dot-stuffing of the data phase. A parse failure
  is the \<open>ParseError\<close> the code builds (its \<open>Position\<close> field is never set). \<open>U\<close> is the Unicode
  case table.
\<close>

section \<open>Command lines\<close>

definition NewParser_MaxCommandLength :: int where
  "NewParser_MaxCommandLength = 512"

definition splitCommand :: "bytes \<Rightarrow> bytes \<times> bytes" where
  "splitCommand line =
     (case index_of CHR '' '' line of
        None \<Rightarrow> (line, [])
      | Some idx \<Rightarrow> (take idx line, drop (idx + 1) line))"

definition add_param :: "unicode \<Rightarrow> (string \<rightharpoonup> string) \<Rightarrow> bytes \<Rightarrow> (string \<rightharpoonup> string)" where
  "add_param U params part =
     (case index_of CHR ''='' part of
        None \<Rightarrow> params(ToUpper U part \<mapsto> [])
      | Some eqIdx \<Rightarrow> params(ToUpper U (take eqIdx part) \<mapsto> drop (eqIdx + 1) part))"

definition parseESMTPParams :: "unicode \<Rightarrow> bytes \<Rightarrow> ESMTPParams" where
  "parseESMTPParams U arg =
     (case index_of CHR ''>'' arg of
        None \<Rightarrow> None
      | Some closeIdx \<Rightarrow>
          (let remainder = TrimSpace (drop (closeIdx + 1) arg) in
           if remainder = [] then None
           else Some (foldl (add_param U) Map.empty (Fields remainder))))"

definition trim_eol :: "bytes \<Rightarrow> bytes" where
  "trim_eol line = TrimSuffix (TrimSuffix line [CHR 0x0D, CHR 0x0A]) [CHR 0x0A]"

definition ParseCommand :: "unicode \<Rightarrow> int \<Rightarrow> bytes \<Rightarrow> goerror + Command" where
  "ParseCommand U maxLen line0 =
     (if maxLen > 0 \<and> int (length line0) > maxLen then Inl (ParseError ErrCommandTooLong 0 [] line0)
      else
       (let line = trim_eol line0 in
        if line = [] then Inl (ParseError ErrEmptyCommand 0 [] [])
        else
         (let (verb, arg) = splitCommand line; cmdVerb = ParseCommandVerb U verb in
          if cmdVerb = CmdUnknown then Inl (ParseError ErrInvalidCommand 0 verb line)
          else
           (let argStr = TrimSpace arg in
            if CommandRequiresArgument cmdVerb \<and> argStr = [] then
              Inl (ParseError ErrMissingArgument 0
                    (CommandVerb_String cmdVerb @ '' requires an argument'') [])
            else if CommandForbidsArgument cmdVerb \<and> argStr \<noteq> [] then
              Inl (ParseError ErrUnexpectedArgument 0
                    (CommandVerb_String cmdVerb @ '' does not accept arguments'') [])
            else
              Inr \<lparr>cmd_Verb = cmdVerb, cmd_Raw = line, cmd_Argument = argStr,
                   cmd_Params =
                     (if cmdVerb = CmdMAIL \<or> cmdVerb = CmdRCPT then parseESMTPParams U argStr
                      else None)\<rparr>))))"

section \<open>Mail paths\<close>

text \<open>Character classes, on runes.\<close>

definition isAlphanumeric :: "rune \<Rightarrow> bool" where
  "isAlphanumeric c \<longleftrightarrow>
     (97 \<le> c \<and> c \<le> 122) \<or> (65 \<le> c \<and> c \<le> 90) \<or> (48 \<le> c \<and> c \<le> 57)"

definition isValidDomainChar :: "rune \<Rightarrow> bool" where
  "isValidDomainChar c \<longleftrightarrow>
     (97 \<le> c \<and> c \<le> 122) \<or> (65 \<le> c \<and> c \<le> 90) \<or> (48 \<le> c \<and> c \<le> 57) \<or> c = 45 \<or> c = 46"

definition isValidAddress :: "bytes \<Rightarrow> bool" where
  "isValidAddress addr =
     (if addr = [] then False
      else
       (case last_index_of CHR ''@'' addr of
          None \<Rightarrow> False
        | Some atIdx \<Rightarrow>
            if atIdx = 0 \<or> atIdx = length addr - 1 then False
            else
             (let localPart = take atIdx addr; domain = drop (atIdx + 1) addr in
              if localPart = [] \<or> domain = [] then False
              else if HasPrefix domain ''.'' \<or> HasSuffix domain ''.'' then False
              else if HasPrefix domain ''-'' \<or> HasSuffix domain ''-'' then False
              else list_all isValidDomainChar (decode_runes domain))))"

definition extractPath :: "bytes \<Rightarrow> goerror + MailPath" where
  "extractPath s0 =
     (let s = TrimSpace s0 in
      if \<not> HasPrefix s ''<'' then Inl (ParseError ErrInvalidPath 0 ''path must start with <'' s)
      else
       (case index_of CHR ''>'' s of
          None \<Rightarrow> Inl (ParseError ErrInvalidPath 0 ''path must end with >'' s)
        | Some closeIdx \<Rightarrow>
           (let inner = take (closeIdx - 1) (drop 1 s) in
            if inner = [] then Inr \<lparr>mp_Address = [], mp_SourceRoute = [], mp_IsNull = True\<rparr>
            else
             (let (sourceRoute, inner') =
                (if HasPrefix inner ''@'' then
                   (case index_of CHR '':'' inner of
                      None \<Rightarrow> ([], inner)
                    | Some colonIdx \<Rightarrow> (take (colonIdx + 1) inner, drop (colonIdx + 1) inner))
                 else ([], inner)) in
              if \<not> isValidAddress inner' then
                Inl (ParseError ErrInvalidAddress 0 ''invalid address format'' inner')
              else Inr \<lparr>mp_Address = inner', mp_SourceRoute = sourceRoute, mp_IsNull = False\<rparr>))))"

definition ParseMailPath :: "unicode \<Rightarrow> bytes \<Rightarrow> bytes \<Rightarrow> goerror + MailPath" where
  "ParseMailPath U arg0 kw =
     (let arg = TrimSpace arg0 in
      if \<not> HasPrefix (ToUpper U arg) (kw @ '':'') then
        Inl (ParseError ErrMissingColon 0 (''expected '' @ kw @ '':'') arg)
      else extractPath (TrimSpace (drop (length kw + 1) arg)))"

section \<open>Host names\<close>

definition isValidLabel :: "bytes \<Rightarrow> bool" where
  "isValidLabel label =
     (if label = [] \<or> length label > 63 then False
      else if \<not> isAlphanumeric (of_char (hd label)) \<or> \<not> isAlphanumeric (of_char (last label)) then False
      else list_all (\<lambda>c. isAlphanumeric c \<or> c = 45) (decode_runes label))"

definition isValidHostname :: "bytes \<Rightarrow> bool" where
  "isValidHostname s =
     (if s = [] \<or> length s > 255 then False else list_all isValidLabel (Split CHR ''.'' s))"

definition ParseHeloHostname :: "bytes \<Rightarrow> goerror + bytes" where
  "ParseHeloHostname arg =
     (let hostname = TrimSpace arg in
      if hostname = [] then Inl (ParseError ErrMissingArgument 0 ''hostname required'' [])
      else if HasPrefix hostname ''['' then
        (if \<not> HasSuffix hostname '']'' then
           Inl (ParseError ErrInvalidSyntax 0 ''unclosed address literal'' hostname)
         else Inr hostname)
      else if \<not> isValidHostname hostname then
        Inl (ParseError ErrInvalidSyntax 0 ''invalid hostname'' hostname)
      else Inr hostname)"

section \<open>Dot-stuffing\<close>

text \<open>The limit of a \<open>DataLineReader\<close> is read by none of its methods; the engine checks its own.\<close>

record DataLineReader =
  dl_MaxLineLength :: int

definition NewDataLineReader :: DataLineReader where
  "NewDataLineReader = \<lparr>dl_MaxLineLength = 998\<rparr>"

definition IsTerminator :: "bytes \<Rightarrow> bool" where
  "IsTerminator line = (let l = trim_eol line in length l = 1 \<and> hd l = CHR ''.'')"

definition UnstuffLine :: "bytes \<Rightarrow> bytes" where
  "UnstuffLine line = (if line \<noteq> [] \<and> hd line = CHR ''.'' then tl line else line)"

definition StuffLine :: "bytes \<Rightarrow> bytes" where
  "StuffLine line = (if line \<noteq> [] \<and> hd line = CHR ''.'' then CHR ''.'' # line else line)"

section \<open>What the parser accepts\<close>

text \<open>Line ends.\<close>

lemma trim_eol_CRLF: "trim_eol (s @ [CHR 0x0D, CHR 0x0A]) = TrimSuffix s [CHR 0x0A]"
  by (simp add: trim_eol_def)

lemma TrimSuffix_notin [simp]: "c \<notin> set s \<Longrightarrow> TrimSuffix s [c] = s"
  by (auto simp: TrimSuffix_def)

lemma TrimSuffix2_notin [simp]: "c \<notin> set s \<Longrightarrow> TrimSuffix s [d, c] = s"
  by (auto simp: TrimSuffix_def HasSuffix_iff)

text \<open>Addresses.\<close>

lemma domain_chars_ascii:
  "list_all isValidDomainChar (decode_runes d) \<longleftrightarrow> (\<forall>c \<in> set d. isValidDomainChar (of_char c))"
  by (rule list_all_decode_runes) (auto simp: isValidDomainChar_def)

text \<open>
  (C32) An address is accepted exactly when it has the form local-part \<open>@\<close> domain with a
  non-empty local part, where the domain is a non-empty string of ASCII letters, digits,
  hyphens and dots that neither starts nor ends with a hyphen or a dot. The split is at the
  last \<open>@\<close>, so the local part is any non-empty string, further \<open>@\<close> signs included.
\<close>

theorem isValidAddress_iff:
  "isValidAddress addr \<longleftrightarrow>
     (\<exists>localPart domain. addr = localPart @ ''@'' @ domain \<and> localPart \<noteq> [] \<and> domain \<noteq> []
        \<and> (\<forall>c \<in> set domain. isValidDomainChar (of_char c))
        \<and> hd domain \<notin> {CHR ''.'', CHR ''-''} \<and> last domain \<notin> {CHR ''.'', CHR ''-''})"
    (is "_ \<longleftrightarrow> (\<exists>l d. ?P l d)")
proof
  assume valid: "isValidAddress addr"
  then obtain i where i: "last_index_of CHR ''@'' addr = Some i"
    by (auto simp: isValidAddress_def split: if_splits option.splits)
  have "addr = take i addr @ ''@'' @ drop (i + 1) addr"
    using last_index_of_split [OF i] by simp
  with valid i have "?P (take i addr) (drop (i + 1) addr)"
    by (auto simp: isValidAddress_def Let_def domain_chars_ascii split: if_splits)
  then show "\<exists>l d. ?P l d" by blast
next
  assume "\<exists>l d. ?P l d"
  then obtain l d where addr: "addr = l @ CHR ''@'' # d" and ne: "l \<noteq> []" "d \<noteq> []"
    and chars: "\<forall>c \<in> set d. isValidDomainChar (of_char c)"
    and ends: "hd d \<notin> {CHR ''.'', CHR ''-''}" "last d \<notin> {CHR ''.'', CHR ''-''}"
    by auto
  from chars have "CHR ''@'' \<notin> set d" by (auto simp: isValidDomainChar_def)
  with addr have "last_index_of CHR ''@'' addr = Some (length l)" by simp
  with addr ne chars ends show "isValidAddress addr"
    by (simp add: isValidAddress_def domain_chars_ascii)
qed

theorem isValidAddress_iff_witness:
  "isValidAddress ''a@b@example.com'' \<and> \<not> isValidAddress ''@example.com''"
proof -
  have "\<exists>l d. ''a@b@example.com'' = l @ ''@'' @ d \<and> l \<noteq> [] \<and> d \<noteq> []
      \<and> (\<forall>c \<in> set d. isValidDomainChar (of_char c))
      \<and> hd d \<notin> {CHR ''.'', CHR ''-''} \<and> last d \<notin> {CHR ''.'', CHR ''-''}"
    by (rule exI [of _ "''a@b''"], rule exI [of _ "''example.com''"])
      (simp add: isValidDomainChar_def)
  then have "isValidAddress ''a@b@example.com''" by (simp only: isValidAddress_iff)
  then show ?thesis by (simp add: isValidAddress_def)
qed

text \<open>Host names.\<close>

lemma label_chars_ascii:
  "list_all (\<lambda>c. isAlphanumeric c \<or> c = 45) (decode_runes l)
     \<longleftrightarrow> (\<forall>c \<in> set l. isAlphanumeric (of_char c) \<or> c = CHR ''-'')"
proof -
  have "(45 :: nat) = of_char CHR ''-''" by simp
  then have hyphen: "(of_char c :: nat) = 45 \<longleftrightarrow> c = CHR ''-''" for c
    by (simp only: of_char_eq_iff)
  have "list_all (\<lambda>c. isAlphanumeric c \<or> c = 45) (decode_runes l)
      \<longleftrightarrow> (\<forall>c \<in> set l. isAlphanumeric (of_char c) \<or> of_char c = (45 :: nat))"
    by (rule list_all_decode_runes) (auto simp: isAlphanumeric_def)
  then show ?thesis by (simp only: hyphen)
qed

lemma isValidLabel_iff:
  "isValidLabel l \<longleftrightarrow> l \<noteq> [] \<and> length l \<le> 63 \<and> isAlphanumeric (of_char (hd l))
     \<and> isAlphanumeric (of_char (last l)) \<and> (\<forall>c \<in> set l. isAlphanumeric (of_char c) \<or> c = CHR ''-'')"
  by (auto simp: isValidLabel_def label_chars_ascii)

text \<open>
  (C33) A HELO host name is accepted exactly when it is a dot-separated sequence of one or more
  labels of 1 to 63 ASCII letters, digits and hyphens that start and end with a letter or a
  digit, 255 bytes in all at most.
\<close>

theorem isValidHostname_iff:
  "isValidHostname s \<longleftrightarrow>
     length s \<le> 255 \<and>
     (\<exists>labels. labels \<noteq> [] \<and> s = join CHR ''.'' labels \<and>
        (\<forall>l \<in> set labels. l \<noteq> [] \<and> length l \<le> 63 \<and> isAlphanumeric (of_char (hd l))
           \<and> isAlphanumeric (of_char (last l))
           \<and> (\<forall>c \<in> set l. isAlphanumeric (of_char c) \<or> c = CHR ''-'')))"
    (is "_ \<longleftrightarrow> _ \<and> (\<exists>ls. ls \<noteq> [] \<and> _ \<and> (\<forall>l \<in> set ls. ?label l))")
proof -
  have label: "isValidLabel l \<longleftrightarrow> ?label l" for l by (simp add: isValidLabel_iff)
  show ?thesis
  proof
    assume valid: "isValidHostname s"
    then have "length s \<le> 255" and "\<forall>l \<in> set (Split CHR ''.'' s). ?label l"
      by (auto simp: isValidHostname_def list_all_iff label split: if_splits)
    then show "length s \<le> 255 \<and>
        (\<exists>ls. ls \<noteq> [] \<and> s = join CHR ''.'' ls \<and> (\<forall>l \<in> set ls. ?label l))"
      by (intro conjI exI [of _ "Split CHR ''.'' s"]) (simp_all add: join_Split)
  next
    assume "length s \<le> 255 \<and>
        (\<exists>ls. ls \<noteq> [] \<and> s = join CHR ''.'' ls \<and> (\<forall>l \<in> set ls. ?label l))"
    then obtain ls where len: "length s \<le> 255" and ls: "ls \<noteq> []" "s = join CHR ''.'' ls"
      and labels: "\<forall>l \<in> set ls. ?label l" by blast
    have "\<not> (isAlphanumeric (of_char CHR ''.'') \<or> CHR ''.'' = CHR ''-'')"
      by (simp add: isAlphanumeric_def)
    with labels have "\<forall>l \<in> set ls. CHR ''.'' \<notin> set l" by blast
    with ls have "Split CHR ''.'' s = ls" by (simp add: Split_join)
    moreover from ls labels have "s \<noteq> []" by (simp add: join_nonempty)
    ultimately show "isValidHostname s"
      using len labels by (simp add: isValidHostname_def list_all_iff label)
  qed
qed

theorem isValidHostname_iff_witness: "isValidHostname ''mx-1.example.com''"
proof -
  have "\<exists>labels. labels \<noteq> [] \<and> ''mx-1.example.com'' = join CHR ''.'' labels \<and>
      (\<forall>l \<in> set labels. l \<noteq> [] \<and> length l \<le> 63 \<and> isAlphanumeric (of_char (hd l))
         \<and> isAlphanumeric (of_char (last l))
         \<and> (\<forall>c \<in> set l. isAlphanumeric (of_char c) \<or> c = CHR ''-''))"
    by (rule exI [of _ "[''mx-1'', ''example'', ''com'']"]) (simp add: isAlphanumeric_def)
  then show ?thesis by (simp only: isValidHostname_iff) simp
qed

text \<open>Dot-stuffing. A line of the data phase ends with its only line feed.\<close>

lemma trim_eol_line:
  assumes "CHR 0x0A \<notin> set body"
  shows "trim_eol (body @ [CHR 0x0A]) = (if HasSuffix body [CHR 0x0D] then butlast body else body)"
proof (cases "HasSuffix body [CHR 0x0D]")
  case True
  then obtain t where t: "body = t @ [CHR 0x0D]" by (auto simp: HasSuffix_iff)
  with assms have "trim_eol ((t @ [CHR 0x0D]) @ [CHR 0x0A]) = t"
    using trim_eol_CRLF [of t] by simp
  with True t show ?thesis by simp
next
  case False
  then have "TrimSuffix (body @ [CHR 0x0A]) [CHR 0x0D, CHR 0x0A] = body @ [CHR 0x0A]"
    by (auto simp: TrimSuffix_def HasSuffix_iff)
  with False show ?thesis by (auto simp: trim_eol_def)
qed

lemma IsTerminator_line:
  assumes "CHR 0x0A \<notin> set body"
  shows "IsTerminator (body @ [CHR 0x0A]) \<longleftrightarrow> body = ''.'' \<or> body = [CHR ''.'', CHR 0x0D]"
proof -
  have "IsTerminator (body @ [CHR 0x0A]) \<longleftrightarrow> trim_eol (body @ [CHR 0x0A]) = ''.''"
    by (auto simp: IsTerminator_def Let_def length_Suc_conv)
  also have "\<dots> \<longleftrightarrow> body = ''.'' \<or> body = [CHR ''.'', CHR 0x0D]"
    unfolding trim_eol_line [OF assms]
    by (auto simp: HasSuffix_iff split: if_splits)
  finally show ?thesis .
qed

text \<open>
  Dot-stuffing is transparent and unambiguous: for every line of message text (a body
  without line feed and the line feed that ends it) the receiver's unstuffing undoes the
  sender's stuffing, and no stuffed line is mistaken for the end-of-data terminator.
\<close>

theorem dot_stuffing_transparent:
  assumes "CHR 0x0A \<notin> set body"
  shows "UnstuffLine (StuffLine (body @ [CHR 0x0A])) = body @ [CHR 0x0A]
    \<and> \<not> IsTerminator (StuffLine (body @ [CHR 0x0A]))"
proof
  show "UnstuffLine (StuffLine (body @ [CHR 0x0A])) = body @ [CHR 0x0A]"
    by (simp add: UnstuffLine_def StuffLine_def)
  show "\<not> IsTerminator (StuffLine (body @ [CHR 0x0A]))"
  proof (cases "body \<noteq> [] \<and> hd body = CHR ''.''")
    case True
    then have "StuffLine (body @ [CHR 0x0A]) = (CHR ''.'' # body) @ [CHR 0x0A]"
      by (simp add: StuffLine_def)
    with True assms show ?thesis
      using IsTerminator_line [of "CHR ''.'' # body"] by auto
  next
    case False
    then have "StuffLine (body @ [CHR 0x0A]) = body @ [CHR 0x0A]"
      by (cases body) (simp_all add: StuffLine_def)
    with False assms show ?thesis using IsTerminator_line [of body] by auto
  qed
qed

theorem dot_stuffing_transparent_witness:
  "\<not> IsTerminator (StuffLine ([CHR ''.'', CHR 0x0D] @ [CHR 0x0A]))"
  using dot_stuffing_transparent [of "[CHR ''.'', CHR 0x0D]"] by simp

section \<open>Round trips\<close>

text \<open>A byte that upper-cases to a letter is solid and is not a space.\<close>

definition upper_letter :: "char \<Rightarrow> bool" where
  "upper_letter c \<longleftrightarrow> 65 \<le> (of_char c :: nat) \<and> of_char c \<le> (90 :: nat)"

lemma upper_letter_solid:
  assumes "upper_letter (upper_byte c)"
  shows "solid c" and "of_char c < (0x80 :: nat)" and "c \<noteq> CHR '' ''"
  using assms
  by (auto simp: upper_letter_def upper_byte_def solid_def IsSpace_def split: if_splits)

lemma verb_letters: "c \<noteq> CmdUnknown \<Longrightarrow> \<forall>x \<in> set (CommandVerb_String c). upper_letter x"
  by (cases c) (simp_all add: upper_letter_def)

lemma verb_word:
  assumes "c \<noteq> CmdUnknown" and "map upper_byte w = CommandVerb_String c"
  shows "w \<noteq> []" and "\<forall>x \<in> set w. solid x \<and> x \<noteq> CHR '' ''" and "ParseCommandVerb U w = c"
proof -
  show ne: "w \<noteq> []" using assms by (cases c) auto
  from assms verb_letters have letters: "\<forall>x \<in> set w. upper_letter (upper_byte x)"
    by (metis image_eqI list.set_map)
  then show solid: "\<forall>x \<in> set w. solid x \<and> x \<noteq> CHR '' ''" using upper_letter_solid by blast
  from letters have "ascii w" using upper_letter_solid by (auto simp: ascii_def)
  with ne solid assms show "ParseCommandVerb U w = c"
    by (simp add: ParseCommandVerb_iff TrimSpace_solid ToUpper_ascii)
qed

lemma solid_not_LF [simp]: "solid c \<Longrightarrow> c \<noteq> CHR 0x0A"
  by (auto simp: solid_def IsSpace_def)

lemma command_written:
  assumes known: "c \<noteq> CmdUnknown" and word: "map upper_byte w = CommandVerb_String c"
    and no_arg: "arg = [] \<Longrightarrow> \<not> CommandRequiresArgument c"
    and some_arg: "arg \<noteq> [] \<Longrightarrow>
      \<not> CommandForbidsArgument c \<and> solid (hd arg) \<and> solid (last arg)"
    and len: "maxLen \<le> 0 \<or> int (length w + length arg + 3) \<le> maxLen"
  shows "ParseCommand U maxLen
      ((if arg = [] then w else w @ '' '' @ arg) @ [CHR 0x0D, CHR 0x0A]) =
    Inr \<lparr>cmd_Verb = c, cmd_Raw = (if arg = [] then w else w @ '' '' @ arg), cmd_Argument = arg,
         cmd_Params = (if c = CmdMAIL \<or> c = CmdRCPT then parseESMTPParams U arg else None)\<rparr>"
proof -
  define line where "line = (if arg = [] then w else w @ '' '' @ arg)"
  note w = verb_word [OF known word]
  from w(2) have no_blank: "CHR '' '' \<notin> set w" by blast
  have split: "splitCommand line = (w, arg)"
    using no_blank by (simp add: splitCommand_def line_def)
  have ne: "line \<noteq> []" and "last line \<noteq> CHR 0x0A" using w(1,2) some_arg by (auto simp: line_def)
  then have eol: "trim_eol (line @ [CHR 0x0D, CHR 0x0A]) = line"
    unfolding trim_eol_CRLF by (simp add: TrimSuffix_def)
  have trimmed: "TrimSpace arg = arg" using some_arg by (cases "arg = []") (simp_all add: TrimSpace_solid)
  have short: "\<not> (maxLen > 0 \<and> maxLen < int (length (line @ [CHR 0x0D, CHR 0x0A])))"
    using len by (auto simp: line_def split: if_splits)
  show ?thesis
    unfolding line_def [symmetric] ParseCommand_def if_not_P [OF short] eol split Let_def
    using no_arg some_arg ne known by (cases "arg = []") (simp_all add: trimmed w(3))
qed

text \<open>
  (C29) A well-formed command line is parsed to exactly what was written: the verb in any
  mixture of upper and lower case, one space, the argument byte for byte, with CRLF at the
  end. The premises are the parser's own limits: the line is within \<open>MaxCommandLength\<close>, an
  argument is present where it is required and absent where it is forbidden, and it does not
  start or end with white space.
\<close>

theorem ParseCommand_round_trip:
  assumes known: "c \<noteq> CmdUnknown" and word: "map upper_byte w = CommandVerb_String c"
    and no_arg: "arg = [] \<Longrightarrow> \<not> CommandRequiresArgument c"
    and some_arg: "arg \<noteq> [] \<Longrightarrow>
      \<not> CommandForbidsArgument c \<and> solid (hd arg) \<and> solid (last arg)"
    and len: "maxLen \<le> 0 \<or> int (length w + length arg + 3) \<le> maxLen"
  shows "ParseCommand U maxLen
      ((if arg = [] then w else w @ '' '' @ arg) @ [CHR 0x0D, CHR 0x0A]) =
    Inr \<lparr>cmd_Verb = c, cmd_Raw = (if arg = [] then w else w @ '' '' @ arg), cmd_Argument = arg,
         cmd_Params = (if c = CmdMAIL \<or> c = CmdRCPT then parseESMTPParams U arg else None)\<rparr>"
  using assms by (rule command_written)

theorem ParseCommand_round_trip_witness:
  "ParseCommand \<lparr>uc_upper = id, uc_lower = id\<rparr> 512
     (''hElo'' @ '' '' @ ''client.example.com'' @ [CHR 0x0D, CHR 0x0A]) =
   Inr \<lparr>cmd_Verb = CmdHELO, cmd_Raw = ''hElo client.example.com'',
        cmd_Argument = ''client.example.com'', cmd_Params = None\<rparr>"
proof -
  have "map upper_byte ''hElo'' = CommandVerb_String CmdHELO" by code_simp
  then show ?thesis
    using ParseCommand_round_trip [of CmdHELO "''hElo''" "''client.example.com''" 512
        "\<lparr>uc_upper = id, uc_lower = id\<rparr>"]
    by (simp add: solid_def IsSpace_def)
qed

lemma blank_after_solid [simp]: "solid CHR ''<''" "solid CHR ''>''"
  by (simp_all add: solid_def IsSpace_def)

lemma extractPath_angle:
  assumes "CHR ''>'' \<notin> set inner" and "rest = [] \<or> solid (last rest)"
    and "inner = [] \<or> hd inner \<noteq> CHR ''@''"
  shows "extractPath (''<'' @ inner @ ''>'' @ rest) =
    (if inner = [] then Inr \<lparr>mp_Address = [], mp_SourceRoute = [], mp_IsNull = True\<rparr>
     else if isValidAddress inner
       then Inr \<lparr>mp_Address = inner, mp_SourceRoute = [], mp_IsNull = False\<rparr>
     else Inl (ParseError ErrInvalidAddress 0 ''invalid address format'' inner))"
proof -
  let ?s = "CHR ''<'' # inner @ CHR ''>'' # rest"
  have trim: "TrimSpace ?s = ?s" using assms(2) by (intro TrimSpace_solid) auto
  have idx: "index_of CHR ''>'' ?s = Some (Suc (length inner))" using assms(1) by simp
  show ?thesis
    using assms(3) by (auto simp: extractPath_def trim idx Let_def simp del: index_of.simps)
qed

lemma path_written:
  assumes kw: "kw = ''FROM'' \<or> kw = ''TO''" and word: "map upper_byte w = kw"
    and addr: "addr = [] \<or> isValidAddress addr \<and> CHR ''>'' \<notin> set addr \<and> hd addr \<noteq> CHR ''@''"
    and rest: "rest = [] \<or> solid (last rest)"
  shows "ParseMailPath U (w @ '':<'' @ addr @ ''>'' @ rest) kw =
    Inr \<lparr>mp_Address = addr, mp_SourceRoute = [], mp_IsNull = (addr = [])\<rparr>"
proof -
  let ?path = "CHR ''<'' # addr @ CHR ''>'' # rest"
  let ?arg = "w @ CHR '':'' # ?path"
  from kw word have "\<forall>x \<in> set w. upper_letter (upper_byte x)" and ne: "w \<noteq> []"
    by (auto simp: map_eq_Cons_conv upper_letter_def)
  then have "\<forall>x \<in> set w. solid x" and asc: "ascii w"
    using upper_letter_solid by (auto simp: ascii_def)
  with ne rest have trim: "TrimSpace ?arg = ?arg"
    by (intro TrimSpace_solid) (cases w; auto)+
  have trim': "TrimSpace ?path = ?path" using rest by (intro TrimSpace_solid) auto
  have "ToUpper U ?arg = kw @ CHR '':'' # ToUpper U ?path"
    using asc word by (simp add: ToUpper_ascii_append upper_byte_def)
  then have "HasPrefix (ToUpper U ?arg) (kw @ '':'')" by (auto simp: HasPrefix_iff)
  moreover have "drop (length kw + 1) ?arg = ?path"
    using word by auto
  ultimately show ?thesis
    using trim trim' extractPath_angle [of addr rest] addr rest
    by (auto simp: ParseMailPath_def Let_def)
qed

text \<open>
  (C30) A path written as \<open>FROM:<addr>\<close> or \<open>TO:<addr>\<close>, the keyword in any case and ESMTP
  parameters after it or not, is parsed to exactly that address when the address is valid, and
  \<open><>\<close> to the null path.
\<close>

theorem ParseMailPath_round_trip:
  assumes kw: "kw = ''FROM'' \<or> kw = ''TO''" and word: "map upper_byte w = kw"
    and addr: "addr = [] \<or> isValidAddress addr \<and> CHR ''>'' \<notin> set addr \<and> hd addr \<noteq> CHR ''@''"
    and rest: "rest = [] \<or> solid (last rest)"
  shows "ParseMailPath U (w @ '':<'' @ addr @ ''>'' @ rest) kw =
    Inr \<lparr>mp_Address = addr, mp_SourceRoute = [], mp_IsNull = (addr = [])\<rparr>"
  using assms by (rule path_written)

theorem ParseMailPath_round_trip_witness:
  "ParseMailPath \<lparr>uc_upper = id, uc_lower = id\<rparr> (''from'' @ '':<'' @ ''a.b@example.com'' @ ''>'' @ '' SIZE=10'') ''FROM'' =
    Inr \<lparr>mp_Address = ''a.b@example.com'', mp_SourceRoute = [], mp_IsNull = (''a.b@example.com'' = [])\<rparr>"
proof (rule ParseMailPath_round_trip)
  show "''a.b@example.com'' = [] \<or> isValidAddress ''a.b@example.com'' \<and> CHR ''>'' \<notin> set ''a.b@example.com''
      \<and> hd ''a.b@example.com'' \<noteq> CHR ''@''"
    by (simp add: isValidAddress_def domain_chars_ascii isValidDomainChar_def)
  show "map upper_byte ''from'' = ''FROM''" by code_simp
qed (simp_all add: solid_def IsSpace_def)

section \<open>Soundness\<close>

lemma extractPath_sound:
  assumes "extractPath s = Inr p"
  shows "if mp_IsNull p then mp_Address p = [] \<and> mp_SourceRoute p = []
      else isValidAddress (mp_Address p) \<and> CHR ''>'' \<notin> set (mp_Address p)"
    and "sublist (''<'' @ mp_SourceRoute p @ mp_Address p @ ''>'') s"
proof -
  define t where "t = TrimSpace s"
  from assms obtain i where lt: "t \<noteq> []" "hd t = CHR ''<''" and i: "index_of CHR ''>'' t = Some i"
    by (auto simp: extractPath_def Let_def t_def split: if_splits option.splits)
  define inner where "inner = take (i - 1) (drop 1 t)"
  from i lt have pos: "0 < i"
    by (cases i) (auto simp: index_of_Some hd_conv_nth)
  from lt obtain t' where t': "t = CHR ''<'' # t'" by (cases t) auto
  with index_of_split [OF i] pos obtain rest where whole: "t = ''<'' @ inner @ ''>'' @ rest"
    by (cases i) (auto simp: inner_def)
  from i pos t' have no_gt: "CHR ''>'' \<notin> set inner"
    by (cases i) (auto simp: index_of_Some inner_def)
  define route where "route =
    (if HasPrefix inner ''@'' then
       (case index_of CHR '':'' inner of None \<Rightarrow> ([], inner)
        | Some colonIdx \<Rightarrow> (take (colonIdx + 1) inner, drop (colonIdx + 1) inner))
     else ([], inner))"
  have parts: "fst route @ snd route = inner"
    by (auto simp: route_def split: option.split)
  from assms have res: "(if inner = [] then Inr \<lparr>mp_Address = [], mp_SourceRoute = [], mp_IsNull = True\<rparr>
      else if \<not> isValidAddress (snd route) then
        Inl (ParseError ErrInvalidAddress 0 ''invalid address format'' (snd route))
      else Inr \<lparr>mp_Address = snd route, mp_SourceRoute = fst route, mp_IsNull = False\<rparr>) = Inr p"
    unfolding extractPath_def Let_def t_def [symmetric] i option.case inner_def [symmetric]
      route_def [symmetric]
    using lt by (simp add: case_prod_beta split: if_splits)
  have set: "set (snd route) \<subseteq> set inner" using parts by (metis Un_upper2 set_append)
  show "if mp_IsNull p then mp_Address p = [] \<and> mp_SourceRoute p = []
      else isValidAddress (mp_Address p) \<and> CHR ''>'' \<notin> set (mp_Address p)"
    using res no_gt set by (auto split: if_splits)
  have "mp_SourceRoute p @ mp_Address p = inner"
    using res parts by (auto split: if_splits)
  with whole have "t = [] @ (''<'' @ mp_SourceRoute p @ mp_Address p @ ''>'') @ rest" by auto
  then have "sublist (''<'' @ mp_SourceRoute p @ mp_Address p @ ''>'') t"
    unfolding sublist_def by blast
  then show "sublist (''<'' @ mp_SourceRoute p @ mp_Address p @ ''>'') s"
    unfolding t_def using TrimSpace_sublist sublist_order.order.trans by blast
qed

text \<open>
  (C31) Whatever a client sends, a path that \<open>ParseMailPath\<close> returns is either the null path or
  has a valid address without \<open>>\<close>, and its source route and address stand next to each other
  between angle brackets in the argument: nothing is invented or reordered.
\<close>

theorem ParseMailPath_sound:
  assumes "ParseMailPath U arg kw = Inr p"
  shows "(if mp_IsNull p then mp_Address p = [] \<and> mp_SourceRoute p = []
      else isValidAddress (mp_Address p) \<and> CHR ''>'' \<notin> set (mp_Address p))
    \<and> (\<exists>pre post. arg = pre @ ''<'' @ mp_SourceRoute p @ mp_Address p @ ''>'' @ post)"
proof
  let ?tail = "drop (length kw + 1) (TrimSpace arg)"
  from assms have path: "extractPath (TrimSpace ?tail) = Inr p"
    by (auto simp: ParseMailPath_def Let_def split: if_splits)
  from path show "if mp_IsNull p then mp_Address p = [] \<and> mp_SourceRoute p = []
      else isValidAddress (mp_Address p) \<and> CHR ''>'' \<notin> set (mp_Address p)"
    by (rule extractPath_sound(1))
  from extractPath_sound(2) [OF path]
  have "sublist (''<'' @ mp_SourceRoute p @ mp_Address p @ ''>'') ?tail"
    using TrimSpace_sublist sublist_order.order.trans by blast
  then have "sublist (''<'' @ mp_SourceRoute p @ mp_Address p @ ''>'') arg"
    by (meson TrimSpace_sublist sublist_drop sublist_order.order.trans)
  then show "\<exists>pre post. arg = pre @ ''<'' @ mp_SourceRoute p @ mp_Address p @ ''>'' @ post"
    by (auto simp: sublist_def)
qed

theorem ParseMailPath_sound_witness:
  "\<exists>pre post. ''TO:<@relay:bob@example.com>'' = pre @ ''<'' @ ''@relay:'' @ ''bob@example.com'' @ ''>'' @ post"
proof -
  have "ParseMailPath \<lparr>uc_upper = id, uc_lower = id\<rparr> ''TO:<@relay:bob@example.com>'' ''TO'' =
      Inr \<lparr>mp_Address = ''bob@example.com'', mp_SourceRoute = ''@relay:'', mp_IsNull = False\<rparr>"
    by code_simp
  from ParseMailPath_sound [OF this] show ?thesis by simp
qed

text \<open>
  The slice \<open>arg[len(prefix)+1:]\<close> of \<open>ParseMailPath\<close>, taken from the argument after its
  upper-cased copy was tested for the prefix, is in range for every input and every Unicode
  case table: malformed UTF-8 and case mappings that change lengths cannot make it panic.
\<close>

theorem ParseMailPath_slice_in_range:
  assumes "HasPrefix (ToUpper U (TrimSpace arg)) (kw @ '':'')" and "ascii kw"
  shows "length kw + 1 \<le> length (TrimSpace arg)"
  using ToUpper_prefix_length [OF assms(1)] assms(2) by simp

theorem ParseMailPath_slice_in_range_witness:
  "length ''FROM'' + 1 \<le> length (TrimSpace ''from:<>'')"
proof (rule ParseMailPath_slice_in_range)
  show "HasPrefix (ToUpper \<lparr>uc_upper = id, uc_lower = id\<rparr> (TrimSpace ''from:<>'')) (''FROM'' @ '':'')"
    by code_simp
  show "ascii ''FROM''" by simp
qed

end
