(* ===== verification/Tls.thy ===== *)
theory Tls
  imports Protocol
begin

text \<open>
  TLS policies, configurations and providers of \<open>tls.go\<close> and \<open>tls_provider.go\<close>. The handshake
  itself belongs to \<open>crypto/tls\<close>; a \<open>tls.Config\<close> is the part of it this package sets. Loading
  a key pair from files (\<open>tls.LoadX509KeyPair\<close>) is a parameter \<open>load\<close> of the operations that
  call it, and a certificate is the list of its DER blocks.
\<close>

section \<open>Policies and connection states\<close>

datatype TLSPolicy = TLSDisabled | TLSOptional | TLSRequired | TLSImmediate | TLSPolicyOther int

fun TLSPolicy_String :: "TLSPolicy \<Rightarrow> string" where
  "TLSPolicy_String TLSDisabled = ''Disabled''"
| "TLSPolicy_String TLSOptional = ''Optional''"
| "TLSPolicy_String TLSRequired = ''Required''"
| "TLSPolicy_String TLSImmediate = ''Immediate''"
| "TLSPolicy_String (TLSPolicyOther _) = ''Unknown''"

type_synonym TLSVersionNumber = "16 word"
type_synonym TLSCipherSuiteID = "16 word"

definition TLSVersion10 :: TLSVersionNumber where
  "TLSVersion10 = 0x0301"

definition TLSVersion11 :: TLSVersionNumber where
  "TLSVersion11 = 0x0302"

definition TLSVersion12 :: TLSVersionNumber where
  "TLSVersion12 = 0x0303"

definition TLSVersion13 :: TLSVersionNumber where
  "TLSVersion13 = 0x0304"

record TLSClientHello =
  ch_ServerName :: string
  ch_SupportedVersions :: "TLSVersionNumber list"
  ch_CipherSuites :: "TLSCipherSuiteID list"

record TLSConnectionState =
  ts_Version :: TLSVersionNumber
  ts_CipherSuite :: TLSCipherSuiteID
  ts_ServerName :: string
  ts_PeerCertificates :: bool
  ts_VerifiedChains :: bool

definition VersionString :: "TLSConnectionState \<Rightarrow> string" where
  "VersionString s =
     (if ts_Version s = TLSVersion10 then ''TLS 1.0''
      else if ts_Version s = TLSVersion11 then ''TLS 1.1''
      else if ts_Version s = TLSVersion12 then ''TLS 1.2''
      else if ts_Version s = TLSVersion13 then ''TLS 1.3''
      else ''Unknown'')"

text \<open>\<open>tls.CipherSuiteName\<close> is the parameter \<open>name\<close>.\<close>

definition CipherSuiteString :: "(TLSCipherSuiteID \<Rightarrow> string) \<Rightarrow> TLSConnectionState \<Rightarrow> string" where
  "CipherSuiteString name s = name (ts_CipherSuite s)"

section \<open>Configurations\<close>

datatype Certificate = Certificate (der: "string list")

text \<open>The \<open>GetCertificate\<close> callback of a configuration: absent, or the method value
  \<open>p.GetCertificate\<close> of the SNI provider that made it, which reads that provider when it is
  called.\<close>

datatype CertificateCallback = NoCallback | SNICallback

record TLSConfig =
  tc_MinVersion :: TLSVersionNumber
  tc_CipherSuites :: "TLSCipherSuiteID list"
  tc_Certificates :: "Certificate list"
  tc_GetCertificate :: CertificateCallback

definition MinTLSVersion :: TLSVersionNumber where
  "MinTLSVersion = TLSVersion12"

text \<open>The identifiers of the six suites in \<open>crypto/tls\<close>: ECDHE with AES-256-GCM, AES-128-GCM and
  ChaCha20-Poly1305, each with ECDSA and RSA.\<close>

definition SecureCipherSuites :: "TLSCipherSuiteID list" where
  "SecureCipherSuites = [0xC02C, 0xC030, 0xC02B, 0xC02F, 0xCCA9, 0xCCA8]"

definition SecureTLSConfig :: TLSConfig where
  "SecureTLSConfig = \<lparr>tc_MinVersion = MinTLSVersion, tc_CipherSuites = SecureCipherSuites,
     tc_Certificates = [], tc_GetCertificate = NoCallback\<rparr>"

section \<open>Providers\<close>

type_synonym key_loader = "string \<Rightarrow> string \<Rightarrow> goerror + Certificate"

definition TLSErrorPhaseConfig :: string where
  "TLSErrorPhaseConfig = ''Config''"

definition TLSErrorPhaseHandshake :: string where
  "TLSErrorPhaseHandshake = ''Handshake''"

definition TLSErrorPhaseCertificate :: string where
  "TLSErrorPhaseCertificate = ''Certificate''"

subsection \<open>Static\<close>

record StaticTLSProvider =
  sp_config :: TLSConfig
  sp_policy :: TLSPolicy

definition NewStaticTLSProvider :: "TLSConfig \<Rightarrow> TLSPolicy \<Rightarrow> StaticTLSProvider" where
  "NewStaticTLSProvider config policy = \<lparr>sp_config = config, sp_policy = policy\<rparr>"

definition NewStaticTLSProviderFromCert :: "Certificate \<Rightarrow> TLSPolicy \<Rightarrow> StaticTLSProvider" where
  "NewStaticTLSProviderFromCert cert policy =
     NewStaticTLSProvider (SecureTLSConfig\<lparr>tc_Certificates := [cert]\<rparr>) policy"

definition NewStaticTLSProviderFromFiles ::
    "key_loader \<Rightarrow> string \<Rightarrow> string \<Rightarrow> TLSPolicy \<Rightarrow> goerror + StaticTLSProvider" where
  "NewStaticTLSProviderFromFiles load certFile keyFile policy =
     (case load certFile keyFile of
        Inl e \<Rightarrow> Inl (TLSError TLSErrorPhaseCertificate (Some e) ''failed to load certificate'')
      | Inr cert \<Rightarrow> Inr (NewStaticTLSProviderFromCert cert policy))"

definition Static_GetConfig :: "StaticTLSProvider \<Rightarrow> goerror + TLSConfig" where
  "Static_GetConfig p = Inr (sp_config p)"

definition Static_Policy :: "StaticTLSProvider \<Rightarrow> TLSPolicy" where
  "Static_Policy p = sp_policy p"

subsection \<open>Reloadable\<close>

record ReloadableTLSProvider =
  rp_certFile :: string
  rp_keyFile :: string
  rp_config :: "TLSConfig option"
  rp_policy :: TLSPolicy

definition Reload ::
    "key_loader \<Rightarrow> ReloadableTLSProvider \<Rightarrow> goerror option \<times> ReloadableTLSProvider" where
  "Reload load p =
     (case load (rp_certFile p) (rp_keyFile p) of
        Inl e \<Rightarrow> (Some (TLSError TLSErrorPhaseCertificate (Some e) ''failed to reload certificate''), p)
      | Inr cert \<Rightarrow> (None, p\<lparr>rp_config := Some (SecureTLSConfig\<lparr>tc_Certificates := [cert]\<rparr>)\<rparr>))"

definition NewReloadableTLSProvider ::
    "key_loader \<Rightarrow> string \<Rightarrow> string \<Rightarrow> TLSPolicy \<Rightarrow> goerror + ReloadableTLSProvider" where
  "NewReloadableTLSProvider load certFile keyFile policy =
     (case Reload load \<lparr>rp_certFile = certFile, rp_keyFile = keyFile, rp_config = None,
                         rp_policy = policy\<rparr> of
        (Some e, _) \<Rightarrow> Inl e
      | (None, p) \<Rightarrow> Inr p)"

definition Reloadable_GetConfig :: "ReloadableTLSProvider \<Rightarrow> TLSConfig option" where
  "Reloadable_GetConfig p = rp_config p"

definition Reloadable_Policy :: "ReloadableTLSProvider \<Rightarrow> TLSPolicy" where
  "Reloadable_Policy p = rp_policy p"

text \<open>A nil configuration would be dereferenced here; no constructed provider has one.\<close>

definition Reloadable_GetCertificate ::
    "ReloadableTLSProvider \<Rightarrow> go_panic + (goerror + Certificate)" where
  "Reloadable_GetCertificate p =
     (case rp_config p of
        None \<Rightarrow> Inl NilDereference
      | Some c \<Rightarrow>
          (case tc_Certificates c of
             cert # _ \<Rightarrow> Inr (Inr cert)
           | [] \<Rightarrow> Inr (Inl (TLSError TLSErrorPhaseCertificate None ''no certificate available''))))"

subsection \<open>Server Name Indication\<close>

record SNITLSProvider =
  np_certificates :: "string \<rightharpoonup> Certificate"
  np_defaultCert :: "Certificate option"
  np_policy :: TLSPolicy

definition NewSNITLSProvider :: "TLSPolicy \<Rightarrow> SNITLSProvider" where
  "NewSNITLSProvider policy =
     \<lparr>np_certificates = Map.empty, np_defaultCert = None, np_policy = policy\<rparr>"

definition AddCertificate :: "string \<Rightarrow> Certificate \<Rightarrow> SNITLSProvider \<Rightarrow> SNITLSProvider" where
  "AddCertificate serverName cert p =
     p\<lparr>np_certificates := (np_certificates p)(serverName \<mapsto> cert)\<rparr>"

definition AddCertificateFromFiles ::
    "key_loader \<Rightarrow> string \<Rightarrow> string \<Rightarrow> string \<Rightarrow> SNITLSProvider \<Rightarrow> goerror option \<times> SNITLSProvider" where
  "AddCertificateFromFiles load serverName certFile keyFile p =
     (case load certFile keyFile of
        Inl e \<Rightarrow> (Some (TLSError TLSErrorPhaseCertificate (Some e)
                     (''failed to load certificate for '' @ serverName)), p)
      | Inr cert \<Rightarrow> (None, AddCertificate serverName cert p))"

definition SetDefaultCertificate :: "Certificate \<Rightarrow> SNITLSProvider \<Rightarrow> SNITLSProvider" where
  "SetDefaultCertificate cert p = p\<lparr>np_defaultCert := Some cert\<rparr>"

definition SNI_GetConfig :: "SNITLSProvider \<Rightarrow> goerror + TLSConfig" where
  "SNI_GetConfig p = Inr (SecureTLSConfig\<lparr>tc_GetCertificate := SNICallback\<rparr>)"

definition SNI_Policy :: "SNITLSProvider \<Rightarrow> TLSPolicy" where
  "SNI_Policy p = np_policy p"

definition SNI_GetCertificate :: "SNITLSProvider \<Rightarrow> string \<Rightarrow> goerror + Certificate" where
  "SNI_GetCertificate p serverName =
     (case np_certificates p serverName of
        Some cert \<Rightarrow> Inr cert
      | None \<Rightarrow>
          (case np_defaultCert p of
             Some cert \<Rightarrow> Inr cert
           | None \<Rightarrow> Inl (TLSError TLSErrorPhaseCertificate None
                          (''no certificate for server name: '' @ serverName))))"

subsection \<open>None\<close>

definition NoTLS_GetConfig :: "goerror + TLSConfig" where
  "NoTLS_GetConfig = Inl (TLSError TLSErrorPhaseConfig None ''TLS is disabled'')"

definition NoTLS_Policy :: TLSPolicy where
  "NoTLS_Policy = TLSDisabled"

section \<open>Properties\<close>

definition secure_config :: "TLSConfig \<Rightarrow> bool" where
  "secure_config c \<longleftrightarrow> TLSVersion12 \<le> tc_MinVersion c \<and> set (tc_CipherSuites c) \<subseteq> set SecureCipherSuites"

lemma secure_SecureTLSConfig:
  "secure_config SecureTLSConfig"
  "secure_config (SecureTLSConfig\<lparr>tc_Certificates := cs\<rparr>)"
  "secure_config (SecureTLSConfig\<lparr>tc_GetCertificate := cb\<rparr>)"
  by (simp_all add: secure_config_def SecureTLSConfig_def MinTLSVersion_def)

text \<open>A reloadable provider that went through its constructor always has a configuration with
  exactly one certificate, and reloading keeps that.\<close>

definition reloadable_ok :: "ReloadableTLSProvider \<Rightarrow> bool" where
  "reloadable_ok p \<longleftrightarrow>
     (\<exists>c cert. rp_config p = Some c \<and> tc_Certificates c = [cert] \<and> secure_config c)"

lemma Reload_ok:
  assumes "reloadable_ok p \<or> fst (Reload load p) = None"
  shows "reloadable_ok (snd (Reload load p))"
  using assms secure_SecureTLSConfig(2)
  by (auto simp: Reload_def reloadable_ok_def split: sum.splits)

lemma NewReloadable_ok:
  assumes "NewReloadableTLSProvider load certFile keyFile policy = Inr p"
  shows "reloadable_ok p"
  using assms secure_SecureTLSConfig(2)
  by (auto simp: NewReloadableTLSProvider_def Reload_def reloadable_ok_def split: sum.splits)

definition reload_all :: "key_loader list \<Rightarrow> ReloadableTLSProvider \<Rightarrow> ReloadableTLSProvider" where
  "reload_all loads p = foldl (\<lambda>q load. snd (Reload load q)) p loads"

lemma reload_all_ok: "reloadable_ok p \<Longrightarrow> reloadable_ok (reload_all loads p)"
  unfolding reload_all_def
proof (induction loads arbitrary: p)
  case (Cons load loads)
  then show ?case by (simp add: Reload_ok)
qed simp

text \<open>
  A reloadable provider never loses its certificate: once constructed it serves a
  TLS 1.2-or-later configuration with a certificate after any sequence of reloads, failed ones
  included, and its certificate callback neither dereferences nil nor fails. A failed reload
  leaves it exactly as it was.
\<close>

theorem reloadable_keeps_serving:
  assumes "NewReloadableTLSProvider load certFile keyFile policy = Inr p"
  shows "(\<exists>c cert. Reloadable_GetConfig (reload_all loads p) = Some c \<and> secure_config c
      \<and> Reloadable_GetCertificate (reload_all loads p) = Inr (Inr cert))
    \<and> (fst (Reload load' q) \<noteq> None \<longrightarrow> snd (Reload load' q) = q)"
proof -
  have "reloadable_ok (reload_all loads p)" by (rule reload_all_ok [OF NewReloadable_ok [OF assms]])
  then have "\<exists>c cert. Reloadable_GetConfig (reload_all loads p) = Some c \<and> secure_config c
      \<and> Reloadable_GetCertificate (reload_all loads p) = Inr (Inr cert)"
    by (auto simp: reloadable_ok_def Reloadable_GetConfig_def Reloadable_GetCertificate_def)
  moreover have "fst (Reload load' q) \<noteq> None \<longrightarrow> snd (Reload load' q) = q"
    by (auto simp: Reload_def split: sum.split)
  ultimately show ?thesis ..
qed

theorem reloadable_keeps_serving_witness:
  "\<exists>c cert. Reloadable_GetConfig (reload_all [\<lambda>_ _. Inl (ErrNew ''no such file'')]
       (snd (Reload (\<lambda>_ _. Inr (Certificate [''x'']))
          \<lparr>rp_certFile = ''c'', rp_keyFile = ''k'', rp_config = None, rp_policy = TLSOptional\<rparr>))) = Some c
     \<and> secure_config c
     \<and> Reloadable_GetCertificate (reload_all [\<lambda>_ _. Inl (ErrNew ''no such file'')]
       (snd (Reload (\<lambda>_ _. Inr (Certificate [''x'']))
          \<lparr>rp_certFile = ''c'', rp_keyFile = ''k'', rp_config = None, rp_policy = TLSOptional\<rparr>)))
       = Inr (Inr cert)"
  by (rule reloadable_keeps_serving [THEN conjunct1, of "\<lambda>_ _. Inr (Certificate [''x''])" "''c''" "''k''" TLSOptional])
    (simp add: NewReloadableTLSProvider_def Reload_def)

text \<open>
  The SNI provider selects the certificate added last for the requested name, falls back
  to the default certificate for every other name, and fails only when there is none; adding a
  certificate for one name does not change the choice for another.
\<close>

theorem sni_selects:
  "SNI_GetCertificate (AddCertificate n cert p) m =
     (if m = n then Inr cert else SNI_GetCertificate p m)
   \<and> SNI_GetCertificate (SetDefaultCertificate d p) m =
     Inr (case np_certificates p m of Some c \<Rightarrow> c | None \<Rightarrow> d)
   \<and> ((\<exists>e. SNI_GetCertificate p m = Inl e) \<longleftrightarrow> np_certificates p m = None \<and> np_defaultCert p = None)"
  by (auto simp: SNI_GetCertificate_def AddCertificate_def SetDefaultCertificate_def split: option.split)

end
