(* ===== verification/Conn.thy ===== *)
theory Conn
  imports Tls
begin

text \<open>
  The connection layer of \<open>conn.go\<close>: \<open>NetConn\<close>, \<open>PipeConn\<close> and the buffered reader of
  \<open>BufferedConn\<close>, with the part of \<open>bufio.Reader\<close> it uses.

  What lies below (a socket, or the reader and writer of a test) is a \<open>Transport\<close>: the list of
  the results its future \<open>Read\<close> calls will return, each some bytes together with an error or
  none, then end of file for ever; the results its future \<open>Write\<close> calls will return, then
  success for ever; and what it has been given so far. Timeouts, resets and partial reads and
  writes are such results, so a statement about every transport covers every behaviour of the
  peer and of the network. The \<open>Runtime\<close> record holds the services of the Go runtime and of
  libraries outside the repository that the package calls; they thread an arbitrary state
  \<open>'w\<close> of the world.
\<close>

section \<open>Transports and the runtime\<close>

record Transport =
  tr_reads :: "(bytes \<times> goerror option) list"
  tr_writes :: "(nat \<times> goerror option) list"
  tr_sent :: bytes
  tr_rdeadline :: deadline
  tr_wdeadline :: deadline
  tr_closed :: bool

definition tr_Read :: "Transport \<Rightarrow> (bytes \<times> goerror option) \<times> Transport" where
  [conn_defs]: "tr_Read t =
     (case tr_reads t of
        [] \<Rightarrow> (([], Some EOF), t)
      | ev # evs \<Rightarrow> (ev, t\<lparr>tr_reads := evs\<rparr>))"

definition tr_Write :: "bytes \<Rightarrow> Transport \<Rightarrow> (nat \<times> goerror option) \<times> Transport" where
  [conn_defs]: "tr_Write p t =
     (case tr_writes t of
        [] \<Rightarrow> ((length p, None), t\<lparr>tr_sent := tr_sent t @ p\<rparr>)
      | (n, e) # ws \<Rightarrow>
          ((min n (length p), e), t\<lparr>tr_writes := ws, tr_sent := tr_sent t @ take n p\<rparr>))"

record 'w Runtime =
  rt_Unicode :: unicode
  rt_Now :: "'w \<Rightarrow> int \<times> 'w"
  rt_Rand :: "nat \<Rightarrow> 'w \<Rightarrow> bytes \<times> 'w"
  rt_CtxDone :: "'w \<Rightarrow> goerror option \<times> 'w"
  rt_CipherSuiteName :: "TLSCipherSuiteID \<Rightarrow> string"
  rt_Handshake :: "TLSConfig \<Rightarrow> Transport \<Rightarrow> (goerror + TLSConnectionState) \<times> Transport"

section \<open>Connections\<close>

record NetConn =
  nc_conn :: Transport
  nc_tlsState :: "TLSConnectionState option"

text \<open>The four flags of a \<open>PipeConn\<close> say which optional interfaces its reader and writer
  implement.\<close>

record PipeConn =
  pc_rw :: Transport
  pc_readDeadline :: deadline
  pc_closed :: bool
  pc_tlsUpgrader :: "(TLSConfig \<Rightarrow> goerror + Transport \<times> TLSConnectionState) option"
  pc_tlsState :: "TLSConnectionState option"
  pc_readerDeadline :: bool
  pc_writerDeadline :: bool
  pc_readerCloser :: bool
  pc_writerCloser :: bool

datatype Conn = Net NetConn | Pipe PipeConn

definition WrapNetConn :: "Transport \<Rightarrow> NetConn" where
  [conn_defs]: "WrapNetConn t = \<lparr>nc_conn = t, nc_tlsState = None\<rparr>"

definition WrapPipe :: "Transport \<Rightarrow> bool \<Rightarrow> bool \<Rightarrow> bool \<Rightarrow> bool \<Rightarrow> PipeConn" where
  [conn_defs]: "WrapPipe t rd wd rc wc =
     \<lparr>pc_rw = t, pc_readDeadline = None, pc_closed = False, pc_tlsUpgrader = None,
      pc_tlsState = None, pc_readerDeadline = rd, pc_writerDeadline = wd, pc_readerCloser = rc,
      pc_writerCloser = wc\<rparr>"

definition SetTLSUpgrader ::
    "(TLSConfig \<Rightarrow> goerror + Transport \<times> TLSConnectionState) option \<Rightarrow> PipeConn \<Rightarrow> PipeConn" where
  [conn_defs]: "SetTLSUpgrader fn c = c\<lparr>pc_tlsUpgrader := fn\<rparr>"

definition Net_Read :: "NetConn \<Rightarrow> (bytes \<times> goerror option) \<times> NetConn" where
  [conn_defs]: "Net_Read c = (case tr_Read (nc_conn c) of (res, t) \<Rightarrow> (res, c\<lparr>nc_conn := t\<rparr>))"

definition Pipe_Read ::
    "'w Runtime \<Rightarrow> PipeConn \<Rightarrow> 'w \<Rightarrow> ((bytes \<times> goerror option) \<times> PipeConn) \<times> 'w" where
  [conn_defs]: "Pipe_Read rt c w =
     (if pc_closed c then ((([], Some ErrClosedPipe), c), w)
      else
       (let (late, w') =
          (case pc_readDeadline c of
             None \<Rightarrow> (False, w)
           | Some d \<Rightarrow> (case rt_Now rt w of (now, w') \<Rightarrow> (now > d, w'))) in
        if late then ((([], Some ErrDeadlineExceeded), c), w')
        else (case tr_Read (pc_rw c) of (res, t) \<Rightarrow> ((res, c\<lparr>pc_rw := t\<rparr>), w'))))"

fun Conn_Read :: "'w Runtime \<Rightarrow> Conn \<Rightarrow> 'w \<Rightarrow> ((bytes \<times> goerror option) \<times> Conn) \<times> 'w" where
  "Conn_Read rt (Net c) w = (case Net_Read c of (res, c') \<Rightarrow> ((res, Net c'), w))"
| "Conn_Read rt (Pipe c) w = (case Pipe_Read rt c w of ((res, c'), w') \<Rightarrow> ((res, Pipe c'), w'))"

definition Net_Write :: "bytes \<Rightarrow> NetConn \<Rightarrow> (nat \<times> goerror option) \<times> NetConn" where
  [conn_defs]: "Net_Write p c = (case tr_Write p (nc_conn c) of (res, t) \<Rightarrow> (res, c\<lparr>nc_conn := t\<rparr>))"

definition Pipe_Write :: "bytes \<Rightarrow> PipeConn \<Rightarrow> (nat \<times> goerror option) \<times> PipeConn" where
  [conn_defs]: "Pipe_Write p c =
     (if pc_closed c then ((0, Some ErrClosedPipe), c)
      else (case tr_Write p (pc_rw c) of (res, t) \<Rightarrow> (res, c\<lparr>pc_rw := t\<rparr>)))"

fun Conn_Write :: "bytes \<Rightarrow> Conn \<Rightarrow> (nat \<times> goerror option) \<times> Conn" where
  "Conn_Write p (Net c) = (case Net_Write p c of (res, c') \<Rightarrow> (res, Net c'))"
| "Conn_Write p (Pipe c) = (case Pipe_Write p c of (res, c') \<Rightarrow> (res, Pipe c'))"

definition Pipe_Close :: "PipeConn \<Rightarrow> PipeConn" where
  [conn_defs]: "Pipe_Close c =
     c\<lparr>pc_closed := True,
       pc_rw := (pc_rw c)\<lparr>tr_closed :=
         (tr_closed (pc_rw c) \<or> pc_readerCloser c \<or> pc_writerCloser c)\<rparr>\<rparr>"

fun Conn_Close :: "Conn \<Rightarrow> Conn" where
  "Conn_Close (Net c) = Net (c\<lparr>nc_conn := (nc_conn c)\<lparr>tr_closed := True\<rparr>\<rparr>)"
| "Conn_Close (Pipe c) = Pipe (Pipe_Close c)"

definition Pipe_SetReadDeadline :: "deadline \<Rightarrow> PipeConn \<Rightarrow> PipeConn" where
  [conn_defs]: "Pipe_SetReadDeadline d c =
     (let c' = c\<lparr>pc_readDeadline := d\<rparr> in
      if pc_readerDeadline c then c'\<lparr>pc_rw := (pc_rw c)\<lparr>tr_rdeadline := d\<rparr>\<rparr> else c')"

definition Pipe_SetWriteDeadline :: "deadline \<Rightarrow> PipeConn \<Rightarrow> PipeConn" where
  [conn_defs]: "Pipe_SetWriteDeadline d c =
     (if pc_writerDeadline c then c\<lparr>pc_rw := (pc_rw c)\<lparr>tr_wdeadline := d\<rparr>\<rparr> else c)"

fun Conn_SetReadDeadline :: "deadline \<Rightarrow> Conn \<Rightarrow> Conn" where
  "Conn_SetReadDeadline d (Net c) = Net (c\<lparr>nc_conn := (nc_conn c)\<lparr>tr_rdeadline := d\<rparr>\<rparr>)"
| "Conn_SetReadDeadline d (Pipe c) = Pipe (Pipe_SetReadDeadline d c)"

fun Conn_SetWriteDeadline :: "deadline \<Rightarrow> Conn \<Rightarrow> Conn" where
  "Conn_SetWriteDeadline d (Net c) = Net (c\<lparr>nc_conn := (nc_conn c)\<lparr>tr_wdeadline := d\<rparr>\<rparr>)"
| "Conn_SetWriteDeadline d (Pipe c) = Pipe (Pipe_SetWriteDeadline d c)"

definition Net_UpgradeTLS ::
    "'w Runtime \<Rightarrow> TLSConfig \<Rightarrow> NetConn \<Rightarrow> (goerror + TLSConnectionState) \<times> NetConn" where
  [conn_defs]: "Net_UpgradeTLS rt config c =
     (case rt_Handshake rt config (nc_conn c) of
        (Inl e, t) \<Rightarrow>
          (Inl (TLSError TLSErrorPhaseHandshake (Some e) ''TLS handshake failed''), c\<lparr>nc_conn := t\<rparr>)
      | (Inr st, t) \<Rightarrow> (Inr st, c\<lparr>nc_conn := t, nc_tlsState := Some st\<rparr>))"

definition Pipe_UpgradeTLS ::
    "TLSConfig \<Rightarrow> PipeConn \<Rightarrow> (goerror + TLSConnectionState) \<times> PipeConn" where
  [conn_defs]: "Pipe_UpgradeTLS config c =
     (case pc_tlsUpgrader c of
        Some up \<Rightarrow>
          (case up config of
             Inl e \<Rightarrow> (Inl e, c)
           | Inr (t, st) \<Rightarrow> (Inr st, c\<lparr>pc_rw := t, pc_tlsState := Some st\<rparr>))
      | None \<Rightarrow>
          (Inl (TLSError TLSErrorPhaseHandshake None
             ''TLS upgrade not supported on pipe connection''), c))"

fun Conn_UpgradeTLS ::
    "'w Runtime \<Rightarrow> TLSConfig \<Rightarrow> Conn \<Rightarrow> (goerror + TLSConnectionState) \<times> Conn" where
  "Conn_UpgradeTLS rt config (Net c) =
     (case Net_UpgradeTLS rt config c of (res, c') \<Rightarrow> (res, Net c'))"
| "Conn_UpgradeTLS rt config (Pipe c) =
     (case Pipe_UpgradeTLS config c of (res, c') \<Rightarrow> (res, Pipe c'))"

definition Net_TLSConnectionState :: "NetConn \<Rightarrow> TLSConnectionState option" where
  [conn_defs]: "Net_TLSConnectionState c = nc_tlsState c"

definition Pipe_TLSConnectionState :: "PipeConn \<Rightarrow> TLSConnectionState option" where
  [conn_defs]: "Pipe_TLSConnectionState c = pc_tlsState c"

fun Conn_TLSConnectionState :: "Conn \<Rightarrow> TLSConnectionState option" where
  "Conn_TLSConnectionState (Net c) = Net_TLSConnectionState c"
| "Conn_TLSConnectionState (Pipe c) = Pipe_TLSConnectionState c"

section \<open>Buffered reading\<close>

text \<open>
  The \<open>bufio.Reader\<close>: buffered bytes and a pending error. \<open>fill\<close> reads from the connection
  until it gets bytes or an error, giving up after 100 empty reads; \<open>ReadBytes\<close> hands out
  everything up to the first line feed, or everything with the pending error. The 4096-byte
  buffer limit only splits long lines into fragments that \<open>ReadBytes\<close> joins again.
\<close>

record BufferedConn =
  bc_conn :: Conn
  bc_buf :: bytes
  bc_err :: "goerror option"

definition NewBufferedConn :: "Conn \<Rightarrow> BufferedConn" where
  [conn_defs]: "NewBufferedConn c = \<lparr>bc_conn = c, bc_buf = [], bc_err = None\<rparr>"

fun fill_loop :: "'w Runtime \<Rightarrow> nat \<Rightarrow> BufferedConn \<Rightarrow> 'w \<Rightarrow> BufferedConn \<times> 'w" where
  "fill_loop rt 0 b w = (b\<lparr>bc_err := Some ErrNoProgress\<rparr>, w)"
| "fill_loop rt (Suc n) b w =
     (case Conn_Read rt (bc_conn b) w of
        (((d, e), c), w') \<Rightarrow>
          (let b' = b\<lparr>bc_conn := c, bc_buf := bc_buf b @ d\<rparr> in
           case e of
             Some x \<Rightarrow> (b'\<lparr>bc_err := Some x\<rparr>, w')
           | None \<Rightarrow> if d \<noteq> [] then (b', w') else fill_loop rt n b' w'))"

definition fill :: "'w Runtime \<Rightarrow> BufferedConn \<Rightarrow> 'w \<Rightarrow> BufferedConn \<times> 'w" where
  "fill rt b w = fill_loop rt 100 b w"

fun conn_reads :: "Conn \<Rightarrow> (bytes \<times> goerror option) list" where
  "conn_reads (Net c) = tr_reads (nc_conn c)"
| "conn_reads (Pipe c) = tr_reads (pc_rw c)"

lemma Conn_Read_cases:
  assumes "Conn_Read rt c w = (((d, e), c'), w')"
  obtains (event) evs where "conn_reads c = (d, e) # evs" "conn_reads c' = evs"
  | (none) "d = []" "conn_reads c' = conn_reads c"
      "e = Some EOF \<or> e = Some ErrClosedPipe \<or> e = Some ErrDeadlineExceeded"
proof (cases c)
  case (Net n)
  with assms that show thesis
    by (auto simp: Net_Read_def tr_Read_def split: list.splits prod.splits)
next
  case (Pipe p)
  with assms that show thesis
    by (auto simp: Pipe_Read_def tr_Read_def Let_def
        split: if_splits list.splits prod.splits option.splits)
qed

lemma fill_loop_progress:
  assumes "fill_loop rt n b w = (b', w')"
  shows "bc_err b' \<noteq> None \<and> length (conn_reads (bc_conn b')) \<le> length (conn_reads (bc_conn b))
    \<or> bc_err b' = bc_err b \<and> length (conn_reads (bc_conn b')) < length (conn_reads (bc_conn b))"
  using assms
proof (induction n arbitrary: b w)
  case (Suc n)
  obtain d e c w1 where read: "Conn_Read rt (bc_conn b) w = (((d, e), c), w1)"
    by (metis prod.exhaust)
  let ?b = "b\<lparr>bc_conn := c, bc_buf := bc_buf b @ d\<rparr>"
  from read show ?case
  proof (cases rule: Conn_Read_cases)
    case (event evs)
    show ?thesis
    proof (cases "e = None \<and> d = []")
      case True
      with Suc.prems read have "fill_loop rt n ?b w1 = (b', w')" by simp
      from Suc.IH [OF this] event show ?thesis by auto
    next
      case False
      with Suc.prems read event show ?thesis by (cases e) (auto simp: Let_def)
    qed
  next
    case none
    with Suc.prems read show ?thesis by (auto simp: Let_def)
  qed
qed auto

function ReadBytes ::
    "'w Runtime \<Rightarrow> BufferedConn \<Rightarrow> 'w \<Rightarrow> ((bytes \<times> goerror option) \<times> BufferedConn) \<times> 'w" where
  "ReadBytes rt b w =
     (case index_of CHR 0x0A (bc_buf b) of
        Some i \<Rightarrow>
          (((take (i + 1) (bc_buf b), None), b\<lparr>bc_buf := drop (i + 1) (bc_buf b)\<rparr>), w)
      | None \<Rightarrow>
          (case bc_err b of
             Some e \<Rightarrow> (((bc_buf b, Some e), b\<lparr>bc_buf := [], bc_err := None\<rparr>), w)
           | None \<Rightarrow> ReadBytes rt (fst (fill rt b w)) (snd (fill rt b w))))"
  by pat_completeness auto
termination
proof (relation "measure (\<lambda>(rt, b, w). 2 * length (conn_reads (bc_conn b)) + (if bc_err b = None then 1 else 0))",
    goal_cases)
  case (2 rt b w)
  then show ?case
    using fill_loop_progress [of rt 100 b w "fst (fill rt b w)" "snd (fill rt b w)"]
    by (auto simp: fill_def case_prod_beta)
qed simp

declare ReadBytes.simps [simp del]

definition ReadLine ::
    "'w Runtime \<Rightarrow> duration \<Rightarrow> BufferedConn \<Rightarrow> 'w \<Rightarrow> ((bytes \<times> goerror option) \<times> BufferedConn) \<times> 'w" where
  [conn_defs]: "ReadLine rt timeout b w =
     (if timeout > 0 then
        (case rt_Now rt w of
           (now, w1) \<Rightarrow>
             (case ReadBytes rt (b\<lparr>bc_conn := Conn_SetReadDeadline (Some (now + timeout)) (bc_conn b)\<rparr>) w1 of
                ((res, b'), w') \<Rightarrow>
                  ((res, b'\<lparr>bc_conn := Conn_SetReadDeadline None (bc_conn b')\<rparr>), w')))
      else ReadBytes rt b w)"

definition ResetReader :: "BufferedConn \<Rightarrow> BufferedConn" where
  [conn_defs]: "ResetReader b = b\<lparr>bc_buf := [], bc_err := None\<rparr>"

section \<open>Framing\<close>

text \<open>Everything a connection can still deliver: the buffered bytes, then the bytes of the
  transport.\<close>

definition stream :: "BufferedConn \<Rightarrow> bytes" where
  "stream b = bc_buf b @ concat (map fst (conn_reads (bc_conn b)))"

text \<open>A size that strictly decreases whenever a line is delivered, and whenever an error is
  delivered that is not one of the three a read can produce without an event of the
  transport.\<close>

definition conn_size :: "BufferedConn \<Rightarrow> nat" where
  "conn_size b = length (bc_buf b)
     + sum_list (map (\<lambda>(d, e). length d + 1) (conn_reads (bc_conn b)))
     + (if bc_err b = None then 0 else 1)"

definition sticky :: "goerror \<Rightarrow> bool" where
  "sticky e \<longleftrightarrow> e = EOF \<or> e = ErrClosedPipe \<or> e = ErrDeadlineExceeded"

lemma conn_reads_SetReadDeadline [simp]: "conn_reads (Conn_SetReadDeadline d c) = conn_reads c"
  by (cases c) (simp_all add: Pipe_SetReadDeadline_def Let_def)

lemma conn_reads_SetWriteDeadline [simp]: "conn_reads (Conn_SetWriteDeadline d c) = conn_reads c"
  by (cases c) (simp_all add: Pipe_SetWriteDeadline_def)

lemma conn_reads_Write [simp]: "conn_reads (snd (Conn_Write p c)) = conn_reads c"
  by (cases c) (auto simp: Net_Write_def Pipe_Write_def tr_Write_def split: list.split prod.split)

lemma conn_reads_Close [simp]: "conn_reads (Conn_Close c) = conn_reads c"
  by (cases c) (simp_all add: Pipe_Close_def)

lemma stream_upd [simp]:
  "conn_reads c = conn_reads (bc_conn b) \<Longrightarrow> stream (b\<lparr>bc_conn := c\<rparr>) = stream b"
  by (simp add: stream_def)

lemma conn_size_upd [simp]:
  "conn_reads c = conn_reads (bc_conn b) \<Longrightarrow> conn_size (b\<lparr>bc_conn := c\<rparr>) = conn_size b"
  by (simp add: conn_size_def)

lemma fill_loop_stream:
  "fill_loop rt n b w = (b', w') \<Longrightarrow> stream b' = stream b"
proof (induction n arbitrary: b w)
  case (Suc n)
  obtain d e c w1 where read: "Conn_Read rt (bc_conn b) w = (((d, e), c), w1)"
    by (metis prod.exhaust)
  let ?b = "b\<lparr>bc_conn := c, bc_buf := bc_buf b @ d\<rparr>"
  have "stream ?b = stream b"
    using read by (cases rule: Conn_Read_cases) (simp_all add: stream_def)
  moreover have "stream b' = stream ?b"
    using Suc.prems Suc.IH [of ?b w1] read
    by (auto simp: stream_def Let_def split: option.splits if_splits)
  ultimately show ?case by simp
qed (auto simp: stream_def)

lemma fill_loop_size:
  assumes "fill_loop rt n b w = (b', w')" and "bc_err b = None"
  shows "(\<exists>e. bc_err b' = Some e \<and> sticky e \<and> bc_buf b' = bc_buf b \<and> conn_size b' \<le> conn_size b + 1)
    \<or> conn_size b' \<le> conn_size b + (if n = 0 then 1 else 0)"
  using assms
proof (induction n arbitrary: b w)
  case 0
  then show ?case by (auto simp: conn_size_def)
next
  case (Suc n)
  obtain d e c w1 where read: "Conn_Read rt (bc_conn b) w = (((d, e), c), w1)"
    by (metis prod.exhaust)
  let ?b = "b\<lparr>bc_conn := c, bc_buf := bc_buf b @ d\<rparr>"
  from read show ?case
  proof (cases rule: Conn_Read_cases)
    case (event evs)
    show ?thesis
    proof (cases "e = None \<and> d = []")
      case True
      with Suc.prems read have "fill_loop rt n ?b w1 = (b', w')" and "bc_err ?b = None" by simp_all
      moreover from True event have "conn_size b = Suc (conn_size ?b)" and "bc_buf ?b = bc_buf b"
        by (simp_all add: conn_size_def)
      ultimately show ?thesis using Suc.IH [of ?b w1] by (auto split: if_splits)
    next
      case False
      with Suc.prems read event show ?thesis by (cases e) (auto simp: Let_def conn_size_def)
    qed
  next
    case none
    with Suc.prems read show ?thesis by (auto simp: Let_def sticky_def conn_size_def)
  qed
qed

text \<open>The framing facts of one call: nothing is lost or reordered, a success is exactly one
  line, a failure hands out no complete line.\<close>

lemma ReadBytes_framing:
  assumes "ReadBytes rt b w = (((d, e), b'), w')"
  shows "stream b = d @ stream b'
    \<and> (e = None \<longrightarrow> (\<exists>body. d = body @ [CHR 0x0A] \<and> CHR 0x0A \<notin> set body))
    \<and> (e \<noteq> None \<longrightarrow> CHR 0x0A \<notin> set d)"
  using assms
proof (induction rt b w rule: ReadBytes.induct)
  case (1 rt b w)
  show ?case
  proof (cases "index_of CHR 0x0A (bc_buf b)")
    case (Some i)
    with "1.prems" have d: "d = take i (bc_buf b) @ [CHR 0x0A]" and "e = None"
      and b': "b' = b\<lparr>bc_buf := drop (Suc i) (bc_buf b)\<rparr>"
      by (auto simp: ReadBytes.simps [of rt b] index_of_Some take_Suc_conv_app_nth)
    have "bc_buf b = d @ drop (Suc i) (bc_buf b)" using index_of_split [OF Some] d by simp
    then have "stream b = d @ stream b'" by (simp add: stream_def b')
    moreover from Some have "CHR 0x0A \<notin> set (take i (bc_buf b))" by (simp add: index_of_Some)
    ultimately show ?thesis using d \<open>e = None\<close> by blast
  next
    case None
    show ?thesis
    proof (cases "bc_err b")
      case None': None
      from None None' "1.prems"
      have "ReadBytes rt (fst (fill rt b w)) (snd (fill rt b w)) = (((d, e), b'), w')"
        by (simp add: ReadBytes.simps [of rt b])
      moreover have "stream (fst (fill rt b w)) = stream b"
        using fill_loop_stream [of rt 100 b w] by (simp add: fill_def prod_eq_iff)
      ultimately show ?thesis using "1.IH" [OF None None'] by simp
    next
      case (Some x)
      with None "1.prems" show ?thesis by (auto simp: ReadBytes.simps [of rt b] stream_def)
    qed
  qed
qed

lemma ReadBytes_size_aux:
  assumes "ReadBytes rt b w = (((d, e), b'), w')"
  shows "(e = None \<longrightarrow> conn_size b' < conn_size b)
    \<and> (e \<noteq> None \<longrightarrow> conn_size b' < conn_size b
        \<or> (\<exists>x. e = Some x \<and> sticky x) \<and> conn_size b' \<le> conn_size b)"
  using assms
proof (induction rt b w rule: ReadBytes.induct)
  case (1 rt b w)
  show ?case
  proof (cases "index_of CHR 0x0A (bc_buf b)")
    case (Some i)
    with "1.prems" show ?thesis
      by (auto simp: ReadBytes.simps [of rt b] index_of_Some conn_size_def)
  next
    case None
    show ?thesis
    proof (cases "bc_err b")
      case None': None
      let ?f = "fst (fill rt b w)"
      from None None' "1.prems" have rec: "ReadBytes rt ?f (snd (fill rt b w)) = (((d, e), b'), w')"
        by (simp add: ReadBytes.simps [of rt b])
      from fill_loop_size [of rt 100 b w ?f "snd (fill rt b w)"] None'
      consider (sticky) x where "bc_err ?f = Some x" "sticky x" "bc_buf ?f = bc_buf b"
          "conn_size ?f \<le> conn_size b + 1"
        | (le) "conn_size ?f \<le> conn_size b"
        by (auto simp: fill_def)
      then show ?thesis
      proof cases
        case sticky
        from rec sticky None have "e = Some x" and "b' = ?f\<lparr>bc_buf := [], bc_err := None\<rparr>"
          by (auto simp: ReadBytes.simps [of rt ?f])
        with sticky show ?thesis by (auto simp: conn_size_def)
      next
        case le
        with "1.IH" [OF None None' rec] show ?thesis by auto
      qed
    next
      case (Some x)
      with None "1.prems" show ?thesis by (auto simp: ReadBytes.simps [of rt b] conn_size_def)
    qed
  qed
qed

lemmas ReadBytes_size = ReadBytes_size_aux [THEN conjunct1, THEN mp]
  and ReadBytes_error_size = ReadBytes_size_aux [THEN conjunct2, THEN mp]

subsection \<open>The contract of a line source\<close>

text \<open>What the engine relies on when it reads lines: a read delivers a prefix of what is
  pending; a success is one complete line, a failure contains no line feed. A client can then
  tell exactly which line it gets, whatever the sizes of the chunks the peer sent.\<close>

locale line_source =
  fixes read :: "'s \<Rightarrow> (bytes \<times> goerror option) \<times> 's"
    and pending :: "'s \<Rightarrow> bytes"
  assumes conserve: "read s = ((d, e), s') \<Longrightarrow> pending s = d @ pending s'"
    and line: "read s = ((d, None), s') \<Longrightarrow> \<exists>body. d = body @ [CHR 0x0A] \<and> CHR 0x0A \<notin> set body"
    and partial: "read s = ((d, Some x), s') \<Longrightarrow> CHR 0x0A \<notin> set d"
begin

lemma read_exact:
  assumes read: "read s = ((d, None), s')"
    and pending: "pending s = body @ CHR 0x0A # rest" and body: "CHR 0x0A \<notin> set body"
  shows "d = body @ [CHR 0x0A]" and "pending s' = rest"
proof -
  from line [OF read] obtain body' where d: "d = body' @ [CHR 0x0A]" "CHR 0x0A \<notin> set body'"
    by blast
  with conserve [OF read] pending have eq: "body' @ CHR 0x0A # pending s' = body @ CHR 0x0A # rest"
    by simp
  have take: "takeWhile (\<lambda>c. c \<noteq> CHR 0x0A) (xs @ CHR 0x0A # ys) = xs"
    if "CHR 0x0A \<notin> set xs" for xs ys
    using that by (induction xs) auto
  from eq have "takeWhile (\<lambda>c. c \<noteq> CHR 0x0A) (body' @ CHR 0x0A # pending s')
      = takeWhile (\<lambda>c. c \<noteq> CHR 0x0A) (body @ CHR 0x0A # rest)" by (simp only:)
  then have "body' = body" unfolding take [OF d(2)] take [OF body] .
  with d eq show "d = body @ [CHR 0x0A]" and "pending s' = rest" by auto
qed

lemma read_nonempty:
  assumes "read s = ((d, None), s')"
  shows "d \<noteq> []" and "CHR 0x0A \<in> set (pending s)"
  using line [OF assms] conserve [OF assms] by auto

lemma chunking_irrelevant:
  assumes "read s = ((d, None), s')" and "read t = ((d', None), t')" and "pending s = pending t"
  shows "d = d' \<and> pending s' = pending t'"
proof -
  from line [OF assms(1)] obtain body where d: "d = body @ [CHR 0x0A]" "CHR 0x0A \<notin> set body"
    by blast
  with conserve [OF assms(1)] assms(3) have "pending t = body @ CHR 0x0A # pending s'" by simp
  from read_exact [OF assms(2) this d(2)] d(1) show ?thesis by simp
qed

end

definition ReadBytes_step ::
    "'w Runtime \<Rightarrow> BufferedConn \<times> 'w \<Rightarrow> (bytes \<times> goerror option) \<times> BufferedConn \<times> 'w" where
  "ReadBytes_step rt = (\<lambda>(b, w). case ReadBytes rt b w of ((res, b'), w') \<Rightarrow> (res, b', w'))"

definition ReadLine_step ::
    "'w Runtime \<Rightarrow> duration \<Rightarrow> BufferedConn \<times> 'w \<Rightarrow> (bytes \<times> goerror option) \<times> BufferedConn \<times> 'w" where
  "ReadLine_step rt timeout =
     (\<lambda>(b, w). case ReadLine rt timeout b w of ((res, b'), w') \<Rightarrow> (res, b', w'))"

lemma ReadLine_ReadBytes:
  assumes "ReadLine rt timeout b w = ((res, b'), w')"
  obtains b1 w1 b2 where "ReadBytes rt b1 w1 = ((res, b2), w')"
    and "stream b1 = stream b" and "stream b2 = stream b'"
    and "conn_size b1 = conn_size b" and "conn_size b2 = conn_size b'"
proof (cases "timeout > 0")
  case True
  obtain now w1 where now: "rt_Now rt w = (now, w1)" by fastforce
  let ?b1 = "b\<lparr>bc_conn := Conn_SetReadDeadline (Some (now + timeout)) (bc_conn b)\<rparr>"
  obtain r b2 w2 where rb: "ReadBytes rt ?b1 w1 = ((r, b2), w2)" by (metis prod.exhaust)
  with True assms now have "r = res" "w2 = w'"
    and b': "b' = b2\<lparr>bc_conn := Conn_SetReadDeadline None (bc_conn b2)\<rparr>"
    by (auto simp: ReadLine_def)
  with rb that [of ?b1 w1 b2] show thesis by simp
next
  case False
  with assms that [of b w b'] show thesis by (simp add: ReadLine_def)
qed

interpretation bytes_source: line_source "ReadBytes_step rt" "\<lambda>(b, w). stream b" for rt
  by unfold_locales
    (auto simp: ReadBytes_step_def split: prod.splits dest!: ReadBytes_framing)

interpretation command_source: line_source "ReadLine_step rt timeout" "\<lambda>(b, w). stream b"
  for rt timeout
  by unfold_locales
    (auto simp: ReadLine_step_def split: prod.splits
      elim!: ReadLine_ReadBytes dest!: ReadBytes_framing)

lemma ReadLine_size:
  assumes "ReadLine rt timeout b w = (((d, e), b'), w')"
  shows "e = None \<Longrightarrow> conn_size b' < conn_size b"
    and "e \<noteq> None \<Longrightarrow> conn_size b' < conn_size b
      \<or> (\<exists>x. e = Some x \<and> sticky x) \<and> conn_size b' \<le> conn_size b"
  using assms
  by (auto elim!: ReadLine_ReadBytes dest: ReadBytes_size ReadBytes_error_size)

subsection \<open>Reliable connections\<close>

text \<open>A network connection on which no error is pending or to come.\<close>

definition clean :: "BufferedConn \<Rightarrow> bool" where
  "clean b \<longleftrightarrow> (\<exists>c. bc_conn b = Net c \<and> list_all (\<lambda>(d, e). d \<noteq> [] \<and> e = None) (tr_reads (nc_conn c)))
     \<and> bc_err b = None"

lemma clean_SetReadDeadline [simp]:
  "clean (b\<lparr>bc_conn := Conn_SetReadDeadline t (bc_conn b)\<rparr>) = clean b"
  by (cases "bc_conn b") (simp_all add: clean_def)

lemma fill_Suc: "fill rt b w = fill_loop rt (Suc 99) b w"
  by (simp add: fill_def)

lemma fill_clean:
  assumes "clean b" and "conn_reads (bc_conn b) \<noteq> []"
  shows "snd (fill rt b w) = w" and "clean (fst (fill rt b w))"
proof -
  from assms(1) obtain c where c: "bc_conn b = Net c" "bc_err b = None"
    and ok: "list_all (\<lambda>(d, e). d \<noteq> [] \<and> e = None) (tr_reads (nc_conn c))"
    unfolding clean_def by blast
  with assms(2) obtain d evs where evs: "tr_reads (nc_conn c) = (d, None) # evs" "d \<noteq> []"
    by (cases "tr_reads (nc_conn c)") auto
  have "fill rt b w = (b\<lparr>bc_conn := Net (c\<lparr>nc_conn := (nc_conn c)\<lparr>tr_reads := evs\<rparr>\<rparr>),
                     bc_buf := bc_buf b @ d\<rparr>, w)"
    unfolding fill_Suc fill_loop.simps(2) using c(1) evs by (simp add: Net_Read_def tr_Read_def)
  then show "snd (fill rt b w) = w" and "clean (fst (fill rt b w))"
    using c(2) ok evs by (auto simp: clean_def)
qed

lemma ReadBytes_clean:
  assumes "clean b" and "CHR 0x0A \<in> set (stream b)"
  shows "\<exists>d b'. ReadBytes rt b w = (((d, None), b'), w) \<and> clean b'"
  using assms
proof (induction rt b w rule: ReadBytes.induct)
  case (1 rt b w)
  show ?case
  proof (cases "index_of CHR 0x0A (bc_buf b)")
    case (Some i)
    with "1.prems"(1) show ?thesis by (simp add: ReadBytes.simps [of rt b] clean_def)
  next
    case None
    have noerr: "bc_err b = None" using "1.prems"(1) by (simp add: clean_def)
    have reads: "conn_reads (bc_conn b) \<noteq> []"
      using "1.prems"(2) None by (auto simp: stream_def)
    let ?f = "fst (fill rt b w)"
    have "stream ?f = stream b"
      using fill_loop_stream [of rt 100 b w] by (simp add: fill_def prod_eq_iff)
    with "1.IH" [OF None noerr] fill_clean [OF "1.prems"(1) reads, of rt w] "1.prems"(2)
    show ?thesis by (simp add: ReadBytes.simps [of rt b] None noerr)
  qed
qed

subsection \<open>Properties\<close>

text \<open>
  (C27) Command lines are framed by the byte stream alone. Whatever chunks the peer sends its
  bytes in, a read that succeeds returns exactly the bytes up to and including the first line
  feed still pending and leaves exactly the bytes after it, and a read that fails returns no
  line feed and loses nothing but what it returns.
\<close>

theorem ReadLine_framing:
  assumes "ReadLine rt timeout b w = (((d, e), b'), w')"
  shows "stream b = d @ stream b'
    \<and> (case e of
         None \<Rightarrow> (\<exists>body. d = body @ [CHR 0x0A] \<and> CHR 0x0A \<notin> set body)
       | Some x \<Rightarrow> CHR 0x0A \<notin> set d)"
proof -
  have step: "ReadLine_step rt timeout (b, w) = ((d, e), b', w')"
    using assms by (simp add: ReadLine_step_def)
  from command_source.conserve [OF this] have "stream b = d @ stream b'" by simp
  moreover have "case e of None \<Rightarrow> (\<exists>body. d = body @ [CHR 0x0A] \<and> CHR 0x0A \<notin> set body)
      | Some x \<Rightarrow> CHR 0x0A \<notin> set d"
    using step by (cases e) (auto dest: command_source.line command_source.partial)
  ultimately show ?thesis ..
qed

definition net_of :: "bytes list \<Rightarrow> Conn" where
  "net_of chunks = Net (WrapNetConn \<lparr>tr_reads = map (\<lambda>d. (d, None)) chunks, tr_writes = [],
     tr_sent = [], tr_rdeadline = None, tr_wdeadline = None, tr_closed = False\<rparr>)"

definition rt_const :: "unit Runtime" where
  "rt_const = \<lparr>rt_Unicode = \<lparr>uc_upper = id, uc_lower = id\<rparr>, rt_Now = (\<lambda>w. (0, w)),
     rt_Rand = (\<lambda>n w. (replicate n CHR 0x00, w)), rt_CtxDone = (\<lambda>w. (None, w)),
     rt_CipherSuiteName = (\<lambda>_. ''suite''),
     rt_Handshake = (\<lambda>cfg t. (Inl (ErrNew ''no TLS''), t))\<rparr>"

theorem ReadLine_framing_witness:
  "\<exists>b'. stream (NewBufferedConn (net_of [''NO'', ''OP'' @ [CHR 0x0A] @ ''QU'']))
        = (''NOOP'' @ [CHR 0x0A]) @ stream b'"
proof -
  let ?r = "ReadLine rt_const 5 (NewBufferedConn (net_of [''NO'', ''OP'' @ [CHR 0x0A] @ ''QU''])) ()"
  have "fst (fst ?r) = (''NOOP'' @ [CHR 0x0A], None)" by code_simp
  then have "?r = (((''NOOP'' @ [CHR 0x0A], None), snd (fst ?r)), snd ?r)" by (simp add: prod_eq_iff)
  from ReadLine_framing [OF this] show ?thesis by blast
qed

text \<open>
  On a connection without errors a pending line is always delivered: reading succeeds, and
  the connection stays usable.
\<close>

theorem ReadLine_delivers:
  assumes "clean b" and "stream b = body @ CHR 0x0A # rest" and "CHR 0x0A \<notin> set body"
  shows "\<exists>b' w'. ReadLine rt timeout b w = (((body @ [CHR 0x0A], None), b'), w')
    \<and> stream b' = rest \<and> clean b'"
proof -
  have "\<exists>d b' w'. ReadLine rt timeout b w = (((d, None), b'), w') \<and> clean b'"
  proof (cases "timeout > 0")
    case True
    obtain now w1 where now: "rt_Now rt w = (now, w1)" by fastforce
    let ?b = "b\<lparr>bc_conn := Conn_SetReadDeadline (Some (now + timeout)) (bc_conn b)\<rparr>"
    have "clean ?b" and "CHR 0x0A \<in> set (stream ?b)" using assms by simp_all
    from ReadBytes_clean [OF this, of rt w1]
    obtain d b' where "ReadBytes rt ?b w1 = (((d, None), b'), w1)" and "clean b'" by auto
    with True now show ?thesis by (simp add: ReadLine_def)
  next
    case False
    with assms ReadBytes_clean [of b rt w] show ?thesis by (auto simp: ReadLine_def)
  qed
  then obtain d b' w' where rd: "ReadLine rt timeout b w = (((d, None), b'), w')" "clean b'" by blast
  then have "ReadLine_step rt timeout (b, w) = ((d, None), b', w')" by (simp add: ReadLine_step_def)
  from command_source.read_exact [OF this, of body rest] assms rd show ?thesis by auto
qed

theorem ReadLine_delivers_witness:
  "\<exists>b' w'. ReadLine rt_const 5 (NewBufferedConn (net_of [''NOO'', ''P'' @ [CHR 0x0A]])) () =
      (((''NOOP'' @ [CHR 0x0A], None), b'), w') \<and> stream b' = [] \<and> clean b'"
proof -
  have "clean (NewBufferedConn (net_of [''NOO'', ''P'' @ [CHR 0x0A]]))"
    by (simp add: clean_def net_of_def NewBufferedConn_def WrapNetConn_def)
  moreover have "stream (NewBufferedConn (net_of [''NOO'', ''P'' @ [CHR 0x0A]])) = ''NOOP'' @ CHR 0x0A # []"
    by code_simp
  ultimately show ?thesis
    using ReadLine_delivers [of _ "''NOOP''" "[]" rt_const 5 "()"] by simp
qed

end
