(* ===== verification/Reply.thy ===== *)
theory Reply
  imports Protocol
begin

text \<open>
  Reply codes and responses of \<open>reply.go\<close>: the classification of codes, the formatting of a
  response on the wire, the constructors and the prebuilt responses. A reply code is a Go
  \<open>int\<close>; policies supplied by the user may return any value.
\<close>

section \<open>Reply codes\<close>

type_synonym ReplyCode = int

definition ReplyPositivePreliminary :: ReplyCode where
  "ReplyPositivePreliminary = 100"

definition ReplyPositiveCompletion :: ReplyCode where
  "ReplyPositiveCompletion = 200"

definition ReplyPositiveIntermediate :: ReplyCode where
  "ReplyPositiveIntermediate = 300"

definition ReplyTransientNegative :: ReplyCode where
  "ReplyTransientNegative = 400"

definition ReplyPermanentNegative :: ReplyCode where
  "ReplyPermanentNegative = 500"

abbreviation Reply211SystemStatus :: ReplyCode where
  "Reply211SystemStatus \<equiv> 211"

abbreviation Reply214HelpMessage :: ReplyCode where
  "Reply214HelpMessage \<equiv> 214"

abbreviation Reply220ServiceReady :: ReplyCode where
  "Reply220ServiceReady \<equiv> 220"

abbreviation Reply221ServiceClosing :: ReplyCode where
  "Reply221ServiceClosing \<equiv> 221"

abbreviation Reply250OK :: ReplyCode where
  "Reply250OK \<equiv> 250"

abbreviation Reply251UserNotLocal :: ReplyCode where
  "Reply251UserNotLocal \<equiv> 251"

abbreviation Reply252CannotVRFY :: ReplyCode where
  "Reply252CannotVRFY \<equiv> 252"

abbreviation Reply354StartMailInput :: ReplyCode where
  "Reply354StartMailInput \<equiv> 354"

abbreviation Reply421ServiceNotAvailable :: ReplyCode where
  "Reply421ServiceNotAvailable \<equiv> 421"

abbreviation Reply450MailboxUnavailable :: ReplyCode where
  "Reply450MailboxUnavailable \<equiv> 450"

abbreviation Reply451LocalError :: ReplyCode where
  "Reply451LocalError \<equiv> 451"

abbreviation Reply452InsufficientStorage :: ReplyCode where
  "Reply452InsufficientStorage \<equiv> 452"

abbreviation Reply454TLSNotAvailable :: ReplyCode where
  "Reply454TLSNotAvailable \<equiv> 454"

abbreviation Reply455ParamsNotAccommodated :: ReplyCode where
  "Reply455ParamsNotAccommodated \<equiv> 455"

abbreviation Reply500SyntaxError :: ReplyCode where
  "Reply500SyntaxError \<equiv> 500"

abbreviation Reply501SyntaxErrorParams :: ReplyCode where
  "Reply501SyntaxErrorParams \<equiv> 501"

abbreviation Reply502CommandNotImplemented :: ReplyCode where
  "Reply502CommandNotImplemented \<equiv> 502"

abbreviation Reply503BadSequence :: ReplyCode where
  "Reply503BadSequence \<equiv> 503"

abbreviation Reply504ParamNotImplemented :: ReplyCode where
  "Reply504ParamNotImplemented \<equiv> 504"

abbreviation Reply530AuthRequired :: ReplyCode where
  "Reply530AuthRequired \<equiv> 530"

abbreviation Reply550MailboxUnavailable :: ReplyCode where
  "Reply550MailboxUnavailable \<equiv> 550"

abbreviation Reply551UserNotLocal :: ReplyCode where
  "Reply551UserNotLocal \<equiv> 551"

abbreviation Reply552ExceededStorage :: ReplyCode where
  "Reply552ExceededStorage \<equiv> 552"

abbreviation Reply553MailboxNameInvalid :: ReplyCode where
  "Reply553MailboxNameInvalid \<equiv> 553"

abbreviation Reply554TransactionFailed :: ReplyCode where
  "Reply554TransactionFailed \<equiv> 554"

abbreviation Reply555ParamsNotRecognized :: ReplyCode where
  "Reply555ParamsNotRecognized \<equiv> 555"

definition IsPositive :: "ReplyCode \<Rightarrow> bool" where
  "IsPositive c \<longleftrightarrow> c \<ge> 200 \<and> c < 400"

definition IsNegative :: "ReplyCode \<Rightarrow> bool" where
  "IsNegative c \<longleftrightarrow> c \<ge> 400"

definition IsTransient :: "ReplyCode \<Rightarrow> bool" where
  "IsTransient c \<longleftrightarrow> c \<ge> 400 \<and> c < 500"

definition IsPermanent :: "ReplyCode \<Rightarrow> bool" where
  "IsPermanent c \<longleftrightarrow> c \<ge> 500"

text \<open>Go's integer division truncates toward zero.\<close>

definition go_div :: "int \<Rightarrow> int \<Rightarrow> int" where
  "go_div a b = sgn a * sgn b * (\<bar>a\<bar> div \<bar>b\<bar>)"

definition Category :: "ReplyCode \<Rightarrow> ReplyCode" where
  "Category c = go_div c 100 * 100"

text \<open>On codes of three digits the categories are the predicates.\<close>

lemma Category_classifies:
  assumes "100 \<le> c" and "c < 600"
  shows "IsPositive c \<longleftrightarrow> Category c = ReplyPositiveCompletion \<or> Category c = ReplyPositiveIntermediate"
    and "IsTransient c \<longleftrightarrow> Category c = ReplyTransientNegative"
    and "IsPermanent c \<longleftrightarrow> Category c = ReplyPermanentNegative"
    and "\<not> IsPositive c \<and> \<not> IsNegative c \<longleftrightarrow> Category c = ReplyPositivePreliminary"
  using assms
  by (auto simp: IsPositive_def IsNegative_def IsTransient_def IsPermanent_def Category_def go_div_def
      ReplyPositiveCompletion_def ReplyPositiveIntermediate_def ReplyTransientNegative_def
      ReplyPermanentNegative_def ReplyPositivePreliminary_def)

section \<open>Responses\<close>

type_synonym EnhancedStatusClass = int

type_synonym EnhancedStatusSubject = int

type_synonym EnhancedStatusDetail = int

definition EnhancedSuccess :: EnhancedStatusClass where
  "EnhancedSuccess = 2"

definition EnhancedPersistentTransient :: EnhancedStatusClass where
  "EnhancedPersistentTransient = 4"

definition EnhancedPermanent :: EnhancedStatusClass where
  "EnhancedPermanent = 5"

definition EnhancedSubjectOther :: EnhancedStatusSubject where
  "EnhancedSubjectOther = 0"

definition EnhancedSubjectAddressing :: EnhancedStatusSubject where
  "EnhancedSubjectAddressing = 1"

definition EnhancedSubjectMailbox :: EnhancedStatusSubject where
  "EnhancedSubjectMailbox = 2"

definition EnhancedSubjectMailSystem :: EnhancedStatusSubject where
  "EnhancedSubjectMailSystem = 3"

definition EnhancedSubjectNetwork :: EnhancedStatusSubject where
  "EnhancedSubjectNetwork = 4"

definition EnhancedSubjectDelivery :: EnhancedStatusSubject where
  "EnhancedSubjectDelivery = 5"

definition EnhancedSubjectContent :: EnhancedStatusSubject where
  "EnhancedSubjectContent = 6"

definition EnhancedSubjectPolicy :: EnhancedStatusSubject where
  "EnhancedSubjectPolicy = 7"

record EnhancedStatusCode =
  es_Class :: EnhancedStatusClass
  es_Subject :: EnhancedStatusSubject
  es_Detail :: EnhancedStatusDetail

definition EnhancedStatusCode_String :: "EnhancedStatusCode \<Rightarrow> bytes" where
  "EnhancedStatusCode_String e = itoa (es_Class e) @ ''.'' @ itoa (es_Subject e) @ ''.'' @ itoa (es_Detail e)"

record Response =
  r_Code :: ReplyCode
  r_EnhancedCode :: "EnhancedStatusCode option"
  r_Lines :: "string list"

definition CRLF :: bytes where
  "CRLF = [CHR 0x0D, CHR 0x0A]"

text \<open>One line of the loop: \<open>sep\<close> is a space on the last line and a hyphen on the others.\<close>

definition format_line :: "char \<Rightarrow> Response \<Rightarrow> string \<Rightarrow> bytes" where
  "format_line sep r line =
     (case r_EnhancedCode r of
        Some e \<Rightarrow> itoa (r_Code r) @ [sep] @ EnhancedStatusCode_String e @ '' '' @ line @ CRLF
      | None \<Rightarrow> itoa (r_Code r) @ [sep] @ line @ CRLF)"

fun format_lines :: "Response \<Rightarrow> string list \<Rightarrow> bytes" where
  "format_lines r [] = []"
| "format_lines r [line] = format_line CHR '' '' r line"
| "format_lines r (line # next # rest) = format_line CHR ''-'' r line @ format_lines r (next # rest)"

definition Response_String :: "Response \<Rightarrow> bytes" where
  "Response_String r =
     (if r_Lines r = [] then
        (case r_EnhancedCode r of
           Some e \<Rightarrow> itoa (r_Code r) @ '' '' @ EnhancedStatusCode_String e @ CRLF
         | None \<Rightarrow> itoa (r_Code r) @ CRLF)
      else format_lines r (r_Lines r))"

definition Response_Bytes :: "Response \<Rightarrow> bytes" where
  "Response_Bytes r = Response_String r"

definition NewResponse :: "ReplyCode \<Rightarrow> string \<Rightarrow> Response" where
  "NewResponse code text = \<lparr>r_Code = code, r_EnhancedCode = None, r_Lines = [text]\<rparr>"

definition NewEnhancedResponse :: "ReplyCode \<Rightarrow> EnhancedStatusCode \<Rightarrow> string \<Rightarrow> Response" where
  "NewEnhancedResponse code enhanced text =
     \<lparr>r_Code = code, r_EnhancedCode = Some enhanced, r_Lines = [text]\<rparr>"

definition NewMultilineResponse :: "ReplyCode \<Rightarrow> string list \<Rightarrow> Response" where
  "NewMultilineResponse code lines = \<lparr>r_Code = code, r_EnhancedCode = None, r_Lines = lines\<rparr>"

text \<open>The zero value \<open>Response{}\<close>.\<close>

definition zero_Response :: Response where
  "zero_Response = \<lparr>r_Code = 0, r_EnhancedCode = None, r_Lines = []\<rparr>"

definition ResponseServiceReady :: Response where
  "ResponseServiceReady = NewResponse Reply220ServiceReady ''Service ready''"

definition ResponseBye :: Response where
  "ResponseBye = NewResponse Reply221ServiceClosing ''Bye''"

definition ResponseOK :: Response where
  "ResponseOK = NewResponse Reply250OK ''OK''"

definition ResponseStartMailInput :: Response where
  "ResponseStartMailInput = NewResponse Reply354StartMailInput ''Start mail input; end with <CRLF>.<CRLF>''"

definition ResponseSyntaxError :: Response where
  "ResponseSyntaxError = NewResponse Reply500SyntaxError ''Syntax error, command unrecognized''"

definition ResponseSyntaxErrorParams :: Response where
  "ResponseSyntaxErrorParams = NewResponse Reply501SyntaxErrorParams ''Syntax error in parameters or arguments''"

definition ResponseCommandNotImplemented :: Response where
  "ResponseCommandNotImplemented = NewResponse Reply502CommandNotImplemented ''Command not implemented''"

definition ResponseBadSequence :: Response where
  "ResponseBadSequence = NewResponse Reply503BadSequence ''Bad sequence of commands''"

definition ResponseMailboxUnavailable :: Response where
  "ResponseMailboxUnavailable = NewResponse Reply550MailboxUnavailable ''Mailbox unavailable''"

definition ResponseTransactionFailed :: Response where
  "ResponseTransactionFailed = NewResponse Reply554TransactionFailed ''Transaction failed''"

text \<open>\<open>StateError\<close> of \<open>statemachine.go\<close>.\<close>

definition StateError :: "CommandVerb \<Rightarrow> State \<Rightarrow> Response" where
  "StateError c s = NewResponse Reply503BadSequence ''Bad sequence of commands''"

lemma r_Code_NewResponse [simp]: "r_Code (NewResponse c t) = c"
  by (simp add: NewResponse_def)

lemma r_Code_NewMultilineResponse [simp]: "r_Code (NewMultilineResponse c ls) = c"
  by (simp add: NewMultilineResponse_def)

lemma r_Code_zero_Response [simp]: "r_Code zero_Response = 0"
  by (simp add: zero_Response_def)

lemmas response_consts =
  ResponseServiceReady_def ResponseBye_def ResponseOK_def ResponseStartMailInput_def
  ResponseSyntaxError_def ResponseSyntaxErrorParams_def ResponseCommandNotImplemented_def
  ResponseBadSequence_def ResponseMailboxUnavailable_def ResponseTransactionFailed_def

section \<open>Classification\<close>

text \<open>
  The four predicates classify every reply code of the protocol by its first digit, which
  is what \<open>Category\<close> computes: 2yz and 3yz are positive, 4yz transient, 5yz permanent, negative
  is transient or permanent and excludes positive.
\<close>

theorem reply_code_classes:
  assumes "100 \<le> c" and "c < 600"
  shows "(IsPositive c \<longleftrightarrow> Category c \<in> {200, 300})
    \<and> (IsTransient c \<longleftrightarrow> Category c = 400)
    \<and> (IsPermanent c \<longleftrightarrow> Category c = 500)
    \<and> (IsNegative c \<longleftrightarrow> IsTransient c \<or> IsPermanent c)
    \<and> \<not> (IsPositive c \<and> IsNegative c)"
proof -
  have cat: "Category c = c div 100 * 100" using assms by (simp add: Category_def go_div_def)
  have ranges: "c div 100 = k \<longleftrightarrow> 100 * k \<le> c \<and> c < 100 * k + 100" for k by linarith
  have "IsPositive c \<longleftrightarrow> Category c \<in> {200, 300}"
    using ranges [of 2] ranges [of 3] by (auto simp: IsPositive_def cat)
  moreover have "IsTransient c \<longleftrightarrow> Category c = 400"
    using ranges [of 4] by (auto simp: IsTransient_def cat)
  moreover have "IsPermanent c \<longleftrightarrow> Category c = 500"
    using assms ranges [of 5] by (auto simp: IsPermanent_def cat)
  moreover have "(IsNegative c \<longleftrightarrow> IsTransient c \<or> IsPermanent c) \<and> \<not> (IsPositive c \<and> IsNegative c)"
    by (auto simp: IsPositive_def IsNegative_def IsTransient_def IsPermanent_def)
  ultimately show ?thesis by blast
qed

theorem reply_code_classes_witness: "IsTransient Reply451LocalError \<longleftrightarrow> Category 451 = 400"
  using reply_code_classes [of 451] by simp

section \<open>Framing\<close>

text \<open>A reader that takes the lines of a reply: up to and including each line feed.\<close>

fun take_line :: "bytes \<Rightarrow> bytes \<times> bytes" where
  "take_line [] = ([], [])"
| "take_line (c # s) =
     (if c = CHR 0x0A then ([c], s) else (case take_line s of (l, r) \<Rightarrow> (c # l, r)))"

lemma take_line_append [simp]:
  "CHR 0x0A \<notin> set s \<Longrightarrow> take_line (s @ CHR 0x0A # t) = (s @ [CHR 0x0A], t)"
  by (induction s) auto

lemma LF_not_in_digits [simp]: "CHR 0x0A \<notin> set (show_nat n)"
  using show_nat_digits [of n] by (auto simp: is_digit_def)

lemma LF_not_in_itoa [simp]: "CHR 0x0A \<notin> set (itoa n)"
  by (simp add: itoa_def)

lemma LF_not_in_enhanced [simp]: "CHR 0x0A \<notin> set (EnhancedStatusCode_String e)"
  by (simp add: EnhancedStatusCode_String_def)

lemma take_line_format:
  assumes "CHR 0x0A \<notin> set line" and "sep \<noteq> CHR 0x0A"
  shows "take_line (format_line sep r line @ rest) = (format_line sep r line, rest)"
proof -
  obtain p where p: "format_line sep r line = p @ [CHR 0x0A]" "CHR 0x0A \<notin> set p"
  proof
    show "format_line sep r line = butlast (format_line sep r line) @ [CHR 0x0A]"
      and "CHR 0x0A \<notin> set (butlast (format_line sep r line))"
      using assms by (auto simp: format_line_def CRLF_def butlast_append split: option.split)
  qed
  then show ?thesis by simp
qed

end
