(* ===== verification/Envelope.thy ===== *)
theory Envelope
  imports Conn Reply
begin

text \<open>
  Envelopes of \<open>envelope.go\<close> and the builder of \<open>envelope_builder.go\<close>.

  An envelope is the record of what its methods answer. The data writers a builder has handed
  out live in a store of the builder, the list \<open>b_writers\<close> of their \<open>closed\<close> flags in the order
  they were opened; a writer is its index. A writer that outlives a \<open>Reset\<close> therefore still
  writes into the builder's buffer, as in the code. \<open>Data\<close> of a finalized envelope is the
  content of the buffer when \<open>Finalize\<close> returns; the engine drops builder and writer then.

  A value of the interface \<open>EnvelopeBuilder\<close> is a standard builder or the state of a foreign
  one together with its methods.
\<close>

section \<open>Envelopes\<close>

record EnvelopeMetadata =
  md_SessionID :: string
  md_ClientHostname :: string
  md_ClientIP :: string
  md_ServerHostname :: string
  md_TLSActive :: bool
  md_TLSVersion :: string
  md_TLSCipherSuite :: string
  md_AuthenticatedUser :: string

record Envelope =
  env_id :: string
  env_mailFrom :: MailPath
  env_recipients :: "MailPath list"
  env_esmtpParams :: ESMTPParams
  env_receivedAt :: deadline
  env_data :: bytes
  env_finalized :: bool
  env_metadata :: EnvelopeMetadata

definition Envelope_ID :: "Envelope \<Rightarrow> string" where
  "Envelope_ID e = env_id e"

definition Envelope_MailFrom :: "Envelope \<Rightarrow> MailPath" where
  "Envelope_MailFrom e = env_mailFrom e"

definition Recipients :: "Envelope \<Rightarrow> MailPath list" where
  "Recipients e = env_recipients e"

definition RecipientCount :: "Envelope \<Rightarrow> int" where
  "RecipientCount e = int (length (env_recipients e))"

definition Envelope_ESMTPParams :: "Envelope \<Rightarrow> ESMTPParams" where
  "Envelope_ESMTPParams e = env_esmtpParams e"

definition DeclaredSize :: "Envelope \<Rightarrow> int" where
  "DeclaredSize e = (if env_esmtpParams e = None then 0 else 0)"

definition ReceivedAt :: "Envelope \<Rightarrow> deadline" where
  "ReceivedAt e = env_receivedAt e"

definition Data :: "Envelope \<Rightarrow> bytes" where
  "Data e = env_data e"

definition DataSize :: "Envelope \<Rightarrow> int" where
  "DataSize e = int (length (env_data e))"

definition IsFinalized :: "Envelope \<Rightarrow> bool" where
  "IsFinalized e = env_finalized e"

definition Envelope_Metadata :: "Envelope \<Rightarrow> EnvelopeMetadata" where
  "Envelope_Metadata e = env_metadata e"

datatype RecipientStatus = RecipientPending | RecipientAccepted | RecipientRejected | RecipientDeferred

record RecipientResult =
  rr_Path :: MailPath
  rr_Status :: RecipientStatus
  rr_Response :: Response

section \<open>The standard builder\<close>

record StandardEnvelopeBuilder =
  b_id :: string
  b_mailFrom :: "MailPath option"
  b_recipients :: "MailPath list"
  b_esmtpParams :: ESMTPParams
  b_receivedAt :: deadline
  b_data :: bytes
  b_dataWriter :: "nat option"
  b_finalized :: bool
  b_metadata :: EnvelopeMetadata
  b_writers :: "bool list"

definition generateEnvelopeID :: "'w Runtime \<Rightarrow> 'w \<Rightarrow> string \<times> 'w" where
  [builder_defs]: "generateEnvelopeID rt w =
     (case rt_Rand rt 12 w of (bs, w') \<Rightarrow> (hex_EncodeToString bs, w'))"

definition NewStandardEnvelopeBuilder ::
    "'w Runtime \<Rightarrow> EnvelopeMetadata \<Rightarrow> 'w \<Rightarrow> StandardEnvelopeBuilder \<times> 'w" where
  [builder_defs]: "NewStandardEnvelopeBuilder rt md w =
     (case generateEnvelopeID rt w of
        (i, w1) \<Rightarrow>
          (case rt_Now rt w1 of
             (now, w2) \<Rightarrow>
               (\<lparr>b_id = i, b_mailFrom = None, b_recipients = [], b_esmtpParams = None,
                 b_receivedAt = Some now, b_data = [], b_dataWriter = None, b_finalized = False,
                 b_metadata = md, b_writers = []\<rparr>, w2)))"

definition SetMailFrom ::
    "'w Runtime \<Rightarrow> MailPath \<Rightarrow> ESMTPParams \<Rightarrow> StandardEnvelopeBuilder \<Rightarrow> 'w
      \<Rightarrow> (goerror option \<times> StandardEnvelopeBuilder) \<times> 'w" where
  [builder_defs]: "SetMailFrom rt path params b w =
     (if b_finalized b then ((Some ErrEnvelopeFinalized, b), w)
      else
       (case rt_Now rt w of
          (now, w') \<Rightarrow>
            ((None, b\<lparr>b_mailFrom := Some path, b_esmtpParams := params, b_receivedAt := Some now\<rparr>), w')))"

definition AddRecipient ::
    "MailPath \<Rightarrow> StandardEnvelopeBuilder \<Rightarrow> goerror option \<times> StandardEnvelopeBuilder" where
  [builder_defs]: "AddRecipient path b =
     (if b_finalized b then (Some ErrEnvelopeFinalized, b)
      else (None, b\<lparr>b_recipients := b_recipients b @ [path]\<rparr>))"

definition DataWriter ::
    "StandardEnvelopeBuilder \<Rightarrow> (goerror + nat) \<times> StandardEnvelopeBuilder" where
  [builder_defs]: "DataWriter b =
     (if b_finalized b then (Inl ErrEnvelopeFinalized, b)
      else if b_dataWriter b \<noteq> None then (Inl (ErrNew ''data writer already open''), b)
      else (Inr (length (b_writers b)),
            b\<lparr>b_dataWriter := Some (length (b_writers b)), b_writers := b_writers b @ [False]\<rparr>))"

definition writer_Write ::
    "nat \<Rightarrow> bytes \<Rightarrow> StandardEnvelopeBuilder \<Rightarrow> (nat \<times> goerror option) \<times> StandardEnvelopeBuilder" where
  [builder_defs]: "writer_Write i p b =
     (if i < length (b_writers b) \<and> b_writers b ! i then ((0, Some (ErrNew ''writer closed'')), b)
      else ((length p, None), b\<lparr>b_data := b_data b @ p\<rparr>))"

definition writer_Close ::
    "nat \<Rightarrow> StandardEnvelopeBuilder \<Rightarrow> goerror option \<times> StandardEnvelopeBuilder" where
  [builder_defs]: "writer_Close i b = (None, b\<lparr>b_writers := (b_writers b)[i := True]\<rparr>)"

definition writer_open :: "StandardEnvelopeBuilder \<Rightarrow> bool" where
  [builder_defs]: "writer_open b =
     (case b_dataWriter b of
        None \<Rightarrow> False
      | Some i \<Rightarrow> \<not> (i < length (b_writers b) \<and> b_writers b ! i))"

definition Finalize ::
    "StandardEnvelopeBuilder \<Rightarrow> (goerror + Envelope) \<times> StandardEnvelopeBuilder" where
  [builder_defs]: "Finalize b =
     (if b_finalized b then (Inl ErrEnvelopeFinalized, b)
      else
       (case b_mailFrom b of
          None \<Rightarrow> (Inl ErrNoMailFrom, b)
        | Some sender \<Rightarrow>
            if length (b_recipients b) = 0 then (Inl ErrNoRecipients, b)
            else if writer_open b then (Inl ErrDataWriterOpen, b)
            else
             (Inr \<lparr>env_id = b_id b, env_mailFrom = sender, env_recipients = b_recipients b,
                   env_esmtpParams = b_esmtpParams b, env_receivedAt = b_receivedAt b,
                   env_data = b_data b, env_finalized = True, env_metadata = b_metadata b\<rparr>,
              b\<lparr>b_finalized := True\<rparr>)))"

definition Builder_Reset ::
    "'w Runtime \<Rightarrow> StandardEnvelopeBuilder \<Rightarrow> 'w \<Rightarrow> StandardEnvelopeBuilder \<times> 'w" where
  [builder_defs]: "Builder_Reset rt b w =
     (case generateEnvelopeID rt w of
        (i, w') \<Rightarrow>
          (b\<lparr>b_id := i, b_mailFrom := None, b_recipients := [], b_esmtpParams := None,
             b_receivedAt := None, b_data := [], b_dataWriter := None, b_finalized := False\<rparr>, w'))"

definition Build :: "StandardEnvelopeBuilder \<Rightarrow> Envelope" where
  [builder_defs]: "Build b =
     \<lparr>env_id = b_id b,
      env_mailFrom = (case b_mailFrom b of None \<Rightarrow> zero_MailPath | Some p \<Rightarrow> p),
      env_recipients = b_recipients b, env_esmtpParams = b_esmtpParams b,
      env_receivedAt = b_receivedAt b, env_data = b_data b, env_finalized = b_finalized b,
      env_metadata = b_metadata b\<rparr>"

section \<open>The builder interface\<close>

text \<open>The methods of a foreign implementation. Its data writer is part of its state.\<close>

record ('b, 'w) EnvelopeFactory =
  ef_NewBuilder :: "EnvelopeMetadata \<Rightarrow> 'w \<Rightarrow> 'b \<times> 'w"
  ef_SetMailFrom :: "MailPath \<Rightarrow> ESMTPParams \<Rightarrow> 'b \<Rightarrow> 'w \<Rightarrow> (goerror option \<times> 'b) \<times> 'w"
  ef_AddRecipient :: "MailPath \<Rightarrow> 'b \<Rightarrow> 'w \<Rightarrow> (goerror option \<times> 'b) \<times> 'w"
  ef_DataWriter :: "'b \<Rightarrow> 'w \<Rightarrow> (goerror option \<times> 'b) \<times> 'w"
  ef_Write :: "bytes \<Rightarrow> 'b \<Rightarrow> 'w \<Rightarrow> ((nat \<times> goerror option) \<times> 'b) \<times> 'w"
  ef_Close :: "'b \<Rightarrow> 'w \<Rightarrow> (goerror option \<times> 'b) \<times> 'w"
  ef_Finalize :: "'b \<Rightarrow> 'w \<Rightarrow> ((goerror + Envelope) \<times> 'b) \<times> 'w"
  ef_Reset :: "'b \<Rightarrow> 'w \<Rightarrow> 'b \<times> 'w"
  ef_Build :: "'b \<Rightarrow> 'w \<Rightarrow> Envelope"

datatype (dead 'b, dead 'w) EnvelopeBuilder =
  StdB StandardEnvelopeBuilder | CustomB "('b, 'w) EnvelopeFactory" 'b

text \<open>The factory call of \<open>handleMAIL\<close>: a configured factory, or the standard builder.\<close>

definition NewBuilder ::
    "'w Runtime \<Rightarrow> ('b, 'w) EnvelopeFactory option \<Rightarrow> EnvelopeMetadata \<Rightarrow> 'w
      \<Rightarrow> ('b, 'w) EnvelopeBuilder \<times> 'w" where
  [builder_defs]: "NewBuilder rt factory md w =
     (case factory of
        Some f \<Rightarrow> (case ef_NewBuilder f md w of (b, w') \<Rightarrow> (CustomB f b, w'))
      | None \<Rightarrow> (case NewStandardEnvelopeBuilder rt md w of (b, w') \<Rightarrow> (StdB b, w')))"

text \<open>The factory the package offers: configuring it is the same as configuring none.\<close>

definition StandardEnvelopeFactory_NewBuilder ::
    "'w Runtime \<Rightarrow> EnvelopeMetadata \<Rightarrow> 'w \<Rightarrow> ('b, 'w) EnvelopeBuilder \<times> 'w" where
  "StandardEnvelopeFactory_NewBuilder rt md w =
     (case NewStandardEnvelopeBuilder rt md w of (b, w') \<Rightarrow> (StdB b, w'))"

lemma standard_factory_default: "StandardEnvelopeFactory_NewBuilder rt = NewBuilder rt None"
  by (simp add: fun_eq_iff StandardEnvelopeFactory_NewBuilder_def NewBuilder_def)

fun eb_SetMailFrom ::
    "'w Runtime \<Rightarrow> MailPath \<Rightarrow> ESMTPParams \<Rightarrow> ('b, 'w) EnvelopeBuilder \<Rightarrow> 'w
      \<Rightarrow> (goerror option \<times> ('b, 'w) EnvelopeBuilder) \<times> 'w" where
  "eb_SetMailFrom rt path params (StdB b) w =
     (case SetMailFrom rt path params b w of ((e, b'), w') \<Rightarrow> ((e, StdB b'), w'))"
| "eb_SetMailFrom rt path params (CustomB f b) w =
     (case ef_SetMailFrom f path params b w of ((e, b'), w') \<Rightarrow> ((e, CustomB f b'), w'))"

fun eb_AddRecipient ::
    "MailPath \<Rightarrow> ('b, 'w) EnvelopeBuilder \<Rightarrow> 'w
      \<Rightarrow> (goerror option \<times> ('b, 'w) EnvelopeBuilder) \<times> 'w" where
  "eb_AddRecipient path (StdB b) w = (case AddRecipient path b of (e, b') \<Rightarrow> ((e, StdB b'), w))"
| "eb_AddRecipient path (CustomB f b) w =
     (case ef_AddRecipient f path b w of ((e, b'), w') \<Rightarrow> ((e, CustomB f b'), w'))"

fun eb_DataWriter ::
    "('b, 'w) EnvelopeBuilder \<Rightarrow> 'w \<Rightarrow> ((goerror + nat) \<times> ('b, 'w) EnvelopeBuilder) \<times> 'w" where
  "eb_DataWriter (StdB b) w = (case DataWriter b of (res, b') \<Rightarrow> ((res, StdB b'), w))"
| "eb_DataWriter (CustomB f b) w =
     (case ef_DataWriter f b w of
        ((None, b'), w') \<Rightarrow> ((Inr 0, CustomB f b'), w')
      | ((Some e, b'), w') \<Rightarrow> ((Inl e, CustomB f b'), w'))"

fun eb_Write ::
    "nat \<Rightarrow> bytes \<Rightarrow> ('b, 'w) EnvelopeBuilder \<Rightarrow> 'w
      \<Rightarrow> ((nat \<times> goerror option) \<times> ('b, 'w) EnvelopeBuilder) \<times> 'w" where
  "eb_Write i p (StdB b) w = (case writer_Write i p b of (res, b') \<Rightarrow> ((res, StdB b'), w))"
| "eb_Write i p (CustomB f b) w = (case ef_Write f p b w of ((res, b'), w') \<Rightarrow> ((res, CustomB f b'), w'))"

fun eb_Close ::
    "nat \<Rightarrow> ('b, 'w) EnvelopeBuilder \<Rightarrow> 'w \<Rightarrow> (goerror option \<times> ('b, 'w) EnvelopeBuilder) \<times> 'w" where
  "eb_Close i (StdB b) w = (case writer_Close i b of (e, b') \<Rightarrow> ((e, StdB b'), w))"
| "eb_Close i (CustomB f b) w = (case ef_Close f b w of ((e, b'), w') \<Rightarrow> ((e, CustomB f b'), w'))"

fun eb_Finalize ::
    "('b, 'w) EnvelopeBuilder \<Rightarrow> 'w \<Rightarrow> ((goerror + Envelope) \<times> ('b, 'w) EnvelopeBuilder) \<times> 'w" where
  "eb_Finalize (StdB b) w = (case Finalize b of (res, b') \<Rightarrow> ((res, StdB b'), w))"
| "eb_Finalize (CustomB f b) w = (case ef_Finalize f b w of ((res, b'), w') \<Rightarrow> ((res, CustomB f b'), w'))"

fun eb_Reset ::
    "'w Runtime \<Rightarrow> ('b, 'w) EnvelopeBuilder \<Rightarrow> 'w \<Rightarrow> ('b, 'w) EnvelopeBuilder \<times> 'w" where
  "eb_Reset rt (StdB b) w = (case Builder_Reset rt b w of (b', w') \<Rightarrow> (StdB b', w'))"
| "eb_Reset rt (CustomB f b) w = (case ef_Reset f b w of (b', w') \<Rightarrow> (CustomB f b', w'))"

fun eb_Build :: "('b, 'w) EnvelopeBuilder \<Rightarrow> 'w \<Rightarrow> Envelope" where
  "eb_Build (StdB b) w = Build b"
| "eb_Build (CustomB f b) w = ef_Build f b w"

section \<open>The contract of a builder\<close>

text \<open>What the engine relies on during a transaction: a successful call does what its name
  says and nothing else, a failed one changes nothing, and a finalized envelope carries the
  sender, the recipients and the content collected so far.\<close>

fun write_all :: "(bytes \<Rightarrow> 'b \<Rightarrow> (nat \<times> goerror option) \<times> 'b) \<Rightarrow> bytes list \<Rightarrow> 'b \<Rightarrow> goerror option \<times> 'b" where
  "write_all wr [] b = (None, b)"
| "write_all wr (p # ps) b =
     (case wr p b of
        ((n, Some e), b') \<Rightarrow> (Some e, b')
      | ((n, None), b') \<Rightarrow> write_all wr ps b')"

fun add_all :: "(MailPath \<Rightarrow> 'b \<Rightarrow> goerror option \<times> 'b) \<Rightarrow> MailPath list \<Rightarrow> 'b \<Rightarrow> goerror option \<times> 'b" where
  "add_all ad [] b = (None, b)"
| "add_all ad (p # ps) b =
     (case ad p b of
        (Some e, b') \<Rightarrow> (Some e, b')
      | (None, b') \<Rightarrow> add_all ad ps b')"

locale envelope_builder =
  fixes sender :: "'b \<Rightarrow> MailPath option"
    and recipients :: "'b \<Rightarrow> MailPath list"
    and content :: "'b \<Rightarrow> bytes"
    and add :: "MailPath \<Rightarrow> 'b \<Rightarrow> goerror option \<times> 'b"
    and writer_write :: "nat \<Rightarrow> bytes \<Rightarrow> 'b \<Rightarrow> (nat \<times> goerror option) \<times> 'b"
    and writer_close :: "nat \<Rightarrow> 'b \<Rightarrow> goerror option \<times> 'b"
    and finalize :: "'b \<Rightarrow> (goerror + Envelope) \<times> 'b"
  assumes add_ok: "add p b = (None, b') \<Longrightarrow>
      sender b' = sender b \<and> recipients b' = recipients b @ [p] \<and> content b' = content b"
    and add_fail: "add p b = (Some e, b') \<Longrightarrow> b' = b"
    and write_ok: "writer_write i t b = ((n, None), b') \<Longrightarrow>
      n = length t \<and> sender b' = sender b \<and> recipients b' = recipients b \<and> content b' = content b @ t"
    and write_fail: "writer_write i t b = ((n, Some e), b') \<Longrightarrow> b' = b \<and> n = 0"
    and close_keeps: "writer_close i b = (r, b') \<Longrightarrow>
      sender b' = sender b \<and> recipients b' = recipients b \<and> content b' = content b"
    and finalize_ok: "finalize b = (Inr env, b') \<Longrightarrow>
      sender b = Some (env_mailFrom env) \<and> env_recipients env = recipients b \<and> recipients b \<noteq> []
      \<and> env_data env = content b \<and> env_finalized env"
    and finalize_fail: "finalize b = (Inl e, b') \<Longrightarrow> b' = b"
begin

lemma write_all_content:
  "write_all (writer_write i) ts b = (None, b') \<Longrightarrow>
     sender b' = sender b \<and> recipients b' = recipients b \<and> content b' = content b @ concat ts"
proof (induction ts arbitrary: b)
  case (Cons t ts)
  then obtain n b1 where wr: "writer_write i t b = ((n, None), b1)"
    and rest: "write_all (writer_write i) ts b1 = (None, b')"
    by (auto split: prod.splits option.splits)
  from write_ok [OF wr] Cons.IH [OF rest] show ?case by simp
qed simp

lemma add_all_recipients:
  "add_all add ps b = (None, b') \<Longrightarrow>
     sender b' = sender b \<and> recipients b' = recipients b @ ps \<and> content b' = content b"
proof (induction ps arbitrary: b)
  case (Cons p ps)
  then obtain b1 where ad: "add p b = (None, b1)" and rest: "add_all add ps b1 = (None, b')"
    by (auto split: prod.splits option.splits)
  from add_ok [OF ad] Cons.IH [OF rest] show ?case by simp
qed simp

text \<open>Whoever drives the builder through recipients, data, close and finalize gets an envelope
  with exactly these recipients and this data.\<close>

lemma transaction:
  assumes "add_all add ps b = (None, b1)" and "recipients b = []" and "content b = []"
    and "sender o1 = sender b1" "recipients o1 = recipients b1" "content o1 = content b1"
    and "write_all (writer_write i) ts o1 = (None, b2)"
    and "writer_close i b2 = (r, b3)" and "finalize b3 = (Inr env, b4)"
  shows "sender b = Some (env_mailFrom env)" and "env_recipients env = ps"
    and "env_data env = concat ts"
  using add_all_recipients [OF assms(1)] write_all_content [OF assms(7)] close_keeps [OF assms(8)]
    finalize_ok [OF assms(9)] assms(2-6) by simp_all

end

interpretation std_builder: envelope_builder b_mailFrom b_recipients b_data AddRecipient writer_Write
  writer_Close Finalize
  by unfold_locales
    (auto simp: AddRecipient_def writer_Write_def writer_Close_def Finalize_def
      split: if_splits option.splits)

section \<open>Refinement of an abstract draft\<close>

text \<open>The contract in one picture: a draft collects a sender, recipients and text, and passes
  through the phases composing, writing, written and sealed.\<close>

datatype phase = Composing | Writing | Written | Sealed

record draft =
  d_sender :: "MailPath option"
  d_rcpts :: "MailPath list"
  d_text :: bytes
  d_phase :: phase

definition draft_sender :: "MailPath \<Rightarrow> draft \<Rightarrow> goerror option \<times> draft" where
  "draft_sender p d =
     (if d_phase d = Sealed then (Some ErrEnvelopeFinalized, d) else (None, d\<lparr>d_sender := Some p\<rparr>))"

definition draft_add :: "MailPath \<Rightarrow> draft \<Rightarrow> goerror option \<times> draft" where
  "draft_add p d =
     (if d_phase d = Sealed then (Some ErrEnvelopeFinalized, d)
      else (None, d\<lparr>d_rcpts := d_rcpts d @ [p]\<rparr>))"

definition draft_open :: "draft \<Rightarrow> goerror option \<times> draft" where
  "draft_open d =
     (case d_phase d of
        Composing \<Rightarrow> (None, d\<lparr>d_phase := Writing\<rparr>)
      | Sealed \<Rightarrow> (Some ErrEnvelopeFinalized, d)
      | _ \<Rightarrow> (Some (ErrNew ''data writer already open''), d))"

definition draft_write :: "bytes \<Rightarrow> draft \<Rightarrow> goerror option \<times> draft" where
  "draft_write t d =
     (if d_phase d = Writing then (None, d\<lparr>d_text := d_text d @ t\<rparr>)
      else (Some (ErrNew ''writer closed''), d))"

definition draft_close :: "draft \<Rightarrow> draft" where
  "draft_close d = (if d_phase d = Writing then d\<lparr>d_phase := Written\<rparr> else d)"

definition draft_seal :: "draft \<Rightarrow> goerror option \<times> draft" where
  "draft_seal d =
     (if d_phase d = Sealed then (Some ErrEnvelopeFinalized, d)
      else if d_sender d = None then (Some ErrNoMailFrom, d)
      else if d_rcpts d = [] then (Some ErrNoRecipients, d)
      else if d_phase d = Writing then (Some ErrDataWriterOpen, d)
      else (None, d\<lparr>d_phase := Sealed\<rparr>))"

definition draft_empty :: draft where
  "draft_empty = \<lparr>d_sender = None, d_rcpts = [], d_text = [], d_phase = Composing\<rparr>"

definition abs_builder :: "StandardEnvelopeBuilder \<Rightarrow> draft" where
  "abs_builder b =
     \<lparr>d_sender = b_mailFrom b, d_rcpts = b_recipients b, d_text = b_data b,
      d_phase =
        (if b_finalized b then Sealed
         else (case b_dataWriter b of None \<Rightarrow> Composing
               | Some i \<Rightarrow> if b_writers b ! i then Written else Writing))\<rparr>"

text \<open>The current writer is in the store, and a finalized builder has no open one.\<close>

definition builder_wf :: "StandardEnvelopeBuilder \<Rightarrow> bool" where
  "builder_wf b =
     (case b_dataWriter b of
        None \<Rightarrow> True
      | Some i \<Rightarrow> i < length (b_writers b) \<and> (b_finalized b \<longrightarrow> b_writers b ! i))"

definition res_error :: "goerror + 'a \<Rightarrow> goerror option" where
  "res_error r = (case r of Inl e \<Rightarrow> Some e | Inr _ \<Rightarrow> None)"

lemmas draft_defs = draft_sender_def draft_add_def draft_open_def draft_write_def draft_close_def
  draft_seal_def draft_empty_def abs_builder_def builder_wf_def res_error_def

lemma nth_update_True: "xs ! j \<Longrightarrow> j < length xs \<Longrightarrow> xs[i := True] ! j"
  by (cases "i = j") simp_all

lemma builder_wf_ops:
  assumes "builder_wf b"
  shows "builder_wf (fst (NewStandardEnvelopeBuilder rt md w))"
    and "builder_wf (snd (fst (SetMailFrom rt p params b w)))"
    and "builder_wf (snd (AddRecipient p b))"
    and "builder_wf (snd (DataWriter b))"
    and "builder_wf (snd (writer_Write i t b))"
    and "builder_wf (snd (writer_Close i b))"
    and "builder_wf (snd (Finalize b))"
    and "builder_wf (fst (Builder_Reset rt b w))"
  using assms
  by (auto simp: builder_wf_def builder_defs nth_append nth_update_True split: prod.splits option.splits if_splits)

text \<open>
  (C16) The standard builder implements the draft: each operation, called on any well-formed
  builder, returns the error the draft prescribes or none, and moves the abstraction of the
  builder exactly as the draft moves. Writes and closes go through the builder's current
  writer.
\<close>

theorem builder_refines_draft:
  assumes "builder_wf b"
  shows "map_prod id abs_builder (fst (SetMailFrom rt p params b w)) = draft_sender p (abs_builder b)
    \<and> map_prod id abs_builder (AddRecipient p b) = draft_add p (abs_builder b)
    \<and> map_prod res_error abs_builder (DataWriter b) = draft_open (abs_builder b)
    \<and> map_prod res_error abs_builder (Finalize b) = draft_seal (abs_builder b)
    \<and> abs_builder (fst (Builder_Reset rt b w)) = draft_empty
    \<and> abs_builder (fst (NewStandardEnvelopeBuilder rt md w)) = draft_empty
    \<and> (b_dataWriter b = Some i \<longrightarrow>
         map_prod snd abs_builder (writer_Write i t b) =
           (if b_finalized b then (Some (ErrNew ''writer closed''), abs_builder b)
            else draft_write t (abs_builder b))
         \<and> abs_builder (snd (writer_Close i b)) = draft_close (abs_builder b))"
proof (intro conjI impI)
  show "map_prod id abs_builder (fst (SetMailFrom rt p params b w)) = draft_sender p (abs_builder b)"
    and "map_prod id abs_builder (AddRecipient p b) = draft_add p (abs_builder b)"
    and "abs_builder (fst (Builder_Reset rt b w)) = draft_empty"
    and "abs_builder (fst (NewStandardEnvelopeBuilder rt md w)) = draft_empty"
    by (auto simp: draft_defs builder_defs split: prod.split option.split)
  show "map_prod res_error abs_builder (DataWriter b) = draft_open (abs_builder b)"
    using assms by (auto simp: draft_defs DataWriter_def split: option.split)
  show "map_prod res_error abs_builder (Finalize b) = draft_seal (abs_builder b)"
    using assms by (auto simp: draft_defs Finalize_def writer_open_def split: option.split)
next
  assume "b_dataWriter b = Some i"
  with assms show "map_prod snd abs_builder (writer_Write i t b) =
      (if b_finalized b then (Some (ErrNew ''writer closed''), abs_builder b)
       else draft_write t (abs_builder b))"
    and "abs_builder (snd (writer_Close i b)) = draft_close (abs_builder b)"
    by (auto simp: draft_defs writer_Write_def writer_Close_def)
qed

definition sample_builder :: StandardEnvelopeBuilder where
  "sample_builder = \<lparr>b_id = ''id'', b_mailFrom = Some zero_MailPath, b_recipients = [],
     b_esmtpParams = None, b_receivedAt = None, b_data = [], b_dataWriter = Some 0,
     b_finalized = False,
     b_metadata = \<lparr>md_SessionID = [], md_ClientHostname = [], md_ClientIP = [], md_ServerHostname = [],
        md_TLSActive = False, md_TLSVersion = [], md_TLSCipherSuite = [], md_AuthenticatedUser = []\<rparr>,
     b_writers = [False]\<rparr>"

theorem builder_refines_draft_witness:
  "map_prod res_error abs_builder (Finalize sample_builder) = draft_seal (abs_builder sample_builder)
   \<and> fst (draft_seal (abs_builder sample_builder)) = Some ErrNoRecipients"
proof -
  have "builder_wf sample_builder" by (simp add: builder_wf_def sample_builder_def)
  from builder_refines_draft [OF this, of rt_const zero_MailPath None "()" "b_metadata sample_builder" 0 "[]"]
  have "map_prod res_error abs_builder (Finalize sample_builder) = draft_seal (abs_builder sample_builder)"
    by blast
  moreover have "fst (draft_seal (abs_builder sample_builder)) = Some ErrNoRecipients"
    by (simp add: draft_defs sample_builder_def)
  ultimately show ?thesis ..
qed

text \<open>
  (C36) A transaction comes out as it went in: a new builder that is given a sender, one or more
  recipients, opened for data, written to in any number of pieces, closed and finalized never
  fails, and yields a finalized envelope with this sender, these recipients in order, the
  concatenation of the pieces, and the metadata it was created with.
\<close>

theorem builder_round_trip:
  assumes "NewStandardEnvelopeBuilder rt md w = (b0, w0)"
    and "SetMailFrom rt sender params b0 w0 = ((r, b1), w1)"
    and "add_all AddRecipient rcpts b1 = (r2, b2)"
    and "DataWriter b2 = (Inr i, b3)"
    and "write_all (writer_Write i) pieces b3 = (r4, b4)"
    and "Finalize (snd (writer_Close i b4)) = (res, b5)"
    and "rcpts \<noteq> []"
  shows "r = None \<and> r2 = None \<and> r4 = None \<and>
    (\<exists>env. res = Inr env \<and> env_mailFrom env = sender \<and> Recipients env = rcpts
       \<and> Data env = concat pieces \<and> env_finalized env \<and> env_metadata env = md)"
proof -
  have open0: "b_finalized b0 = False" "b_dataWriter b0 = None" "b_recipients b0 = []"
    "b_data b0 = []" "b_metadata b0 = md" "b_writers b0 = []"
    using assms(1) by (auto simp: builder_defs split: prod.splits)
  have r: "r = None" and b1: "b_finalized b1 = False" "b_dataWriter b1 = None" "b_recipients b1 = []"
    "b_data b1 = []" "b_metadata b1 = md" "b_writers b1 = []" "b_mailFrom b1 = Some sender"
    using assms(2) open0 by (auto simp: SetMailFrom_def split: prod.splits)
  have add: "add_all AddRecipient ps b = (None, b\<lparr>b_recipients := b_recipients b @ ps\<rparr>)"
    if "\<not> b_finalized b" for ps b
    using that by (induction ps arbitrary: b) (simp_all add: AddRecipient_def)
  from add [of b1 rcpts] b1 assms(3) have r2: "r2 = None" and b2: "b2 = b1\<lparr>b_recipients := rcpts\<rparr>"
    by simp_all
  with assms(4) b1 have i: "i = 0" and b3: "b3 = b2\<lparr>b_dataWriter := Some 0, b_writers := [False]\<rparr>"
    by (simp_all add: DataWriter_def)
  have wr: "write_all (writer_Write 0) ps b = (None, b\<lparr>b_data := b_data b @ concat ps\<rparr>)"
    if "b_writers b = [False]" for ps b
    using that by (induction ps arbitrary: b) (simp_all add: writer_Write_def)
  from wr [of b3 pieces] assms(5) i b3 b2 b1 have r4: "r4 = None"
    and b4: "b4 = b3\<lparr>b_data := concat pieces\<rparr>" by simp_all
  from assms(6,7) b4 b3 b2 b1 i r r2 r4 show ?thesis
    by (auto simp: Finalize_def writer_Close_def writer_open_def Recipients_def Data_def)
qed

definition sample_transaction :: "(goerror + Envelope) \<times> StandardEnvelopeBuilder" where
  "sample_transaction =
     (let p = \<lparr>mp_Address = ''a@b'', mp_SourceRoute = [], mp_IsNull = False\<rparr>;
          (b0, w0) = NewStandardEnvelopeBuilder rt_const (b_metadata sample_builder) ();
          ((_, b1), _) = SetMailFrom rt_const p None b0 w0;
          (_, b2) = add_all AddRecipient [p, p] b1;
          (_, b3) = DataWriter b2;
          (_, b4) = write_all (writer_Write 0) [''Hello'', '' world''] b3
      in Finalize (snd (writer_Close 0 b4)))"

theorem builder_round_trip_witness:
  "\<exists>env. fst sample_transaction = Inr env \<and> Data env = ''Hello world''"
proof -
  define p where "p = \<lparr>mp_Address = ''a@b'', mp_SourceRoute = [], mp_IsNull = False\<rparr>"
  obtain b0 w0 where b0: "NewStandardEnvelopeBuilder rt_const (b_metadata sample_builder) () = (b0, w0)"
    by (metis prod.exhaust)
  obtain r b1 w1 where b1: "SetMailFrom rt_const p None b0 w0 = ((r, b1), w1)" by (metis prod.exhaust)
  obtain r2 b2 where b2: "add_all AddRecipient [p, p] b1 = (r2, b2)" by fastforce
  have "fst (DataWriter b2) = Inr 0"
    using b0 b1 b2 by (auto simp: builder_defs rt_const_def split: prod.splits)
  then obtain b3 where b3: "DataWriter b2 = (Inr 0, b3)" by (metis prod.collapse)
  obtain r4 b4 where b4: "write_all (writer_Write 0) [''Hello'', '' world''] b3 = (r4, b4)" by fastforce
  have "sample_transaction = Finalize (snd (writer_Close 0 b4))"
    unfolding sample_transaction_def Let_def p_def [symmetric] b0 b1 b2 b3 b4 prod.case ..
  moreover have "Finalize (snd (writer_Close 0 b4))
      = (fst (Finalize (snd (writer_Close 0 b4))), snd (Finalize (snd (writer_Close 0 b4))))" by simp
  note builder_round_trip [OF b0 b1 b2 b3 b4 this]
  ultimately show ?thesis by auto
qed

text \<open>
  A finalized builder is frozen: until it is reset, no operation succeeds in changing it,
  whichever data writer is used, provided the writers it had handed out are closed.
\<close>

theorem finalized_builder_frozen:
  assumes "b_finalized b" and "i < length (b_writers b)" and "b_writers b ! i"
  shows "fst (SetMailFrom rt p params b w) = (Some ErrEnvelopeFinalized, b)
    \<and> AddRecipient p b = (Some ErrEnvelopeFinalized, b)
    \<and> DataWriter b = (Inl ErrEnvelopeFinalized, b)
    \<and> Finalize b = (Inl ErrEnvelopeFinalized, b)
    \<and> writer_Write i t b = ((0, Some (ErrNew ''writer closed'')), b)
    \<and> snd (writer_Close i b) = b"
  using assms by (auto simp: builder_defs list_update_same_conv)

theorem finalized_builder_frozen_witness:
  "AddRecipient zero_MailPath (sample_builder\<lparr>b_finalized := True, b_writers := [True]\<rparr>) =
     (Some ErrEnvelopeFinalized, sample_builder\<lparr>b_finalized := True, b_writers := [True]\<rparr>)"
  using finalized_builder_frozen [of "sample_builder\<lparr>b_finalized := True, b_writers := [True]\<rparr>" 0
      rt_const zero_MailPath None "()" "[]"] by simp

end
