(* ===== verification/Session.thy ===== *)
theory Session
  imports Envelope
begin

text \<open>
  Session configuration, limits, statistics and state of \<open>session.go\<close> and \<open>limits.go\<close>, with the
  interfaces of \<open>mailbox.go\<close>, \<open>storage.go\<close> and \<open>session.go\<close> that a session calls.

  A component the user supplies is a function that may read and change the world \<open>'w\<close>; a nil
  interface is \<^const>\<open>None\<close>. Policies and hooks receive a \<open>SessionInfo\<close>, the answers its
  methods give at the moment of the call. \<open>SessionState.Envelope\<close> and
  \<open>SessionStats.ErrorCount\<close> are never used by the package and have no field here. Counters are
  Go \<open>int\<close>s, kept in range by \<^const>\<open>i64\<close> where they are updated.
\<close>

section \<open>Limits\<close>

record SessionLimits =
  MaxMessageSize :: int
  MaxRecipients :: int
  MaxCommandLength :: int
  MaxLineLength :: int
  CommandTimeout :: duration
  DataTimeout :: duration
  IdleTimeout :: duration
  MaxErrors :: int
  MaxTransactions :: int
  MaxAuthAttempts :: int

definition Second :: duration where
  "Second = 1000000000"

definition Minute :: duration where
  "Minute = 60 * Second"

definition DefaultSessionLimits :: SessionLimits where
  "DefaultSessionLimits =
     \<lparr>MaxMessageSize = 25 * 1024 * 1024, MaxRecipients = 100, MaxCommandLength = 512,
      MaxLineLength = 998, CommandTimeout = 5 * Minute, DataTimeout = 10 * Minute,
      IdleTimeout = 5 * Minute, MaxErrors = 10, MaxTransactions = 100, MaxAuthAttempts = 3\<rparr>"

definition CheckMessageSize :: "SessionLimits \<Rightarrow> int \<Rightarrow> goerror option" where
  "CheckMessageSize l sz =
     (if MaxMessageSize l > 0 \<and> sz > MaxMessageSize l then Some ErrMessageTooLarge else None)"

definition CheckRecipientCount :: "SessionLimits \<Rightarrow> int \<Rightarrow> goerror option" where
  "CheckRecipientCount l count =
     (if MaxRecipients l > 0 \<and> count > MaxRecipients l then Some ErrTooManyRecipients else None)"

definition CheckCommandLength :: "SessionLimits \<Rightarrow> int \<Rightarrow> goerror option" where
  "CheckCommandLength l len =
     (if MaxCommandLength l > 0 \<and> len > MaxCommandLength l then Some ErrCommandTooLong else None)"

definition CheckLineLength :: "SessionLimits \<Rightarrow> int \<Rightarrow> goerror option" where
  "CheckLineLength l len =
     (if MaxLineLength l > 0 \<and> len > MaxLineLength l then Some ErrLineTooLong else None)"

definition CheckErrorCount :: "SessionLimits \<Rightarrow> int \<Rightarrow> goerror option" where
  "CheckErrorCount l count =
     (if MaxErrors l > 0 \<and> count \<ge> MaxErrors l then Some ErrTooManyErrors else None)"

definition CheckTransactionCount :: "SessionLimits \<Rightarrow> int \<Rightarrow> goerror option" where
  "CheckTransactionCount l count =
     (if MaxTransactions l > 0 \<and> count \<ge> MaxTransactions l then Some ErrTooManyTransactions else None)"

text \<open>Rate limits and connection policies: data and interfaces the package declares for its users.\<close>

datatype RateLimitPolicy = RateLimitNone | RateLimitDelay | RateLimitReject

record 'w RateLimiter =
  rl_Allow :: "string \<Rightarrow> 'w \<Rightarrow> bool \<times> 'w"
  rl_AllowN :: "string \<Rightarrow> int \<Rightarrow> 'w \<Rightarrow> bool \<times> 'w"

record ConnectionInfo =
  ci_RemoteAddr :: string
  ci_RemoteIP :: string
  ci_LocalAddr :: string
  ci_TLS :: bool

type_synonym 'w ConnectionPolicy = "ConnectionInfo \<Rightarrow> 'w \<Rightarrow> (bool \<times> Response) \<times> 'w"

type_synonym LimitType = string

abbreviation LimitTypeMessageSize :: LimitType where
  "LimitTypeMessageSize \<equiv> ''MessageSize''"

abbreviation LimitTypeRecipients :: LimitType where
  "LimitTypeRecipients \<equiv> ''Recipients''"

abbreviation LimitTypeCommandLength :: LimitType where
  "LimitTypeCommandLength \<equiv> ''CommandLength''"

abbreviation LimitTypeLineLength :: LimitType where
  "LimitTypeLineLength \<equiv> ''LineLength''"

abbreviation LimitTypeErrors :: LimitType where
  "LimitTypeErrors \<equiv> ''Errors''"

abbreviation LimitTypeTransactions :: LimitType where
  "LimitTypeTransactions \<equiv> ''Transactions''"

record LimitViolation =
  lv_Type :: LimitType
  lv_Limit :: int
  lv_Actual :: int
  lv_SessionID :: string

datatype PolicyDecision = PolicyAllow | PolicyDeny | PolicyDefer | PolicyContinue

record PolicyResult =
  pr_Decision :: PolicyDecision
  pr_Response :: Response
  pr_Reason :: string

definition PolicyAllowed :: PolicyResult where
  "PolicyAllowed = \<lparr>pr_Decision = PolicyAllow, pr_Response = zero_Response, pr_Reason = []\<rparr>"

definition PolicyDenied :: "Response \<Rightarrow> string \<Rightarrow> PolicyResult" where
  "PolicyDenied response reason = \<lparr>pr_Decision = PolicyDeny, pr_Response = response, pr_Reason = reason\<rparr>"

definition PolicyDeferred :: "Response \<Rightarrow> string \<Rightarrow> PolicyResult" where
  "PolicyDeferred response reason = \<lparr>pr_Decision = PolicyDefer, pr_Response = response, pr_Reason = reason\<rparr>"

section \<open>Extensions\<close>

record ExtensionSet =
  x_STARTTLS :: bool
  x_SIZE :: bool
  x_EightBitMIME :: bool
  x_PIPELINING :: bool
  x_ENHANCEDSTATUSCODES :: bool
  x_SMTPUTF8 :: bool
  x_AUTH :: bool
  x_VRFY :: bool
  x_EXPN :: bool
  x_HELP :: bool

definition DefaultExtensions :: ExtensionSet where
  "DefaultExtensions =
     \<lparr>x_STARTTLS = True, x_SIZE = True, x_EightBitMIME = True, x_PIPELINING = True,
      x_ENHANCEDSTATUSCODES = True, x_SMTPUTF8 = False, x_AUTH = False, x_VRFY = False,
      x_EXPN = False, x_HELP = True\<rparr>"

section \<open>State and statistics\<close>

datatype DisconnectReason =
    DisconnectNormal | DisconnectTimeout | DisconnectError | DisconnectPolicyViolation
  | DisconnectResourceLimit | DisconnectTLSFailure | DisconnectServerShutdown

fun DisconnectReason_String :: "DisconnectReason \<Rightarrow> string" where
  "DisconnectReason_String DisconnectNormal = ''Normal''"
| "DisconnectReason_String DisconnectTimeout = ''Timeout''"
| "DisconnectReason_String DisconnectError = ''Error''"
| "DisconnectReason_String DisconnectPolicyViolation = ''PolicyViolation''"
| "DisconnectReason_String DisconnectResourceLimit = ''ResourceLimit''"
| "DisconnectReason_String DisconnectTLSFailure = ''TLSFailure''"
| "DisconnectReason_String DisconnectServerShutdown = ''ServerShutdown''"

record SessionStats =
  StartTime :: deadline
  EndTime :: deadline
  BytesRead :: int
  BytesWritten :: int
  CommandCount :: int
  TransactionCount :: int
  MessageCount :: int
  RecipientTotal :: int

record SessionState =
  ss_State :: State
  ss_ClientHostname :: string
  ss_TLSActive :: bool
  ss_TLSState :: "TLSConnectionState option"
  ss_Authenticated :: bool
  ss_AuthenticatedUser :: string
  ss_ConsecutiveErrors :: int

record SessionInfo =
  si_ID :: string
  si_State :: State
  si_ClientHostname :: string
  si_ClientIP :: string
  si_TLSActive :: bool
  si_Authenticated :: bool
  si_AuthenticatedUser :: string
  si_CurrentMailFrom :: "MailPath option"
  si_CurrentRecipientCount :: int

section \<open>Interfaces of the user's components\<close>

record SenderResult =
  sr_Accepted :: bool
  sr_Response :: Response
  sr_RequireAuth :: bool

text \<open>No implementation of a storage fills in the field \<open>Backend\<close>, an interface.\<close>

record StorageReceipt =
  rc_MessageID :: string
  rc_EnvelopeID :: string
  rc_StoredAt :: int
  rc_BytesWritten :: int
  rc_Backend :: "string option"

type_synonym 'w Mailbox = "MailPath \<Rightarrow> SessionInfo \<Rightarrow> 'w \<Rightarrow> RecipientResult \<times> 'w"
type_synonym 'w SenderPolicy = "MailPath \<Rightarrow> SessionInfo \<Rightarrow> 'w \<Rightarrow> SenderResult \<times> 'w"
type_synonym 'w Storage = "Envelope \<Rightarrow> 'w \<Rightarrow> (goerror + StorageReceipt) \<times> 'w"
type_synonym 'w TLSProvider = "'w \<Rightarrow> (goerror + TLSConfig) \<times> 'w"

record 'w StorageHook =
  sh_BeforeStore :: "Envelope \<Rightarrow> 'w \<Rightarrow> goerror option \<times> 'w"
  sh_AfterStore :: "Envelope \<Rightarrow> StorageReceipt \<Rightarrow> 'w \<Rightarrow> 'w"
  sh_OnStoreError :: "Envelope \<Rightarrow> goerror \<Rightarrow> 'w \<Rightarrow> 'w"

text \<open>The results of a \<open>SessionHandler\<close>, an interface for engines with handlers of their own.\<close>

record EnvelopeUpdate =
  eu_SetMailFrom :: "MailPath option"
  eu_AddRecipient :: "MailPath option"
  eu_Reset :: bool

record CommandResult =
  cr_Response :: Response
  cr_NewState :: "State option"
  cr_CloseConnection :: bool
  cr_StartTLS :: bool
  cr_Envelope :: "EnvelopeUpdate option"

record 'w SessionHooks =
  OnConnect :: "SessionInfo \<Rightarrow> 'w \<Rightarrow> 'w"
  OnDisconnect :: "SessionInfo \<Rightarrow> DisconnectReason \<Rightarrow> 'w \<Rightarrow> 'w"
  OnCommand :: "Command \<Rightarrow> SessionInfo \<Rightarrow> 'w \<Rightarrow> goerror option \<times> 'w"
  OnMailFrom :: "MailPath \<Rightarrow> SessionInfo \<Rightarrow> 'w \<Rightarrow> 'w"
  OnRcptTo :: "MailPath \<Rightarrow> SessionInfo \<Rightarrow> 'w \<Rightarrow> 'w"
  OnDataStart :: "SessionInfo \<Rightarrow> 'w \<Rightarrow> 'w"
  OnDataEnd :: "Envelope \<Rightarrow> SessionInfo \<Rightarrow> 'w \<Rightarrow> 'w"
  OnTLSUpgrade :: "TLSConnectionState \<Rightarrow> SessionInfo \<Rightarrow> 'w \<Rightarrow> 'w"
  OnError :: "goerror \<Rightarrow> SessionInfo \<Rightarrow> 'w \<Rightarrow> 'w"

definition NullSessionHooks :: "'w SessionHooks" where
  "NullSessionHooks =
     \<lparr>OnConnect = (\<lambda>_ w. w), OnDisconnect = (\<lambda>_ _ w. w), OnCommand = (\<lambda>_ _ w. (None, w)),
      OnMailFrom = (\<lambda>_ _ w. w), OnRcptTo = (\<lambda>_ _ w. w), OnDataStart = (\<lambda>_ w. w),
      OnDataEnd = (\<lambda>_ _ w. w), OnTLSUpgrade = (\<lambda>_ _ w. w), OnError = (\<lambda>_ _ w. w)\<rparr>"

record ('b, 'w) SessionConfig =
  ServerHostname :: string
  Limits :: SessionLimits
  cf_TLSPolicy :: TLSPolicy
  cf_TLSProvider :: "'w TLSProvider option"
  cf_Mailbox :: "'w Mailbox option"
  cf_SenderPolicy :: "'w SenderPolicy option"
  cf_Storage :: "'w Storage option"
  cf_EnvelopeFactory :: "('b, 'w) EnvelopeFactory option"
  Extensions :: ExtensionSet
  Hooks :: "'w SessionHooks option"

end
