(* ===== verification/Engine.thy ===== *)
theory Engine
  imports State_Machine Smtp_Parser Session
begin

text \<open>
  The session engine of \<open>engine.go\<close>: one record for the \<open>Engine\<close> struct, one function per
  method. The world \<open>'w\<close> carries what lies outside: the clock, the random source, the context,
  and the state of the policies, hooks and storage the user configured. \<open>rt\<close> is the runtime of
  \<open>Conn.thy\<close>. Where the code would dereference a nil interface the result is a \<open>go_panic\<close>.

  Log calls are left out: a logger gets no access to the engine and returns nothing.
\<close>

section \<open>The engine and its helpers\<close>

record ('b, 'w) Engine =
  e_config :: "('b, 'w) SessionConfig"
  e_conn :: BufferedConn
  e_maxCommandLength :: int
  e_sm :: StateMachine
  e_state :: SessionState
  e_stats :: SessionStats
  e_sessionID :: string
  e_clientIP :: string
  e_clientAddr :: string
  e_envelope :: "('b, 'w) EnvelopeBuilder option"
  e_closed :: bool
  e_world :: 'w

datatype EngineOption = WithClientIP string | WithClientAddr string | WithSessionID string

fun apply_option :: "EngineOption \<Rightarrow> ('b, 'w) Engine \<Rightarrow> ('b, 'w) Engine" where
  "apply_option (WithClientIP ip) e = e\<lparr>e_clientIP := ip\<rparr>"
| "apply_option (WithClientAddr addr) e = e\<lparr>e_clientAddr := addr\<rparr>"
| "apply_option (WithSessionID i) e = e\<lparr>e_sessionID := i\<rparr>"

definition generateSessionID :: "'w Runtime \<Rightarrow> 'w \<Rightarrow> string \<times> 'w" where
  "generateSessionID rt w = (case rt_Rand rt 16 w of (bs, w') \<Rightarrow> (hex_EncodeToString bs, w'))"

definition NewEngineWithConn ::
    "'w Runtime \<Rightarrow> Conn \<Rightarrow> ('b, 'w) SessionConfig \<Rightarrow> EngineOption list \<Rightarrow> 'w \<Rightarrow> ('b, 'w) Engine" where
  "NewEngineWithConn rt conn config opts w =
     (case rt_Now rt w of
        (start, w1) \<Rightarrow>
          (case generateSessionID rt w1 of
             (sid, w2) \<Rightarrow>
               (let e =
                  \<lparr>e_config = config, e_conn = NewBufferedConn conn,
                   e_maxCommandLength =
                     (if MaxCommandLength (Limits config) = 0 then 512
                      else MaxCommandLength (Limits config)),
                   e_sm = NewStateMachine,
                   e_state = \<lparr>ss_State = StateDisconnected, ss_ClientHostname = [],
                      ss_TLSActive = False, ss_TLSState = None, ss_Authenticated = False,
                      ss_AuthenticatedUser = [], ss_ConsecutiveErrors = 0\<rparr>,
                   e_stats = \<lparr>StartTime = Some start, EndTime = None, BytesRead = 0,
                      BytesWritten = 0, CommandCount = 0, TransactionCount = 0, MessageCount = 0,
                      RecipientTotal = 0\<rparr>,
                   e_sessionID = sid, e_clientIP = [], e_clientAddr = [], e_envelope = None,
                   e_closed = False, e_world = w2\<rparr>
                in fold apply_option opts e)))"

definition NewEngineFromNetConn ::
    "'w Runtime \<Rightarrow> Transport \<Rightarrow> ('b, 'w) SessionConfig \<Rightarrow> EngineOption list \<Rightarrow> 'w \<Rightarrow> ('b, 'w) Engine" where
  "NewEngineFromNetConn rt t config opts w =
     NewEngineWithConn rt (Net (WrapNetConn t)) config opts w"

text \<open>\<open>NewEngine\<close> looks whether its reader is a \<open>net.Conn\<close>; another reader and writer come with what
  they implement of deadlines and of \<open>io.Closer\<close>.\<close>

datatype Endpoint = NetEndpoint Transport | IOEndpoint Transport bool bool bool bool

definition NewEngine ::
    "'w Runtime \<Rightarrow> Endpoint \<Rightarrow> ('b, 'w) SessionConfig \<Rightarrow> EngineOption list \<Rightarrow> 'w \<Rightarrow> ('b, 'w) Engine" where
  "NewEngine rt r config opts w =
     (case r of
        NetEndpoint t \<Rightarrow> NewEngineFromNetConn rt t config opts w
      | IOEndpoint t rd wd rc wc \<Rightarrow> NewEngineWithConn rt (Pipe (WrapPipe t rd wd rc wc)) config opts w)"

text \<open>\<open>SessionInfo\<close>: what the engine answers to a policy or a hook.\<close>

definition CurrentRecipientCount :: "('b, 'w) Engine \<Rightarrow> int" where
  "CurrentRecipientCount e =
     (case e_envelope e of None \<Rightarrow> 0 | Some b \<Rightarrow> RecipientCount (eb_Build b (e_world e)))"

definition CurrentMailFrom :: "('b, 'w) Engine \<Rightarrow> MailPath option" where
  "CurrentMailFrom e =
     (case e_envelope e of None \<Rightarrow> None | Some b \<Rightarrow> Some (env_mailFrom (eb_Build b (e_world e))))"

definition session_info :: "('b, 'w) Engine \<Rightarrow> SessionInfo" where
  "session_info e =
     \<lparr>si_ID = e_sessionID e, si_State = ss_State (e_state e),
      si_ClientHostname = ss_ClientHostname (e_state e), si_ClientIP = e_clientIP e,
      si_TLSActive = ss_TLSActive (e_state e), si_Authenticated = ss_Authenticated (e_state e),
      si_AuthenticatedUser = ss_AuthenticatedUser (e_state e),
      si_CurrentMailFrom = CurrentMailFrom e, si_CurrentRecipientCount = CurrentRecipientCount e\<rparr>"

definition run_hook ::
    "('w SessionHooks \<Rightarrow> SessionInfo \<Rightarrow> 'w \<Rightarrow> 'w) \<Rightarrow> ('b, 'w) Engine \<Rightarrow> ('b, 'w) Engine" where
  [engine_defs]: "run_hook f e =
     (case Hooks (e_config e) of
        None \<Rightarrow> e
      | Some h \<Rightarrow> e\<lparr>e_world := f h (session_info e) (e_world e)\<rparr>)"

definition engine_now :: "'w Runtime \<Rightarrow> ('b, 'w) Engine \<Rightarrow> int \<times> ('b, 'w) Engine" where
  [engine_defs]: "engine_now rt e = (case rt_Now rt (e_world e) of (t, w) \<Rightarrow> (t, e\<lparr>e_world := w\<rparr>))"

definition ctx_done :: "'w Runtime \<Rightarrow> ('b, 'w) Engine \<Rightarrow> goerror option \<times> ('b, 'w) Engine" where
  [engine_defs]: "ctx_done rt e = (case rt_CtxDone rt (e_world e) of (r, w) \<Rightarrow> (r, e\<lparr>e_world := w\<rparr>))"

definition set_read_deadline :: "deadline \<Rightarrow> ('b, 'w) Engine \<Rightarrow> ('b, 'w) Engine" where
  [engine_defs]: "set_read_deadline d e =
     e\<lparr>e_conn := (e_conn e)\<lparr>bc_conn := Conn_SetReadDeadline d (bc_conn (e_conn e))\<rparr>\<rparr>"

definition set_write_deadline :: "deadline \<Rightarrow> ('b, 'w) Engine \<Rightarrow> ('b, 'w) Engine" where
  [engine_defs]: "set_write_deadline d e =
     e\<lparr>e_conn := (e_conn e)\<lparr>bc_conn := Conn_SetWriteDeadline d (bc_conn (e_conn e))\<rparr>\<rparr>"

definition set_state :: "State \<Rightarrow> ('b, 'w) Engine \<Rightarrow> ('b, 'w) Engine" where
  [engine_defs]: "set_state s e = e\<lparr>e_state := (e_state e)\<lparr>ss_State := s\<rparr>\<rparr>"

definition on_sm :: "(StateMachine \<Rightarrow> StateMachine) \<Rightarrow> ('b, 'w) Engine \<Rightarrow> ('b, 'w) Engine" where
  [engine_defs]: "on_sm f e = e\<lparr>e_sm := f (e_sm e)\<rparr>"

definition sm_command :: "CommandVerb \<Rightarrow> ('b, 'w) Engine \<Rightarrow> ('b, 'w) Engine" where
  [engine_defs]: "sm_command c = on_sm (\<lambda>m. snd (TransitionForCommand c True m))"

definition add_bytes_read :: "nat \<Rightarrow> ('b, 'w) Engine \<Rightarrow> ('b, 'w) Engine" where
  [engine_defs]: "add_bytes_read n e =
     e\<lparr>e_stats := (e_stats e)\<lparr>BytesRead := i64 (BytesRead (e_stats e) + int n)\<rparr>\<rparr>"

definition readLine ::
    "'w Runtime \<Rightarrow> duration \<Rightarrow> ('b, 'w) Engine \<Rightarrow> (goerror + bytes) \<times> ('b, 'w) Engine" where
  [engine_defs]: "readLine rt timeout e =
     (case ReadLine rt timeout (e_conn e) (e_world e) of
        (((line, err), b), w) \<Rightarrow>
          (let e' = e\<lparr>e_conn := b, e_world := w\<rparr> in
           case err of
             Some x \<Rightarrow> (Inl x, e')
           | None \<Rightarrow> (Inr line, add_bytes_read (length line) e')))"

definition writeResponse :: "Response \<Rightarrow> ('b, 'w) Engine \<Rightarrow> goerror option \<times> ('b, 'w) Engine" where
  [engine_defs]: "writeResponse resp e =
     (case Conn_Write (Response_Bytes resp) (bc_conn (e_conn e)) of
        ((n, err), c) \<Rightarrow>
          (err, e\<lparr>e_conn := (e_conn e)\<lparr>bc_conn := c\<rparr>,
                  e_stats := (e_stats e)\<lparr>BytesWritten := i64 (BytesWritten (e_stats e) + int n)\<rparr>\<rparr>))"

definition resetTransaction :: "'w Runtime \<Rightarrow> ('b, 'w) Engine \<Rightarrow> ('b, 'w) Engine" where
  [engine_defs]: "resetTransaction rt e =
     (case e_envelope e of
        None \<Rightarrow> e
      | Some b \<Rightarrow> e\<lparr>e_world := snd (eb_Reset rt b (e_world e)), e_envelope := None\<rparr>)"

definition checkErrorLimit :: "('b, 'w) Engine \<Rightarrow> goerror option" where
  [engine_defs]: "checkErrorLimit e =
     CheckErrorCount (Limits (e_config e)) (ss_ConsecutiveErrors (e_state e))"

definition handleDisconnect ::
    "'w Runtime \<Rightarrow> DisconnectReason \<Rightarrow> goerror option \<Rightarrow> ('b, 'w) Engine
      \<Rightarrow> goerror option \<times> ('b, 'w) Engine" where
  [engine_defs]: "handleDisconnect rt reason err e =
     (if e_closed e then (None, e)
      else
       (case engine_now rt (e\<lparr>e_closed := True\<rparr>) of
          (t, e1) \<Rightarrow>
            (err, run_hook (\<lambda>h i. OnDisconnect h i reason)
                    (e1\<lparr>e_stats := (e_stats e1)\<lparr>EndTime := Some t\<rparr>\<rparr>))))"

definition buildGreeting :: "('b, 'w) Engine \<Rightarrow> Response" where
  [engine_defs]: "buildGreeting e =
     NewResponse Reply220ServiceReady (ServerHostname (e_config e) @ '' ESMTP icesmtp'')"

definition isIOError :: "goerror \<Rightarrow> bool" where
  "isIOError err \<longleftrightarrow> err = EOF \<or> err = ErrUnexpectedEOF \<or> err = ErrClosedPipe"

text \<open>\<open>errors.As\<close> with a \<open>net.Error\<close> target, then its \<open>Timeout\<close> method: the first error of the
  chain that implements \<open>net.Error\<close> decides. \<open>context.DeadlineExceeded\<close> is one.\<close>

function isTimeoutError :: "goerror \<Rightarrow> bool" where
  "isTimeoutError err =
     (case err of
        NetError timeout _ \<Rightarrow> timeout
      | CtxDeadlineExceeded \<Rightarrow> True
      | _ \<Rightarrow> (case Unwrap err of None \<Rightarrow> False | Some c \<Rightarrow> isTimeoutError c))"
  by pat_completeness auto
termination
  by (relation "measure size") (auto dest: size_Unwrap)

declare isTimeoutError.simps [simp del]

definition is_timeout :: "goerror \<Rightarrow> bool" where
  "is_timeout err \<longleftrightarrow>
     errors_Is err CtxDeadlineExceeded \<or> errors_Is err ErrDeadlineExceeded \<or> isTimeoutError err"

section \<open>Command handlers\<close>

definition hello :: "('b, 'w) Engine \<Rightarrow> bytes \<Rightarrow> string" where
  [engine_defs]: "hello e hostname = ServerHostname (e_config e) @ '' Hello '' @ hostname"

definition identify :: "'w Runtime \<Rightarrow> CommandVerb \<Rightarrow> bytes \<Rightarrow> ('b, 'w) Engine \<Rightarrow> ('b, 'w) Engine" where
  [engine_defs]: "identify rt verb hostname e =
     resetTransaction rt
       (set_state StateIdentified
         (sm_command verb (e\<lparr>e_state := (e_state e)\<lparr>ss_ClientHostname := hostname\<rparr>\<rparr>)))"

definition handleHELO :: "'w Runtime \<Rightarrow> Command \<Rightarrow> ('b, 'w) Engine \<Rightarrow> Response \<times> ('b, 'w) Engine" where
  [engine_defs]: "handleHELO rt cmd e =
     (case ParseHeloHostname (cmd_Argument cmd) of
        Inl _ \<Rightarrow> (ResponseSyntaxErrorParams, e)
      | Inr hostname \<Rightarrow> (NewResponse Reply250OK (hello e hostname), identify rt CmdHELO hostname e))"

definition ehlo_lines :: "('b, 'w) Engine \<Rightarrow> string list" where
  [engine_defs]: "ehlo_lines e =
     (let ext = Extensions (e_config e); cfg = e_config e in
      (if x_SIZE ext \<and> MaxMessageSize (Limits cfg) > 0
       then [''SIZE '' @ itoa (MaxMessageSize (Limits cfg))] else [])
      @ (if x_STARTTLS ext \<and> cf_TLSPolicy cfg \<noteq> TLSDisabled \<and> \<not> ss_TLSActive (e_state e)
         then [''STARTTLS''] else [])
      @ (if x_EightBitMIME ext then [''8BITMIME''] else [])
      @ (if x_PIPELINING ext then [''PIPELINING''] else [])
      @ (if x_ENHANCEDSTATUSCODES ext then [''ENHANCEDSTATUSCODES''] else [])
      @ (if x_SMTPUTF8 ext then [''SMTPUTF8''] else [])
      @ (if x_HELP ext then [''HELP''] else []))"

definition handleEHLO :: "'w Runtime \<Rightarrow> Command \<Rightarrow> ('b, 'w) Engine \<Rightarrow> Response \<times> ('b, 'w) Engine" where
  [engine_defs]: "handleEHLO rt cmd e =
     (case ParseHeloHostname (cmd_Argument cmd) of
        Inl _ \<Rightarrow> (ResponseSyntaxErrorParams, e)
      | Inr hostname \<Rightarrow>
          (let e' = identify rt CmdEHLO hostname e in
           (NewMultilineResponse Reply250OK (hello e' hostname # ehlo_lines e'), e')))"

text \<open>The declared size of the SIZE parameter; a value \<open>Sscanf\<close> cannot store leaves 0.\<close>

definition size_rejected :: "('b, 'w) Engine \<Rightarrow> Command \<Rightarrow> bool" where
  [engine_defs]: "size_rejected e cmd =
     (if x_SIZE (Extensions (e_config e)) \<and> MaxMessageSize (Limits (e_config e)) > 0 then
        (case params_get (cmd_Params cmd) ''SIZE'' of
           None \<Rightarrow> False
         | Some sizeStr \<Rightarrow>
             (case Sscanf_d sizeStr of None \<Rightarrow> 0 | Some n \<Rightarrow> n) > MaxMessageSize (Limits (e_config e)))
      else False)"

definition validate_sender ::
    "MailPath \<Rightarrow> ('b, 'w) Engine \<Rightarrow> Response option \<times> ('b, 'w) Engine" where
  [engine_defs]: "validate_sender path e =
     (case cf_SenderPolicy (e_config e) of
        None \<Rightarrow> (None, e)
      | Some policy \<Rightarrow>
          (case policy path (session_info e) (e_world e) of
             (result, w) \<Rightarrow>
               (if sr_Accepted result then None else Some (sr_Response result), e\<lparr>e_world := w\<rparr>)))"

definition envelope_metadata :: "'w Runtime \<Rightarrow> ('b, 'w) Engine \<Rightarrow> EnvelopeMetadata" where
  [engine_defs]: "envelope_metadata rt e =
     \<lparr>md_SessionID = e_sessionID e, md_ClientHostname = ss_ClientHostname (e_state e),
      md_ClientIP = e_clientIP e, md_ServerHostname = ServerHostname (e_config e),
      md_TLSActive = ss_TLSActive (e_state e),
      md_TLSVersion = (case ss_TLSState (e_state e) of None \<Rightarrow> [] | Some s \<Rightarrow> VersionString s),
      md_TLSCipherSuite =
        (case ss_TLSState (e_state e) of
           None \<Rightarrow> [] | Some s \<Rightarrow> CipherSuiteString (rt_CipherSuiteName rt) s),
      md_AuthenticatedUser = ss_AuthenticatedUser (e_state e)\<rparr>"

definition handleMAIL :: "'w Runtime \<Rightarrow> Command \<Rightarrow> ('b, 'w) Engine \<Rightarrow> Response \<times> ('b, 'w) Engine" where
  [engine_defs]: "handleMAIL rt cmd e =
     (if cf_TLSPolicy (e_config e) = TLSRequired \<and> \<not> ss_TLSActive (e_state e) then
        (NewResponse Reply530AuthRequired ''Must issue STARTTLS first'', e)
      else if MaxTransactions (Limits (e_config e)) > 0
          \<and> TransactionCount (e_stats e) \<ge> MaxTransactions (Limits (e_config e)) then
        (NewResponse Reply421ServiceNotAvailable ''Too many transactions'', e)
      else
       (case ParseMailPath (rt_Unicode rt) (cmd_Argument cmd) ''FROM'' of
          Inl _ \<Rightarrow> (ResponseSyntaxErrorParams, e)
        | Inr path \<Rightarrow>
            if size_rejected e cmd then
              (NewResponse Reply552ExceededStorage ''Message size exceeds fixed maximum message size'', e)
            else
             (case validate_sender path e of
                (Some resp, e1) \<Rightarrow> (resp, e1)
              | (None, e1) \<Rightarrow>
                 (case NewBuilder rt (cf_EnvelopeFactory (e_config e1)) (envelope_metadata rt e1)
                    (e_world e1) of
                    (b, w) \<Rightarrow>
                      (case eb_SetMailFrom rt path (cmd_Params cmd) b w of
                         ((err, b'), w') \<Rightarrow>
                           (let e2 = e1\<lparr>e_envelope := Some b', e_world := w'\<rparr> in
                            case err of
                              Some _ \<Rightarrow> (ResponseTransactionFailed, e2)
                            | None \<Rightarrow>
                                (ResponseOK,
                                 run_hook (\<lambda>h i. OnMailFrom h path i)
                                   (set_state StateMailFrom (sm_command CmdMAIL e2)))))))))"

definition recipients_full :: "('b, 'w) EnvelopeBuilder \<Rightarrow> ('b, 'w) Engine \<Rightarrow> bool" where
  [engine_defs]: "recipients_full b e \<longleftrightarrow>
     MaxRecipients (Limits (e_config e)) > 0
     \<and> RecipientCount (eb_Build b (e_world e)) \<ge> MaxRecipients (Limits (e_config e))"

definition accept_recipient ::
    "MailPath \<Rightarrow> ('b, 'w) EnvelopeBuilder \<Rightarrow> ('b, 'w) Engine \<Rightarrow> Response \<times> ('b, 'w) Engine" where
  [engine_defs]: "accept_recipient path b e =
     (case eb_AddRecipient path b (e_world e) of
        ((Some _, b'), w) \<Rightarrow> (ResponseTransactionFailed, e\<lparr>e_envelope := Some b', e_world := w\<rparr>)
      | ((None, b'), w) \<Rightarrow>
          (ResponseOK,
           run_hook (\<lambda>h i. OnRcptTo h path i)
             (set_state StateRcptTo (sm_command CmdRCPT (e\<lparr>e_envelope := Some b', e_world := w\<rparr>)))))"

text \<open>The envelope is dereferenced for the recipient limit only when one is set, the mailbox
  always, and the envelope again once the mailbox has accepted.\<close>

definition handleRCPT ::
    "'w Runtime \<Rightarrow> Command \<Rightarrow> ('b, 'w) Engine \<Rightarrow> go_panic + Response \<times> ('b, 'w) Engine" where
  [engine_defs]: "handleRCPT rt cmd e =
     (case ParseMailPath (rt_Unicode rt) (cmd_Argument cmd) ''TO'' of
        Inl _ \<Rightarrow> Inr (ResponseSyntaxErrorParams, e)
      | Inr path \<Rightarrow>
          if MaxRecipients (Limits (e_config e)) > 0 \<and> e_envelope e = None then Inl NilDereference
          else if (case e_envelope e of None \<Rightarrow> False | Some b \<Rightarrow> recipients_full b e) then
            Inr (NewResponse Reply452InsufficientStorage ''Too many recipients'', e)
          else
           (case cf_Mailbox (e_config e) of
              None \<Rightarrow> Inl NilDereference
            | Some mailbox \<Rightarrow>
                (case mailbox path (session_info e) (e_world e) of
                   (result, w) \<Rightarrow>
                     (let e1 = e\<lparr>e_world := w\<rparr> in
                      if rr_Status result \<noteq> RecipientAccepted then Inr (rr_Response result, e1)
                      else
                       (case e_envelope e1 of
                          None \<Rightarrow> Inl NilDereference
                        | Some b \<Rightarrow> Inr (accept_recipient path b e1))))))"

subsection \<open>The data phase\<close>

text \<open>One iteration of the loop of \<open>streamData\<close> up to the check for the terminator: the line,
  or the error that ends the loop.\<close>

definition read_data_line ::
    "'w Runtime \<Rightarrow> duration \<Rightarrow> ('b, 'w) Engine \<Rightarrow> (goerror + bytes) \<times> ('b, 'w) Engine" where
  [engine_defs]: "read_data_line rt timeout e =
     (case ctx_done rt e of
        (Some err, e1) \<Rightarrow> (Inl err, e1)
      | (None, e1) \<Rightarrow>
          (case ReadBytes rt (e_conn e1) (e_world e1) of
             (((line, Some err), b), w) \<Rightarrow> (Inl err, e1\<lparr>e_conn := b, e_world := w\<rparr>)
           | (((line, None), b), w) \<Rightarrow>
               (case engine_now rt (add_bytes_read (length line) (e1\<lparr>e_conn := b, e_world := w\<rparr>)) of
                  (t, e2) \<Rightarrow> (Inr line, set_read_deadline (Some (t + timeout)) e2))))"

definition line_too_long :: "SessionLimits \<Rightarrow> bytes \<Rightarrow> bool" where
  [engine_defs]: "line_too_long l line \<longleftrightarrow> MaxLineLength l > 0 \<and> int (length line) > MaxLineLength l"

definition message_too_large :: "SessionLimits \<Rightarrow> int \<Rightarrow> bytes \<Rightarrow> bool" where
  [engine_defs]: "message_too_large l totalBytes text \<longleftrightarrow>
     MaxMessageSize l > 0 \<and> i64 (totalBytes + int (length text)) > MaxMessageSize l"

lemma conn_size_set_read_deadline [simp]:
  "conn_size (e_conn (set_read_deadline d e)) = conn_size (e_conn e)"
  by (simp add: set_read_deadline_def)

lemma read_data_line_size:
  assumes "read_data_line rt timeout e = (Inr line, e')"
  shows "conn_size (e_conn e') < conn_size (e_conn e)"
  using assms
  by (auto simp: read_data_line_def ctx_done_def engine_now_def add_bytes_read_def
      split: prod.splits option.splits dest!: ReadBytes_size)

function stream_loop ::
    "'w Runtime \<Rightarrow> nat \<Rightarrow> duration \<Rightarrow> int \<Rightarrow> ('b, 'w) EnvelopeBuilder \<Rightarrow> ('b, 'w) Engine
      \<Rightarrow> (int \<times> goerror option) \<times> ('b, 'w) EnvelopeBuilder \<times> ('b, 'w) Engine" where
  "stream_loop rt wr timeout totalBytes b e =
     (case read_data_line rt timeout e of
        (Inl err, e1) \<Rightarrow> ((totalBytes, Some err), b, e1)
      | (Inr line, e1) \<Rightarrow>
          if IsTerminator line then ((totalBytes, None), b, e1)
          else if line_too_long (Limits (e_config e1)) line then ((totalBytes, Some ErrLineTooLong), b, e1)
          else if message_too_large (Limits (e_config e1)) totalBytes (UnstuffLine line) then
            ((totalBytes, Some ErrMessageTooLarge), b, e1)
          else
           (case eb_Write wr (UnstuffLine line) b (e_world e1) of
              (((n, Some err), b'), w) \<Rightarrow> ((totalBytes, Some err), b', e1\<lparr>e_world := w\<rparr>)
            | (((n, None), b'), w) \<Rightarrow>
                stream_loop rt wr timeout (i64 (totalBytes + int n)) b' (e1\<lparr>e_world := w\<rparr>)))"
  by pat_completeness auto
termination
  by (relation "measure (\<lambda>(rt, wr, timeout, totalBytes, b, e). conn_size (e_conn e))")
    (auto dest!: read_data_line_size [OF sym])

declare stream_loop.simps [simp del]

definition streamData ::
    "'w Runtime \<Rightarrow> nat \<Rightarrow> duration \<Rightarrow> ('b, 'w) EnvelopeBuilder \<Rightarrow> ('b, 'w) Engine
      \<Rightarrow> (int \<times> goerror option) \<times> ('b, 'w) EnvelopeBuilder \<times> ('b, 'w) Engine" where
  [engine_defs]: "streamData rt wr timeout b e =
     (case engine_now rt e of
        (t, e1) \<Rightarrow>
          (case stream_loop rt wr timeout 0 b (set_read_deadline (Some (t + timeout)) e1) of
             (res, b', e2) \<Rightarrow> (res, b', set_read_deadline None e2)))"

text \<open>The three lines every failure of the data phase ends with, and the reply it chooses.\<close>

definition abandon_data :: "Response \<Rightarrow> ('b, 'w) Engine \<Rightarrow> Response \<times> ('b, 'w) Engine" where
  [engine_defs]: "abandon_data resp e =
     (resp, (set_state StateIdentified (on_sm Reset e))\<lparr>e_envelope := None\<rparr>)"

definition data_error_response :: "goerror \<Rightarrow> Response" where
  "data_error_response err =
     (if errors_Is err ErrMessageTooLarge then
        NewResponse Reply552ExceededStorage ''Message size exceeds limit''
      else if errors_Is err ErrLineTooLong then NewResponse Reply500SyntaxError ''Line too long''
      else if is_timeout err then NewResponse Reply451LocalError ''Timeout receiving message data''
      else NewResponse Reply451LocalError ''Error receiving message data'')"

definition store_message ::
    "Envelope \<Rightarrow> ('b, 'w) Engine \<Rightarrow> goerror option \<times> ('b, 'w) Engine" where
  [engine_defs]: "store_message env e =
     (case cf_Storage (e_config e) of
        None \<Rightarrow> (None, e)
      | Some store \<Rightarrow>
          (case store env (e_world e) of
             (Inl err, w) \<Rightarrow> (Some err, e\<lparr>e_world := w\<rparr>)
           | (Inr receipt, w) \<Rightarrow> (None, e\<lparr>e_world := w\<rparr>)))"

definition message_accepted :: "Envelope \<Rightarrow> ('b, 'w) Engine \<Rightarrow> Response \<times> ('b, 'w) Engine" where
  [engine_defs]: "message_accepted env e =
     (let st = e_stats e;
          e1 = e\<lparr>e_stats := st\<lparr>MessageCount := i64 (MessageCount st + 1),
                               TransactionCount := i64 (TransactionCount st + 1),
                               RecipientTotal := i64 (RecipientTotal st + RecipientCount env)\<rparr>\<rparr>;
          e2 = on_sm Reset (on_sm (\<lambda>m. snd (DataComplete m)) e1);
          e3 = (set_state StateIdentified e2)\<lparr>e_envelope := None\<rparr>
      in (NewResponse Reply250OK (''OK, message '' @ env_id env @ '' accepted''),
          run_hook (\<lambda>h i. OnDataEnd h env i) e3))"

definition finish_data ::
    "nat \<Rightarrow> ('b, 'w) EnvelopeBuilder \<Rightarrow> ('b, 'w) Engine \<Rightarrow> Response \<times> ('b, 'w) Engine" where
  [engine_defs]: "finish_data wr b e =
     (case eb_Close wr b (e_world e) of
        ((Some _, b1), w1) \<Rightarrow>
          abandon_data (NewResponse Reply451LocalError ''Error finalizing message data'')
            (e\<lparr>e_world := w1\<rparr>)
      | ((None, b1), w1) \<Rightarrow>
          (case eb_Finalize b1 w1 of
             ((Inl _, b2), w2) \<Rightarrow>
               abandon_data (NewResponse Reply451LocalError ''Unable to finalize message'')
                 (e\<lparr>e_world := w2\<rparr>)
           | ((Inr env, b2), w2) \<Rightarrow>
               (case store_message env (e\<lparr>e_world := w2\<rparr>) of
                  (Some _, e1) \<Rightarrow>
                    abandon_data (NewResponse Reply451LocalError ''Unable to store message'') e1
                | (None, e1) \<Rightarrow> message_accepted env e1)))"

definition receive_data ::
    "'w Runtime \<Rightarrow> ('b, 'w) EnvelopeBuilder \<Rightarrow> ('b, 'w) Engine \<Rightarrow> Response \<times> ('b, 'w) Engine" where
  [engine_defs]: "receive_data rt b e =
     (case eb_DataWriter b (e_world e) of
        ((Inl _, b1), w1) \<Rightarrow>
          abandon_data (NewResponse Reply451LocalError ''Unable to accept message'') (e\<lparr>e_world := w1\<rparr>)
      | ((Inr wr, b1), w1) \<Rightarrow>
          (case streamData rt wr
              (if DataTimeout (Limits (e_config e)) = 0 then 10 * Minute
               else DataTimeout (Limits (e_config e))) b1 (e\<lparr>e_world := w1\<rparr>) of
             ((totalBytes, Some err), b2, e2) \<Rightarrow>
               (case eb_Close wr b2 (e_world e2) of
                  (_, w3) \<Rightarrow> abandon_data (data_error_response err) (e2\<lparr>e_world := w3\<rparr>))
           | ((totalBytes, None), b2, e2) \<Rightarrow> finish_data wr b2 e2))"

definition handleDATA ::
    "'w Runtime \<Rightarrow> Command \<Rightarrow> ('b, 'w) Engine \<Rightarrow> go_panic + Response \<times> ('b, 'w) Engine" where
  [engine_defs]: "handleDATA rt cmd e =
     (case writeResponse ResponseStartMailInput
         (run_hook OnDataStart (set_state StateData (sm_command CmdDATA e))) of
        (Some _, e1) \<Rightarrow> Inr (zero_Response, on_sm (\<lambda>m. snd (Abort m)) e1)
      | (None, e1) \<Rightarrow>
          (case e_envelope e1 of
             None \<Rightarrow> Inl NilDereference
           | Some b \<Rightarrow> Inr (receive_data rt b e1)))"

subsection \<open>The other commands\<close>

definition handleRSET :: "'w Runtime \<Rightarrow> Command \<Rightarrow> ('b, 'w) Engine \<Rightarrow> Response \<times> ('b, 'w) Engine" where
  [engine_defs]: "handleRSET rt cmd e =
     (let e1 = on_sm Reset (resetTransaction rt e); s = sm_state (e_sm e1) in
      (ResponseOK,
       set_state (if s = StateGreeted \<or> s = StateIdentified then s else StateIdentified) e1))"

definition handleNOOP :: "Command \<Rightarrow> ('b, 'w) Engine \<Rightarrow> Response \<times> ('b, 'w) Engine" where
  [engine_defs]: "handleNOOP cmd e = (ResponseOK, e)"

definition handleQUIT :: "Command \<Rightarrow> ('b, 'w) Engine \<Rightarrow> Response \<times> ('b, 'w) Engine" where
  [engine_defs]: "handleQUIT cmd e =
     (ResponseBye, on_sm (\<lambda>m. snd (Terminate m)) (sm_command CmdQUIT e))"

definition handleVRFY :: "Command \<Rightarrow> ('b, 'w) Engine \<Rightarrow> Response \<times> ('b, 'w) Engine" where
  [engine_defs]: "handleVRFY cmd e =
     (if \<not> x_VRFY (Extensions (e_config e)) then (ResponseCommandNotImplemented, e)
      else (NewResponse Reply252CannotVRFY ''Cannot VRFY user; try RCPT to attempt delivery'', e))"

definition handleHELP :: "Command \<Rightarrow> ('b, 'w) Engine \<Rightarrow> Response \<times> ('b, 'w) Engine" where
  [engine_defs]: "handleHELP cmd e =
     (if \<not> x_HELP (Extensions (e_config e)) then (ResponseCommandNotImplemented, e)
      else
       (NewMultilineResponse Reply214HelpMessage
          [''Supported commands:'', ''HELO EHLO MAIL RCPT DATA'',
           ''RSET NOOP QUIT HELP'' @
             (if x_STARTTLS (Extensions (e_config e)) \<and> cf_TLSPolicy (e_config e) \<noteq> TLSDisabled
                 \<and> cf_TLSProvider (e_config e) \<noteq> None \<and> \<not> ss_TLSActive (e_state e)
              then '' STARTTLS'' else []),
           ''For more information, consult RFC 5321''], e))"

definition handleSTARTTLS :: "Command \<Rightarrow> ('b, 'w) Engine \<Rightarrow> Response \<times> ('b, 'w) Engine" where
  [engine_defs]: "handleSTARTTLS cmd e =
     (if cf_TLSPolicy (e_config e) = TLSDisabled then (ResponseCommandNotImplemented, e)
      else if ss_TLSActive (e_state e) then (NewResponse Reply503BadSequence ''TLS already active'', e)
      else if cf_TLSProvider (e_config e) = None then
        (NewResponse Reply454TLSNotAvailable ''TLS not available'', e)
      else (NewResponse Reply220ServiceReady ''Ready to start TLS'',
            set_state StateStartTLS (sm_command CmdSTARTTLS e)))"

definition handleCommand ::
    "'w Runtime \<Rightarrow> Command \<Rightarrow> ('b, 'w) Engine \<Rightarrow> go_panic + Response \<times> ('b, 'w) Engine" where
  [engine_defs]: "handleCommand rt cmd e =
     (case cmd_Verb cmd of
        CmdHELO \<Rightarrow> Inr (handleHELO rt cmd e)
      | CmdEHLO \<Rightarrow> Inr (handleEHLO rt cmd e)
      | CmdMAIL \<Rightarrow> Inr (handleMAIL rt cmd e)
      | CmdRCPT \<Rightarrow> handleRCPT rt cmd e
      | CmdDATA \<Rightarrow> handleDATA rt cmd e
      | CmdRSET \<Rightarrow> Inr (handleRSET rt cmd e)
      | CmdNOOP \<Rightarrow> Inr (handleNOOP cmd e)
      | CmdQUIT \<Rightarrow> Inr (handleQUIT cmd e)
      | CmdVRFY \<Rightarrow> Inr (handleVRFY cmd e)
      | CmdHELP \<Rightarrow> Inr (handleHELP cmd e)
      | CmdSTARTTLS \<Rightarrow> Inr (handleSTARTTLS cmd e)
      | _ \<Rightarrow> Inr (ResponseCommandNotImplemented, e))"

section \<open>The session\<close>

definition tls_active :: "TLSConnectionState \<Rightarrow> ('b, 'w) Engine \<Rightarrow> ('b, 'w) Engine" where
  [engine_defs]: "tls_active ts e =
     e\<lparr>e_state := (e_state e)\<lparr>ss_TLSActive := True, ss_TLSState := Some ts\<rparr>,
       e_conn := ResetReader (e_conn e)\<rparr>"

text \<open>The handshake under a deadline that is cleared whatever its outcome, and the return to
  the initial state after a successful one.\<close>

definition tls_handshake ::
    "'w Runtime \<Rightarrow> TLSConfig \<Rightarrow> ('b, 'w) Engine \<Rightarrow> (goerror + TLSConnectionState) \<times> ('b, 'w) Engine" where
  [engine_defs]: "tls_handshake rt tlsConfig e =
     (let timeout = (if CommandTimeout (Limits (e_config e)) = 0 then 30 * Second
                     else CommandTimeout (Limits (e_config e)));
          (now, e1) = engine_now rt e;
          e2 = set_write_deadline (Some (now + timeout))
                 (set_read_deadline (Some (now + timeout)) e1);
          (res, c) = Conn_UpgradeTLS rt tlsConfig (bc_conn (e_conn e2))
      in (res, set_write_deadline None
                 (set_read_deadline None (e2\<lparr>e_conn := (e_conn e2)\<lparr>bc_conn := c\<rparr>\<rparr>))))"

definition tls_restart :: "'w Runtime \<Rightarrow> TLSConnectionState \<Rightarrow> ('b, 'w) Engine \<Rightarrow> ('b, 'w) Engine" where
  [engine_defs]: "tls_restart rt ts e =
     (let e1 = resetTransaction rt
                 (set_state StateGreeted (on_sm (\<lambda>m. snd (TLSComplete m)) (tls_active ts e)))
      in run_hook (\<lambda>h i. OnTLSUpgrade h ts i)
           (e1\<lparr>e_state := (e_state e1)\<lparr>ss_ClientHostname := []\<rparr>\<rparr>))"

definition performTLSUpgrade ::
    "'w Runtime \<Rightarrow> ('b, 'w) Engine \<Rightarrow> go_panic + goerror option \<times> ('b, 'w) Engine" where
  [engine_defs]: "performTLSUpgrade rt e =
     (case cf_TLSProvider (e_config e) of
        None \<Rightarrow> Inl NilDereference
      | Some getConfig \<Rightarrow>
          (case getConfig (e_world e) of
             (Inl err, w) \<Rightarrow> Inr (Some (ErrWrap ''failed to get TLS config: '' err), e\<lparr>e_world := w\<rparr>)
           | (Inr tlsConfig, w) \<Rightarrow>
               (case tls_handshake rt tlsConfig (e\<lparr>e_world := w\<rparr>) of
                  (Inl err, e1) \<Rightarrow> Inr (Some (ErrWrap ''TLS handshake failed: '' err), e1)
                | (Inr ts, e1) \<Rightarrow> Inr (None, tls_restart rt ts e1))))"

definition bump_errors :: "('b, 'w) Engine \<Rightarrow> ('b, 'w) Engine" where
  [engine_defs]: "bump_errors e =
     e\<lparr>e_state := (e_state e)\<lparr>ss_ConsecutiveErrors := i64 (ss_ConsecutiveErrors (e_state e) + 1)\<rparr>\<rparr>"

text \<open>A line that does not parse: count the error, and give up at the limit.\<close>

definition reject_line :: "goerror \<Rightarrow> ('b, 'w) Engine \<Rightarrow> goerror option \<times> ('b, 'w) Engine" where
  [engine_defs]: "reject_line err e =
     (let e1 = bump_errors e in
      case checkErrorLimit e1 of
        Some checkErr \<Rightarrow>
          (Some checkErr,
           on_sm (\<lambda>m. snd (Abort m))
             (snd (writeResponse
                (NewResponse Reply421ServiceNotAvailable ''Too many errors, closing connection'') e1)))
      | None \<Rightarrow> (Some err, snd (writeResponse ResponseSyntaxError e1)))"

definition command_hook :: "Command \<Rightarrow> ('b, 'w) Engine \<Rightarrow> goerror option \<times> ('b, 'w) Engine" where
  [engine_defs]: "command_hook cmd e =
     (case Hooks (e_config e) of
        None \<Rightarrow> (None, e)
      | Some h \<Rightarrow>
          (case OnCommand h cmd (session_info e) (e_world e) of (r, w) \<Rightarrow> (r, e\<lparr>e_world := w\<rparr>)))"

definition send_reply :: "Response \<Rightarrow> ('b, 'w) Engine \<Rightarrow> goerror option \<times> ('b, 'w) Engine" where
  [engine_defs]: "send_reply resp e =
     (case writeResponse resp e of
        (Some err, e1) \<Rightarrow> (Some err, e1)
      | (None, e1) \<Rightarrow>
          (None,
           if IsPositive (r_Code resp) then e1\<lparr>e_state := (e_state e1)\<lparr>ss_ConsecutiveErrors := 0\<rparr>\<rparr>
           else e1))"

definition dispatch ::
    "'w Runtime \<Rightarrow> Command \<Rightarrow> ('b, 'w) Engine \<Rightarrow> go_panic + goerror option \<times> ('b, 'w) Engine" where
  [engine_defs]: "dispatch rt cmd e =
     (case command_hook cmd e of
        (Some err, e1) \<Rightarrow> Inr (Some err, snd (writeResponse ResponseTransactionFailed e1))
      | (None, e1) \<Rightarrow>
          if \<not> sm_IsCommandAllowed (cmd_Verb cmd) (e_sm e1) then
            Inr (None, snd (writeResponse ResponseBadSequence (bump_errors e1)))
          else
           (case handleCommand rt cmd e1 of
              Inl p \<Rightarrow> Inl p
            | Inr (resp, e2) \<Rightarrow> Inr (send_reply resp e2)))"

definition command_timeout :: "SessionLimits \<Rightarrow> duration" where
  [engine_defs]: "command_timeout l = (if CommandTimeout l = 0 then IdleTimeout l else CommandTimeout l)"

definition processOneCommand ::
    "'w Runtime \<Rightarrow> ('b, 'w) Engine \<Rightarrow> go_panic + goerror option \<times> ('b, 'w) Engine" where
  [engine_defs]: "processOneCommand rt e =
     (case readLine rt (command_timeout (Limits (e_config e))) e of
        (Inl err, e1) \<Rightarrow> Inr (Some err, e1)
      | (Inr line, e1) \<Rightarrow>
          (let e2 = e1\<lparr>e_stats := (e_stats e1)\<lparr>CommandCount := i64 (CommandCount (e_stats e1) + 1)\<rparr>\<rparr> in
           case ParseCommand (rt_Unicode rt) (e_maxCommandLength e2) line of
             Inl err \<Rightarrow> Inr (reject_line err e2)
           | Inr cmd \<Rightarrow> dispatch rt cmd e2))"

text \<open>One iteration of the loop of \<open>Run\<close>: go on, return, or panic.\<close>

datatype (dead 'b, dead 'w) iteration =
    Continue "('b, 'w) Engine" | Return "goerror option" "('b, 'w) Engine" | Panicked go_panic

definition leave ::
    "'w Runtime \<Rightarrow> DisconnectReason \<Rightarrow> goerror option \<Rightarrow> ('b, 'w) Engine \<Rightarrow> ('b, 'w) iteration" where
  [engine_defs]: "leave rt reason err e =
     (case handleDisconnect rt reason err e of (r, e') \<Rightarrow> Return r e')"

definition after_error :: "'w Runtime \<Rightarrow> goerror \<Rightarrow> ('b, 'w) Engine \<Rightarrow> ('b, 'w) iteration" where
  [engine_defs]: "after_error rt err e =
     (if IsTerminal (sm_state (e_sm e)) then leave rt DisconnectNormal None e
      else if is_timeout err then leave rt DisconnectTimeout (Some err) e
      else if isIOError err then leave rt DisconnectError (Some err) e
      else Continue e)"

definition run_step :: "'w Runtime \<Rightarrow> ('b, 'w) Engine \<Rightarrow> ('b, 'w) iteration" where
  [engine_defs]: "run_step rt e =
     (case ctx_done rt e of
        (Some err, e1) \<Rightarrow> leave rt DisconnectTimeout (Some err) e1
      | (None, e1) \<Rightarrow>
          if IsTerminal (sm_state (e_sm e1)) then leave rt DisconnectNormal None e1
          else if ss_State (e_state e1) = StateStartTLS then
            (case performTLSUpgrade rt e1 of
               Inl p \<Rightarrow> Panicked p
             | Inr (Some err, e2) \<Rightarrow> leave rt DisconnectTLSFailure (Some err) e2
             | Inr (None, e2) \<Rightarrow> Continue e2)
          else
            (case processOneCommand rt e1 of
               Inl p \<Rightarrow> Panicked p
             | Inr (Some err, e2) \<Rightarrow> after_error rt err e2
             | Inr (None, e2) \<Rightarrow> Continue e2))"

text \<open>The loop itself; \<^const>\<open>None\<close> is the value of a loop that never returns.\<close>

partial_function (option) run_loop ::
    "'w Runtime \<Rightarrow> ('b, 'w) Engine \<Rightarrow> (go_panic + goerror option \<times> ('b, 'w) Engine) option" where
  [code]: "run_loop rt e =
     (case run_step rt e of
        Continue e' \<Rightarrow> run_loop rt e'
      | Return r e' \<Rightarrow> Some (Inr (r, e'))
      | Panicked p \<Rightarrow> Some (Inl p))"

definition Run ::
    "'w Runtime \<Rightarrow> ('b, 'w) Engine \<Rightarrow> (go_panic + goerror option \<times> ('b, 'w) Engine) option" where
  [engine_defs]: "Run rt e =
     (case Connect (e_sm e) of
        (Some err, m) \<Rightarrow> Some (Inr (Some err, e\<lparr>e_sm := m\<rparr>))
      | (None, m) \<Rightarrow>
          (let e1 = run_hook OnConnect (e\<lparr>e_sm := m\<rparr>) in
           case writeResponse (buildGreeting e1) e1 of
             (Some err, e2) \<Rightarrow> Some (Inr (handleDisconnect rt DisconnectError (Some err) e2))
           | (None, e2) \<Rightarrow>
               (case Greet (e_sm e2) of
                  (Some err, m2) \<Rightarrow> Some (Inr (Some err, e2\<lparr>e_sm := m2\<rparr>))
                | (None, m2) \<Rightarrow> run_loop rt (set_state StateGreeted (e2\<lparr>e_sm := m2\<rparr>)))))"

definition Close :: "('b, 'w) Engine \<Rightarrow> ('b, 'w) Engine" where
  [engine_defs]: "Close e =
     (on_sm (\<lambda>m. snd (Abort m)) (e\<lparr>e_closed := True\<rparr>))
       \<lparr>e_conn := (e_conn e)\<lparr>bc_conn := Conn_Close (bc_conn (e_conn e))\<rparr>\<rparr>"

end
