(* ===== verification/Engine_Run.thy ===== *)
theory Engine_Run
  imports Engine
begin

text \<open>
  Frame facts of the engine's operations, and termination of the session loop: what an
  operation leaves alone, how much input it can consume, and why \<open>Run\<close> returns on every
  transport.
\<close>

section \<open>What an operation leaves alone\<close>

text \<open>\<open>keeps e e'\<close>: a command handler got from \<open>e\<close> to \<open>e'\<close>. The configuration, the identity of
  the session, its TLS and authentication state and the \<open>closed\<close> flag are untouched, and input
  is only consumed.\<close>

definition keeps :: "('b, 'w) Engine \<Rightarrow> ('b, 'w) Engine \<Rightarrow> bool" where
  "keeps e e' \<longleftrightarrow>
     e_config e' = e_config e \<and> e_closed e' = e_closed e
     \<and> e_maxCommandLength e' = e_maxCommandLength e
     \<and> e_sessionID e' = e_sessionID e \<and> e_clientIP e' = e_clientIP e
     \<and> ss_TLSActive (e_state e') = ss_TLSActive (e_state e)
     \<and> ss_TLSState (e_state e') = ss_TLSState (e_state e)
     \<and> ss_Authenticated (e_state e') = ss_Authenticated (e_state e)
     \<and> conn_size (e_conn e') \<le> conn_size (e_conn e)"

lemma keeps_refl [simp]: "keeps e e"
  by (simp add: keeps_def)

lemma keeps_trans [trans]: "keeps e e' \<Longrightarrow> keeps e' e'' \<Longrightarrow> keeps e e''"
  by (auto simp: keeps_def)

lemma keeps_world [simp]: "keeps e (e'\<lparr>e_world := w\<rparr>) = keeps e e'"
  by (simp add: keeps_def)

lemma keeps_envelope [simp]: "keeps e (e'\<lparr>e_envelope := x\<rparr>) = keeps e e'"
  by (simp add: keeps_def)

lemma keeps_stats [simp]: "keeps e (e'\<lparr>e_stats := x\<rparr>) = keeps e e'"
  by (simp add: keeps_def)

lemma keeps_run_hook [simp]: "keeps e (run_hook f e') = keeps e e'"
  by (simp add: run_hook_def split: option.split)

lemma keeps_now [simp]: "keeps e (snd (engine_now rt e')) = keeps e e'"
  by (simp add: engine_now_def case_prod_beta)

lemma keeps_ctx_done [simp]: "keeps e (snd (ctx_done rt e')) = keeps e e'"
  by (simp add: ctx_done_def case_prod_beta)

lemma keeps_set_read_deadline [simp]: "keeps e (set_read_deadline d e') = keeps e e'"
  by (simp add: keeps_def set_read_deadline_def)

lemma keeps_set_state [simp]: "keeps e (set_state s e') = keeps e e'"
  by (simp add: keeps_def set_state_def)

lemma keeps_on_sm [simp]: "keeps e (on_sm f e') = keeps e e'"
  by (simp add: keeps_def on_sm_def)

lemma keeps_sm_command [simp]: "keeps e (sm_command c e') = keeps e e'"
  by (simp add: sm_command_def)

lemma keeps_add_bytes_read [simp]: "keeps e (add_bytes_read n e') = keeps e e'"
  by (simp add: add_bytes_read_def)

lemma keeps_resetTransaction [simp]: "keeps e (resetTransaction rt e') = keeps e e'"
  by (simp add: resetTransaction_def split: option.split)

lemma keeps_bump_errors [simp]: "keeps e (bump_errors e') = keeps e e'"
  by (simp add: keeps_def bump_errors_def)

lemma keeps_writeResponse [simp]: "keeps e (snd (writeResponse r e')) = keeps e e'"
  by (simp add: keeps_def writeResponse_def case_prod_beta)

lemma keeps_state:
  assumes "keeps e e'"
  shows "keeps e (e'\<lparr>e_state := (e_state e')\<lparr>ss_ClientHostname := h\<rparr>\<rparr>)"
    and "keeps e (e'\<lparr>e_state := (e_state e')\<lparr>ss_ConsecutiveErrors := n\<rparr>\<rparr>)"
  using assms by (simp_all add: keeps_def)

lemma keeps_readBytes:
  "ReadBytes rt (e_conn e) w = (((d, x), b), w') \<Longrightarrow> keeps e (e\<lparr>e_conn := b, e_world := w'\<rparr>)"
  by (cases x) (auto simp: keeps_def dest: ReadBytes_size ReadBytes_error_size)

lemma keeps_read_data_line: "keeps e (snd (read_data_line rt timeout e))"
proof -
  obtain r e1 where c: "ctx_done rt e = (r, e1)" by fastforce
  then have "keeps e e1" using keeps_ctx_done [of e rt e] by simp
  obtain d x b w where rd: "ReadBytes rt (e_conn e1) (e_world e1) = (((d, x), b), w)"
    by (metis prod.exhaust)
  from \<open>keeps e e1\<close> keeps_readBytes [OF rd] have "keeps e (e1\<lparr>e_conn := b, e_world := w\<rparr>)"
    by (rule keeps_trans)
  with c rd \<open>keeps e e1\<close> show ?thesis
    by (auto simp: read_data_line_def case_prod_beta split: option.split)
qed

lemma keeps_stream_loop: "keeps e (snd (snd (stream_loop rt wr timeout n b e)))"
proof (induction rt wr timeout n b e rule: stream_loop.induct)
  case (1 rt wr timeout n b e)
  obtain r e1 where r: "read_data_line rt timeout e = (r, e1)" by fastforce
  then have e1: "keeps e e1" using keeps_read_data_line [of e rt timeout] by simp
  show ?case
  proof (cases r)
    case (Inl err)
    with r e1 show ?thesis by (simp add: stream_loop.simps [of rt wr timeout n b e])
  next
    case (Inr line)
    obtain k x b' w where wr: "eb_Write wr (UnstuffLine line) b (e_world e1) = (((k, x), b'), w)"
      by (metis prod.exhaust)
    have "keeps e (snd (snd (stream_loop rt wr timeout (i64 (n + int k)) b' (e1\<lparr>e_world := w\<rparr>))))"
      if "\<not> IsTerminator line" "\<not> line_too_long (Limits (e_config e1)) line"
        "\<not> message_too_large (Limits (e_config e1)) n (UnstuffLine line)" "x = None"
    proof -
      have "keeps e (e1\<lparr>e_world := w\<rparr>)" using e1 by simp
      moreover have "keeps (e1\<lparr>e_world := w\<rparr>)
          (snd (snd (stream_loop rt wr timeout (i64 (n + int k)) b' (e1\<lparr>e_world := w\<rparr>))))"
        using "1.IH" [OF r [symmetric] Inr that(1-3) wr [symmetric] refl refl that(4)] .
      ultimately show ?thesis by (rule keeps_trans)
    qed
    with r Inr e1 wr show ?thesis
      by (simp add: stream_loop.simps [of rt wr timeout n b e] split: option.split)
  qed
qed

lemma keeps_streamData: "keeps e (snd (snd (streamData rt wr timeout b e)))"
proof -
  obtain t e1 where now: "engine_now rt e = (t, e1)" by fastforce
  let ?e = "set_read_deadline (Some (t + timeout)) e1"
  have "keeps e ?e" using now keeps_now [of e rt e] by simp
  with keeps_stream_loop [of ?e rt wr timeout 0 b] have "keeps e (snd (snd (stream_loop rt wr timeout 0 b ?e)))"
    using keeps_trans by blast
  with now show ?thesis by (simp add: streamData_def case_prod_beta)
qed

lemma keeps_abandon_data [simp]: "keeps e (snd (abandon_data r e')) = keeps e e'"
  by (simp add: abandon_data_def)

lemma keeps_store_message [simp]: "keeps e (snd (store_message env e')) = keeps e e'"
  by (simp add: store_message_def case_prod_beta split: option.split sum.split)

lemma keeps_message_accepted [simp]: "keeps e (snd (message_accepted env e')) = keeps e e'"
  by (simp add: message_accepted_def Let_def)

lemma keeps_finish_data [simp]: "keeps e (snd (finish_data wr b e')) = keeps e e'"
  by (simp add: finish_data_def case_prod_beta split: option.split sum.split)

lemma keeps_receive_data: "keeps e (snd (receive_data rt b e))"
proof -
  have "keeps e (snd (snd (streamData rt wr timeout b1 (e\<lparr>e_world := w\<rparr>))))" for wr timeout b1 w
    using keeps_streamData [of "e\<lparr>e_world := w\<rparr>"] keeps_trans [of e "e\<lparr>e_world := w\<rparr>"] by simp
  then show ?thesis
    by (simp add: receive_data_def case_prod_beta split: option.split sum.split)
qed

lemma keeps_handleDATA:
  assumes "handleDATA rt cmd e = Inr (resp, e')"
  shows "keeps e e'"
proof -
  let ?w = "writeResponse ResponseStartMailInput
      (run_hook OnDataStart (set_state StateData (sm_command CmdDATA e)))"
  have w: "keeps e (snd ?w)" by simp
  from assms have "e' = on_sm (\<lambda>m. snd (Abort m)) (snd ?w) \<or> (\<exists>b. e' = snd (receive_data rt b (snd ?w)))"
    by (auto simp: handleDATA_def case_prod_beta split: option.splits) (metis snd_conv)
  then show ?thesis
  proof
    assume "\<exists>b. e' = snd (receive_data rt b (snd ?w))"
    then obtain b where "e' = snd (receive_data rt b (snd ?w))" by blast
    with keeps_trans [OF w keeps_receive_data [of "snd ?w" rt b]] show ?thesis by simp
  qed (use w in simp)
qed

lemma keeps_identify: "keeps e (identify rt verb h e)"
  by (simp add: identify_def keeps_state)

lemma keeps_validate_sender [simp]: "keeps e (snd (validate_sender p e')) = keeps e e'"
  by (simp add: validate_sender_def case_prod_beta split: option.split)

lemma keeps_handleMAIL: "keeps e (snd (handleMAIL rt cmd e))"
  by (auto simp: handleMAIL_def case_prod_beta Let_def split: sum.split option.split)

lemma keeps_accept_recipient [simp]: "keeps e (snd (accept_recipient p b e')) = keeps e e'"
  by (simp add: accept_recipient_def case_prod_beta split: option.split)

lemma keeps_handleRCPT: "handleRCPT rt cmd e = Inr (resp, e') \<Longrightarrow> keeps e e'"
proof -
  assume "handleRCPT rt cmd e = Inr (resp, e')"
  moreover have acc: "accept_recipient p b f = (r, g) \<Longrightarrow> keeps e f \<Longrightarrow> keeps e g" for p b f r g
    using keeps_accept_recipient [of e p b f] by simp
  ultimately show "keeps e e'"
    by (auto simp: handleRCPT_def case_prod_beta Let_def split: sum.splits option.splits if_splits
        dest: acc)
qed

lemma keeps_handleCommand:
  assumes "handleCommand rt cmd e = Inr (resp, e')"
  shows "keeps e e'"
proof -
  have other: "keeps e (snd (handleHELO rt cmd e))" "keeps e (snd (handleEHLO rt cmd e))"
    "keeps e (snd (handleRSET rt cmd e))" "keeps e (snd (handleNOOP cmd e))"
    "keeps e (snd (handleQUIT cmd e))" "keeps e (snd (handleVRFY cmd e))"
    "keeps e (snd (handleHELP cmd e))" "keeps e (snd (handleSTARTTLS cmd e))"
    by (simp_all add: handleHELO_def handleEHLO_def handleRSET_def handleNOOP_def handleQUIT_def
        handleVRFY_def handleHELP_def handleSTARTTLS_def keeps_identify Let_def split: sum.split)
  show ?thesis
    using assms other keeps_handleMAIL [of e rt cmd]
    by (auto simp: handleCommand_def split: CommandVerb.splits
        intro: keeps_handleRCPT keeps_handleDATA)
qed

section \<open>Termination of the session loop\<close>

text \<open>A command consumes input, or reports an error that ends the session.\<close>

definition fatal :: "goerror \<Rightarrow> bool" where
  "fatal err \<longleftrightarrow> is_timeout err \<or> isIOError err"

lemma sticky_fatal: "sticky err \<Longrightarrow> fatal err"
  by (auto simp: sticky_def fatal_def is_timeout_def isIOError_def)

lemma keeps_send_reply [simp]: "keeps e (snd (send_reply r e')) = keeps e e'"
proof -
  have "keeps e (f\<lparr>e_state := (e_state f)\<lparr>ss_ConsecutiveErrors := 0\<rparr>\<rparr>) = keeps e f" for f
    by (simp add: keeps_def)
  then show ?thesis by (simp add: send_reply_def case_prod_beta split: option.split)
qed

lemma keeps_reject_line [simp]: "keeps e (snd (reject_line err e')) = keeps e e'"
  by (simp add: reject_line_def Let_def split: option.split)

lemma keeps_dispatch:
  assumes "dispatch rt cmd e = Inr (r, e')"
  shows "keeps e e'"
proof -
  let ?h = "command_hook cmd e"
  have hook: "keeps e (snd ?h)" by (simp add: command_hook_def case_prod_beta split: option.split)
  from assms consider "e' = snd (writeResponse ResponseTransactionFailed (snd ?h))"
    | "e' = snd (writeResponse ResponseBadSequence (bump_errors (snd ?h)))"
    | resp e2 where "handleCommand rt cmd (snd ?h) = Inr (resp, e2)" "e' = snd (send_reply resp e2)"
    by (auto simp: dispatch_def case_prod_beta split: option.splits if_splits sum.splits)
  then show ?thesis
  proof cases
    case (3 resp e2)
    with keeps_trans [OF hook keeps_handleCommand [OF 3(1)]] show ?thesis by simp
  qed (use hook in simp_all)
qed

lemma readLine_keeps: "keeps e (snd (readLine rt timeout e))"
  and readLine_size: "fst (readLine rt timeout e) = Inr line \<Longrightarrow>
    conn_size (e_conn (snd (readLine rt timeout e))) < conn_size (e_conn e)"
  and readLine_error_size: "fst (readLine rt timeout e) = Inl err \<Longrightarrow>
    conn_size (e_conn (snd (readLine rt timeout e))) < conn_size (e_conn e) \<or> fatal err"
proof -
  obtain d x b w where rd: "ReadLine rt timeout (e_conn e) (e_world e) = (((d, x), b), w)"
    by (metis prod.exhaust)
  have "conn_size b \<le> conn_size (e_conn e)" using ReadLine_size [OF rd] by (cases x) auto
  with rd show "keeps e (snd (readLine rt timeout e))"
    by (auto simp: readLine_def Let_def keeps_def add_bytes_read_def split: option.split)
  show "fst (readLine rt timeout e) = Inr line \<Longrightarrow>
      conn_size (e_conn (snd (readLine rt timeout e))) < conn_size (e_conn e)"
    using rd ReadLine_size(1) [OF rd]
    by (auto simp: readLine_def Let_def add_bytes_read_def split: option.splits)
  show "fst (readLine rt timeout e) = Inl err \<Longrightarrow>
      conn_size (e_conn (snd (readLine rt timeout e))) < conn_size (e_conn e) \<or> fatal err"
    using rd ReadLine_size(2) [OF rd] sticky_fatal
    by (auto simp: readLine_def Let_def split: option.splits)
qed

lemma processOneCommand_cases:
  assumes "processOneCommand rt e = res"
  obtains (failed) err e1 where "readLine rt (command_timeout (Limits (e_config e))) e = (Inl err, e1)"
      "res = Inr (Some err, e1)"
  | (rejected) line e1 err where "readLine rt (command_timeout (Limits (e_config e))) e = (Inr line, e1)"
      "ParseCommand (rt_Unicode rt) (e_maxCommandLength e1) line = Inl err"
      "res = Inr (reject_line err (e1\<lparr>e_stats := (e_stats e1)\<lparr>CommandCount := i64 (CommandCount (e_stats e1) + 1)\<rparr>\<rparr>))"
  | (parsed) line e1 cmd where "readLine rt (command_timeout (Limits (e_config e))) e = (Inr line, e1)"
      "ParseCommand (rt_Unicode rt) (e_maxCommandLength e1) line = Inr cmd"
      "res = dispatch rt cmd (e1\<lparr>e_stats := (e_stats e1)\<lparr>CommandCount := i64 (CommandCount (e_stats e1) + 1)\<rparr>\<rparr>)"
  using assms by (auto simp: processOneCommand_def Let_def split: prod.splits sum.splits)

lemma processOneCommand_progress:
  assumes "processOneCommand rt e = Inr (r, e')"
  shows "keeps e e'"
    and "conn_size (e_conn e') < conn_size (e_conn e) \<or> (\<exists>err. r = Some err \<and> fatal err)"
proof -
  let ?read = "readLine rt (command_timeout (Limits (e_config e))) e"
  have "keeps e e' \<and>
      (conn_size (e_conn e') < conn_size (e_conn e) \<or> (\<exists>err. r = Some err \<and> fatal err))"
    using assms
  proof (cases rule: processOneCommand_cases)
    case (failed err e1)
    with readLine_keeps [of e rt] readLine_error_size [of rt _ e err] show ?thesis
      by (metis fst_conv snd_conv Inr_inject)
  next
    case (rejected line e1 err)
    let ?e1 = "e1\<lparr>e_stats := (e_stats e1)\<lparr>CommandCount := i64 (CommandCount (e_stats e1) + 1)\<rparr>\<rparr>"
    from rejected readLine_keeps [of e rt] have "keeps e e1" by (metis snd_conv)
    moreover from rejected(3) have "e' = snd (reject_line err ?e1)" by (metis Inr_inject snd_conv)
    moreover have "keeps e1 (snd (reject_line err ?e1))" by simp
    moreover have "conn_size (e_conn e1) < conn_size (e_conn e)"
      using rejected(1) readLine_size [of rt _ e line] by (metis fst_conv snd_conv)
    ultimately show ?thesis by (auto simp: keeps_def)
  next
    case (parsed line e1 cmd)
    let ?e1 = "e1\<lparr>e_stats := (e_stats e1)\<lparr>CommandCount := i64 (CommandCount (e_stats e1) + 1)\<rparr>\<rparr>"
    from parsed readLine_keeps [of e rt] have "keeps e e1" by (metis snd_conv)
    moreover from keeps_dispatch [OF parsed(3) [symmetric]] have "keeps ?e1 e'" .
    then have "keeps e1 e'" by (simp add: keeps_def)
    moreover have "conn_size (e_conn e1) < conn_size (e_conn e)"
      using parsed(1) readLine_size [of rt _ e line] by (metis fst_conv snd_conv)
    ultimately show ?thesis by (auto simp: keeps_def)
  qed
  then show "keeps e e'"
    and "conn_size (e_conn e') < conn_size (e_conn e) \<or> (\<exists>err. r = Some err \<and> fatal err)" by auto
qed

text \<open>Only \<open>STARTTLS\<close> itself enters the \<open>StartTLS\<close> state, and only while TLS is inactive.\<close>

lemma ss_State_simps [simp]:
  "ss_State (e_state (set_state s e)) = s"
  "ss_State (e_state (run_hook f e)) = ss_State (e_state e)"
  "ss_State (e_state (snd (engine_now rt e))) = ss_State (e_state e)"
  "ss_State (e_state (snd (ctx_done rt e))) = ss_State (e_state e)"
  "ss_State (e_state (set_read_deadline d e)) = ss_State (e_state e)"
  "ss_State (e_state (set_write_deadline d e)) = ss_State (e_state e)"
  "ss_State (e_state (on_sm g e)) = ss_State (e_state e)"
  "ss_State (e_state (sm_command c e)) = ss_State (e_state e)"
  "ss_State (e_state (add_bytes_read n e)) = ss_State (e_state e)"
  "ss_State (e_state (snd (writeResponse r e))) = ss_State (e_state e)"
  "ss_State (e_state (resetTransaction rt e)) = ss_State (e_state e)"
  "ss_State (e_state (bump_errors e)) = ss_State (e_state e)"
  "ss_State (e_state (snd (send_reply r e))) = ss_State (e_state e)"
  "ss_State (e_state (snd (reject_line err e))) = ss_State (e_state e)"
  "ss_State (e_state (snd (readLine rt t e))) = ss_State (e_state e)"
  "ss_State (e_state (snd (validate_sender p e))) = ss_State (e_state e)"
  "ss_State (e_state (snd (command_hook cmd e))) = ss_State (e_state e)"
  "ss_State (e_state (snd (store_message env e))) = ss_State (e_state e)"
  by (simp_all add: engine_defs case_prod_beta Let_def split: option.split sum.split)

lemma ss_State_finish_data [simp]: "ss_State (e_state (snd (finish_data wr b e))) = StateIdentified"
  by (simp add: finish_data_def abandon_data_def message_accepted_def case_prod_beta Let_def
      split: option.split sum.split)

lemma ss_State_receive_data [simp]: "ss_State (e_state (snd (receive_data rt b e))) = StateIdentified"
  by (simp add: receive_data_def abandon_data_def case_prod_beta split: option.split sum.split)

lemma starttls_entry:
  assumes "handleCommand rt cmd e = Inr (resp, e')" and "ss_State (e_state e') = StateStartTLS"
    and "ss_State (e_state e) \<noteq> StateStartTLS"
  shows "cmd_Verb cmd = CmdSTARTTLS \<and> \<not> ss_TLSActive (e_state e) \<and> cf_TLSProvider (e_config e) \<noteq> None
    \<and> cf_TLSPolicy (e_config e) \<noteq> TLSDisabled
    \<and> e' = set_state StateStartTLS (sm_command CmdSTARTTLS e)"
proof -
  have rcpt: "ss_State (e_state f) \<noteq> StateStartTLS" if "handleRCPT rt cmd e = Inr (r, f)" for r f
    using that assms(3)
    by (auto simp: handleRCPT_def accept_recipient_def case_prod_beta Let_def
        split: sum.splits option.splits if_splits)
  have data: "ss_State (e_state f) \<noteq> StateStartTLS" if "handleDATA rt cmd e = Inr (r, f)" for r f
  proof -
    have id: "receive_data rt b g = (r', f) \<Longrightarrow> ss_State (e_state f) = StateIdentified" for b g r'
      by (metis ss_State_receive_data snd_conv)
    from that show ?thesis
      by (auto simp: handleDATA_def case_prod_beta split: option.splits dest: id)
  qed
  have "ss_State (e_state (snd (handleHELO rt cmd e))) \<noteq> StateStartTLS"
    "ss_State (e_state (snd (handleEHLO rt cmd e))) \<noteq> StateStartTLS"
    "ss_State (e_state (snd (handleMAIL rt cmd e))) \<noteq> StateStartTLS"
    "ss_State (e_state (snd (handleRSET rt cmd e))) \<noteq> StateStartTLS"
    using assms(3)
    by (auto simp: handleHELO_def handleEHLO_def handleMAIL_def handleRSET_def identify_def
        case_prod_beta Let_def split: sum.split option.split)
  with assms rcpt data show ?thesis
    by (auto simp: handleCommand_def handleNOOP_def handleQUIT_def handleVRFY_def handleHELP_def
        handleSTARTTLS_def split: CommandVerb.splits if_splits)
qed

lemma processOneCommand_starttls:
  assumes "processOneCommand rt e = Inr (r, e')" and "ss_State (e_state e') = StateStartTLS"
    and "ss_State (e_state e) \<noteq> StateStartTLS"
  shows "\<not> ss_TLSActive (e_state e') \<and> cf_TLSProvider (e_config e') \<noteq> None
    \<and> cf_TLSPolicy (e_config e') \<noteq> TLSDisabled"
proof -
  have before: "ss_State (e_state (snd (readLine rt t e))) \<noteq> StateStartTLS" for t
    using assms(3) by simp
  from assms(1) obtain cmd f where disp: "dispatch rt cmd f = Inr (r, e')"
    and f: "ss_State (e_state f) \<noteq> StateStartTLS"
  proof (cases rule: processOneCommand_cases)
    case (failed err e1)
    with before have "ss_State (e_state e1) \<noteq> StateStartTLS" by (metis snd_conv)
    with failed assms(2) show thesis by simp
  next
    case (rejected line e1 err)
    with before have "ss_State (e_state e1) \<noteq> StateStartTLS" by (metis snd_conv)
    moreover have "e' = snd (reject_line err (e1\<lparr>e_stats := (e_stats e1)
        \<lparr>CommandCount := i64 (CommandCount (e_stats e1) + 1)\<rparr>\<rparr>))"
      using rejected(3) by (metis Inr_inject snd_conv)
    then have "ss_State (e_state e') = ss_State (e_state e1)" by simp
    ultimately show thesis using assms(2) by simp
  next
    case (parsed line e1 cmd)
    with before have "ss_State (e_state e1) \<noteq> StateStartTLS" by (metis snd_conv)
    with that parsed(3) show thesis by simp
  qed
  let ?h = "snd (command_hook cmd f)"
  from disp f assms(2) obtain resp e2 where h: "handleCommand rt cmd ?h = Inr (resp, e2)"
    and e': "e' = snd (send_reply resp e2)"
    by (auto simp: dispatch_def case_prod_beta split: option.splits if_splits sum.splits)
  with assms(2) have "ss_State (e_state e2) = StateStartTLS" by simp
  from starttls_entry [OF h this] f
  have "\<not> ss_TLSActive (e_state ?h)" "cf_TLSProvider (e_config ?h) \<noteq> None"
    "cf_TLSPolicy (e_config ?h) \<noteq> TLSDisabled" by simp_all
  moreover have "keeps ?h e'" using keeps_handleCommand [OF h] e' by simp
  ultimately show ?thesis by (simp add: keeps_def)
qed

text \<open>The rank of a session: how far it is from having TLS active for good.\<close>

definition tls_rank :: "('b, 'w) Engine \<Rightarrow> nat" where
  "tls_rank e =
     (if ss_TLSActive (e_state e) then (if ss_State (e_state e) = StateStartTLS then 1 else 0)
      else (if ss_State (e_state e) = StateStartTLS then 2 else 3))"

lemma tls_restart_active:
  "ss_TLSActive (e_state (tls_restart rt ts e))" "ss_State (e_state (tls_restart rt ts e)) = StateGreeted"
  by (simp_all add: tls_restart_def run_hook_def resetTransaction_def set_state_def on_sm_def
      tls_active_def Let_def split: option.split)

lemma performTLSUpgrade_success:
  assumes "performTLSUpgrade rt e = Inr (None, e')"
  obtains getConfig tlsConfig w ts e1 where "cf_TLSProvider (e_config e) = Some getConfig"
    and "getConfig (e_world e) = (Inr tlsConfig, w)"
    and "tls_handshake rt tlsConfig (e\<lparr>e_world := w\<rparr>) = (Inr ts, e1)"
    and "e' = tls_restart rt ts e1"
  using assms by (auto simp: performTLSUpgrade_def split: option.splits prod.splits sum.splits)

lemma performTLSUpgrade_active:
  assumes "performTLSUpgrade rt e = Inr (None, e')"
  shows "ss_TLSActive (e_state e') \<and> ss_State (e_state e') = StateGreeted"
  using assms by (rule performTLSUpgrade_success) (simp add: tls_restart_active)

lemma after_error_Continue:
  "after_error rt err e = Continue e' \<Longrightarrow> e' = e \<and> \<not> fatal err \<and> \<not> IsTerminal (sm_state (e_sm e))"
  by (auto simp: after_error_def leave_def fatal_def split: if_splits prod.splits)

lemma run_step_Continue:
  assumes "run_step rt e = Continue e'"
  shows "tls_rank e' < tls_rank e \<or>
    tls_rank e' = tls_rank e \<and> conn_size (e_conn e') < conn_size (e_conn e)"
proof -
  obtain d e1 where c: "ctx_done rt e = (d, e1)" by fastforce
  then have e1: "e_conn e1 = e_conn e" "e_state e1 = e_state e"
    by (auto simp: ctx_done_def split: prod.splits)
  from assms c have no_leave: "d = None" by (auto simp: run_step_def leave_def split: option.splits prod.splits)
  show ?thesis
  proof (cases "ss_State (e_state e1) = StateStartTLS")
    case True
    with assms c no_leave have "performTLSUpgrade rt e1 = Inr (None, e')"
      by (auto simp: run_step_def leave_def split: option.splits sum.splits prod.splits if_splits)
    from performTLSUpgrade_active [OF this] True e1 show ?thesis by (simp add: tls_rank_def)
  next
    case False
    with assms c no_leave obtain r where p: "processOneCommand rt e1 = Inr (r, e')"
      and r: "\<forall>err. r = Some err \<longrightarrow> \<not> fatal err"
      by (auto simp: run_step_def leave_def split: option.splits sum.splits prod.splits if_splits
          dest: after_error_Continue)
    from processOneCommand_progress [OF p] r have "keeps e1 e'"
      and less: "conn_size (e_conn e') < conn_size (e_conn e)" by (auto simp: e1)
    then have "ss_TLSActive (e_state e') = ss_TLSActive (e_state e)" by (simp add: keeps_def e1)
    with False less processOneCommand_starttls [OF p] e1 show ?thesis
      by (auto simp: tls_rank_def)
  qed
qed

lemma run_loop_total: "\<exists>r. run_loop rt e = Some r"
proof (induction e rule: wf_induct_rule [OF wf_measures [of "[tls_rank, \<lambda>e. conn_size (e_conn e)]"]])
  case (1 e)
  show ?case
  proof (cases "run_step rt e")
    case (Continue e')
    with run_step_Continue have "(e', e) \<in> measures [tls_rank, \<lambda>e. conn_size (e_conn e)]"
      by auto
    with "1.IH" Continue show ?thesis by (simp add: run_loop.simps [of rt e])
  qed (simp_all add: run_loop.simps [of rt e])
qed

text \<open>
  (C11) A session always ends: whatever the client sends, whatever the transport, the policies,
  the hooks and the clock do, \<open>Run\<close> returns or panics after finitely many iterations, for every
  transport that has finitely many events before its end of file. No loop of the engine can
  spin: each iteration consumes input, completes the one TLS upgrade a session can make, or
  returns.
\<close>

theorem Run_returns: "\<exists>r. Run rt e = Some r"
  using run_loop_total by (auto simp: Run_def Let_def split: option.split prod.split)

end
