(* ===== verification/Engine_Inv.thy ===== *)
theory Engine_Inv
  imports Engine_Run
begin

text \<open>
  The invariant of a running session and what follows from it: the protocol state machine, the
  session state the engine shows to policies and hooks, and the envelope agree with each other;
  no nil interface is dereferenced; mail is accepted only over TLS when the policy requires it;
  the configured limits hold.
\<close>

section \<open>Operations that touch only the connection, the counters and the world\<close>

definition core ::
    "('b, 'w) Engine \<Rightarrow> ('b, 'w) SessionConfig \<times> StateMachine \<times> SessionState
       \<times> ('b, 'w) EnvelopeBuilder option \<times> bool \<times> int \<times> int \<times> int" where
  "core e = (e_config e, e_sm e, e_state e, e_envelope e, e_closed e, e_maxCommandLength e,
     TransactionCount (e_stats e), MessageCount (e_stats e))"

lemma core_ops:
  "core (run_hook f e) = core e"
  "core (snd (engine_now rt e)) = core e"
  "core (snd (ctx_done rt e)) = core e"
  "core (set_read_deadline d e) = core e"
  "core (set_write_deadline d e) = core e"
  "core (add_bytes_read n e) = core e"
  "core (snd (writeResponse r e)) = core e"
  "core (snd (readLine rt t e)) = core e"
  "core (snd (validate_sender p e)) = core e"
  "core (snd (command_hook cmd e)) = core e"
  "core (snd (store_message env e)) = core e"
  by (simp_all add: core_def engine_defs case_prod_beta Let_def split: option.split sum.split)

lemmas core_fields [simp] = core_ops [unfolded core_def prod.inject]

lemma core_read_data_line: "core (snd (read_data_line rt t e)) = core e"
  by (simp add: core_def read_data_line_def case_prod_beta split: option.split)

lemma core_stream_loop: "core (snd (snd (stream_loop rt wr timeout n b e))) = core e"
proof (induction rt wr timeout n b e rule: stream_loop.induct)
  case (1 rt wr timeout n b e)
  obtain r e1 where r: "read_data_line rt timeout e = (r, e1)" by fastforce
  then have e1: "core e1 = core e" using core_read_data_line [of rt timeout e] by simp
  then have w: "core (e1\<lparr>e_world := w\<rparr>) = core e" for w by (simp add: core_def)
  show ?case
  proof (cases r)
    case (Inl err)
    with r e1 show ?thesis by (simp add: stream_loop.simps [of rt wr timeout n b e])
  next
    case (Inr line)
    obtain k x b' w where wr: "eb_Write wr (UnstuffLine line) b (e_world e1) = (((k, x), b'), w)"
      by (metis prod.exhaust)
    note IH = "1.IH" [OF r [symmetric] Inr _ _ _ wr [symmetric] refl refl]
    show ?thesis
      using r Inr e1 wr w IH
      by (auto simp: stream_loop.simps [of rt wr timeout n b e] split: option.split)
  qed
qed

lemma core_streamData: "core (snd (snd (streamData rt wr timeout b e))) = core e"
proof -
  have "core (snd (snd (stream_loop rt wr timeout 0 b f))) = core f" for f
    by (rule core_stream_loop)
  then show ?thesis by (simp add: streamData_def case_prod_beta core_def)
qed

lemmas core_data_fields [simp] =
  core_read_data_line [unfolded core_def prod.inject]
  core_stream_loop [unfolded core_def prod.inject]
  core_streamData [unfolded core_def prod.inject]

lemma field_simps [simp]:
  "e_config (set_state s e) = e_config e" "e_config (on_sm f e) = e_config e"
  "e_config (sm_command c e) = e_config e" "e_config (resetTransaction rt e) = e_config e"
  "e_config (bump_errors e) = e_config e"
  "e_sm (set_state s e) = e_sm e" "e_sm (on_sm f e) = f (e_sm e)"
  "e_sm (resetTransaction rt e) = e_sm e" "e_sm (bump_errors e) = e_sm e"
  "e_envelope (set_state s e) = e_envelope e" "e_envelope (on_sm f e) = e_envelope e"
  "e_envelope (sm_command c e) = e_envelope e" "e_envelope (resetTransaction rt e) = None"
  "e_envelope (bump_errors e) = e_envelope e"
  "ss_TLSActive (e_state (set_state s e)) = ss_TLSActive (e_state e)"
  "e_state (on_sm f e) = e_state e" "e_state (sm_command c e) = e_state e"
  "e_state (resetTransaction rt e) = e_state e"
  "ss_TLSActive (e_state (bump_errors e)) = ss_TLSActive (e_state e)"
  by (simp_all add: engine_defs split: option.split)

lemma sm_state_sm_command [simp]:
  "sm_state (e_sm (sm_command c e)) = sm_state (snd (TransitionForCommand c True (e_sm e)))"
  by (simp add: sm_command_def)

section \<open>The invariant\<close>

text \<open>What the engine knows of the standard builder it is filling.\<close>

definition draft_ok :: "('b, 'w) Engine \<Rightarrow> StandardEnvelopeBuilder \<Rightarrow> bool" where
  "draft_ok e b \<longleftrightarrow>
     b_mailFrom b \<noteq> None \<and> \<not> b_finalized b \<and> b_dataWriter b = None \<and> b_data b = [] \<and> b_writers b = []
     \<and> (sm_state (e_sm e) = StateRcptTo \<longleftrightarrow> b_recipients b \<noteq> [])
     \<and> (MaxRecipients (Limits (e_config e)) > 0 \<longrightarrow>
          int (length (b_recipients b)) \<le> MaxRecipients (Limits (e_config e)))
     \<and> md_TLSActive (b_metadata b) = ss_TLSActive (e_state e) \<and> CHR 0x0A \<notin> set (b_id b)"

definition envelope_ok :: "('b, 'w) Engine \<Rightarrow> bool" where
  "envelope_ok e \<longleftrightarrow>
     (case e_envelope e of
        None \<Rightarrow> False
      | Some (StdB b) \<Rightarrow> draft_ok e b
      | Some (CustomB f b) \<Rightarrow> cf_EnvelopeFactory (e_config e) \<noteq> None)"

definition engine_inv :: "('b, 'w) Engine \<Rightarrow> bool" where
  "engine_inv e \<longleftrightarrow>
     (case sm_state (e_sm e) of
        StateGreeted \<Rightarrow> ss_State (e_state e) = StateGreeted
      | StateIdentified \<Rightarrow> ss_State (e_state e) = StateIdentified
      | StateMailFrom \<Rightarrow> ss_State (e_state e) = StateMailFrom \<and> envelope_ok e
      | StateRcptTo \<Rightarrow> ss_State (e_state e) = StateRcptTo \<and> envelope_ok e
      | StateData \<Rightarrow> ss_State (e_state e) = StateIdentified
      | StateStartTLS \<Rightarrow> ss_State (e_state e) = StateStartTLS \<and> \<not> ss_TLSActive (e_state e)
          \<and> cf_TLSProvider (e_config e) \<noteq> None
      | StateTerminated \<Rightarrow> True
      | StateAborted \<Rightarrow> True
      | _ \<Rightarrow> False)
     \<and> (cf_TLSPolicy (e_config e) = TLSRequired \<longrightarrow> \<not> ss_TLSActive (e_state e) \<longrightarrow>
          sm_state (e_sm e) \<notin> {StateMailFrom, StateRcptTo, StateData})"

text \<open>The invariant reads only the core.\<close>

lemma engine_inv_cong:
  assumes "e_config e = e_config f" "e_sm e = e_sm f" "ss_State (e_state e) = ss_State (e_state f)"
    "ss_TLSActive (e_state e) = ss_TLSActive (e_state f)" "e_envelope e = e_envelope f"
  shows "engine_inv e = engine_inv f"
  using assms
  by (simp add: engine_inv_def envelope_ok_def draft_ok_def split: State.split option.split EnvelopeBuilder.split)

lemma engine_inv_core: "core e = core f \<Longrightarrow> engine_inv e = engine_inv f"
  by (rule engine_inv_cong) (simp_all add: core_def)

lemma engine_inv_ops [simp]:
  "engine_inv (run_hook f e) = engine_inv e"
  "engine_inv (snd (writeResponse r e)) = engine_inv e"
  "engine_inv (snd (readLine rt t e)) = engine_inv e"
  "engine_inv (snd (ctx_done rt e)) = engine_inv e"
  "engine_inv (snd (validate_sender p e)) = engine_inv e"
  "engine_inv (snd (command_hook cmd e)) = engine_inv e"
  "engine_inv (bump_errors e) = engine_inv e"
  "engine_inv (e\<lparr>e_world := w\<rparr>) = engine_inv e"
  "engine_inv (e\<lparr>e_stats := st\<rparr>) = engine_inv e"
  "engine_inv (e\<lparr>e_state := (e_state e)\<lparr>ss_ConsecutiveErrors := n\<rparr>\<rparr>) = engine_inv e"
  by (rule engine_inv_cong; simp)+

lemma engine_inv_send_reply [simp]: "engine_inv (snd (send_reply r e)) = engine_inv e"
  by (rule engine_inv_cong) (simp_all add: send_reply_def case_prod_beta split: option.split)

lemma engine_inv_final:
  "sm_state (e_sm e) = StateTerminated \<or> sm_state (e_sm e) = StateAborted \<Longrightarrow> engine_inv e"
  by (auto simp: engine_inv_def)

lemma engine_inv_Abort:
  assumes "engine_inv e"
  shows "engine_inv (on_sm (\<lambda>m. snd (Abort m)) e)"
  using assms by (intro engine_inv_final)
    (cases "sm_state (e_sm e)"; simp add: sm_state_Abort engine_inv_def)

section \<open>Every handler preserves it\<close>

lemma allowed_states:
  "sm_IsCommandAllowed CmdMAIL m \<longleftrightarrow> sm_state m = StateIdentified"
  "sm_IsCommandAllowed CmdRCPT m \<longleftrightarrow> sm_state m = StateMailFrom \<or> sm_state m = StateRcptTo"
  "sm_IsCommandAllowed CmdDATA m \<longleftrightarrow> sm_state m = StateRcptTo"
  "sm_IsCommandAllowed CmdSTARTTLS m \<longleftrightarrow> sm_state m = StateIdentified"
  "sm_IsCommandAllowed CmdHELO m \<longleftrightarrow> sm_state m = StateGreeted \<or> sm_state m = StateIdentified"
  "sm_IsCommandAllowed CmdEHLO m \<longleftrightarrow> sm_state m = StateGreeted \<or> sm_state m = StateIdentified"
  "sm_IsCommandAllowed CmdRSET m \<longleftrightarrow> sm_state m \<in> {StateGreeted, StateIdentified, StateMailFrom, StateRcptTo}"
  "sm_IsCommandAllowed CmdQUIT m \<longleftrightarrow> sm_state m \<in> {StateGreeted, StateIdentified, StateMailFrom, StateRcptTo}"
  by (cases "sm_state m"; simp add: sm_IsCommandAllowed_def IsCommandAllowed_def)+

lemmas sm_eval = sm_state_simps nextStateForCommand_def InTransaction_def

lemma inv_identify:
  assumes "sm_state (e_sm e) = StateGreeted \<or> sm_state (e_sm e) = StateIdentified"
    and "verb = CmdHELO \<or> verb = CmdEHLO"
  shows "engine_inv (identify rt verb h e)"
  using assms by (auto simp: engine_inv_def identify_def sm_eval)

lemma handleMAIL_cases:
  obtains (refused) "core (snd (handleMAIL rt cmd e)) = core e"
  | (failed) f x w where "core f = core e" "snd (handleMAIL rt cmd e) = f\<lparr>e_envelope := x, e_world := w\<rparr>"
  | (accepted) path f b w1 b' w' where
      "\<not> (cf_TLSPolicy (e_config e) = TLSRequired \<and> \<not> ss_TLSActive (e_state e))"
      "\<not> (MaxTransactions (Limits (e_config e)) > 0
          \<and> TransactionCount (e_stats e) \<ge> MaxTransactions (Limits (e_config e)))"
      "ParseMailPath (rt_Unicode rt) (cmd_Argument cmd) ''FROM'' = Inr path" "\<not> size_rejected e cmd"
      "validate_sender path e = (None, f)"
      "NewBuilder rt (cf_EnvelopeFactory (e_config e)) (envelope_metadata rt f) (e_world f) = (b, w1)"
      "eb_SetMailFrom rt path (cmd_Params cmd) b w1 = ((None, b'), w')"
      "handleMAIL rt cmd e = (ResponseOK, run_hook (\<lambda>h i. OnMailFrom h path i)
         (set_state StateMailFrom (sm_command CmdMAIL (f\<lparr>e_envelope := Some b', e_world := w'\<rparr>))))"
proof (cases "(cf_TLSPolicy (e_config e) = TLSRequired \<and> \<not> ss_TLSActive (e_state e))
    \<or> (MaxTransactions (Limits (e_config e)) > 0
        \<and> TransactionCount (e_stats e) \<ge> MaxTransactions (Limits (e_config e)))")
  case True
  with refused show thesis by (auto simp: handleMAIL_def)
next
  case guards: False
  show thesis
  proof (cases "ParseMailPath (rt_Unicode rt) (cmd_Argument cmd) ''FROM''")
    case (Inl err)
    with guards refused show thesis by (auto simp: handleMAIL_def)
  next
    case (Inr path)
    obtain r f where v: "validate_sender path e = (r, f)" by fastforce
    with core_ops(9) [of path e] have f: "core f = core e" by simp
    obtain b w1 where nb:
      "NewBuilder rt (cf_EnvelopeFactory (e_config e)) (envelope_metadata rt f) (e_world f) = (b, w1)"
      by fastforce
    obtain err b' w' where sf: "eb_SetMailFrom rt path (cmd_Params cmd) b w1 = ((err, b'), w')"
      by (metis prod.exhaust)
    have cfg: "e_config f = e_config e" using f by (simp add: core_def)
    have flat: "handleMAIL rt cmd e =
        (if size_rejected e cmd then
           (NewResponse Reply552ExceededStorage ''Message size exceeds fixed maximum message size'', e)
         else case r of Some resp \<Rightarrow> (resp, f) | None \<Rightarrow>
           (case err of Some _ \<Rightarrow> (ResponseTransactionFailed, f\<lparr>e_envelope := Some b', e_world := w'\<rparr>)
            | None \<Rightarrow> (ResponseOK, run_hook (\<lambda>h i. OnMailFrom h path i)
                (set_state StateMailFrom (sm_command CmdMAIL (f\<lparr>e_envelope := Some b', e_world := w'\<rparr>))))))"
      using guards Inr
      by (auto simp: handleMAIL_def v nb [folded cfg] sf Let_def split: option.split)
    consider "size_rejected e cmd \<or> r \<noteq> None" | "\<not> size_rejected e cmd" "r = None" "err \<noteq> None"
      | "\<not> size_rejected e cmd" "r = None" "err = None" by blast
    then show thesis
    proof cases
      case 1
      with flat f refused show thesis by auto
    next
      case 2
      with flat f failed [of f w' "Some b'"] show thesis by auto
    next
      case 3
      with flat guards Inr v nb sf accepted [of path f b w1 b' w'] show thesis by simp
    qed
  qed
qed

lemma new_draft_id:
  assumes "NewBuilder rt factory md w = (b, w1)" and "eb_SetMailFrom rt p params b w1 = ((r, StdB s), w')"
  shows "CHR 0x0A \<notin> set (b_id s)"
proof (cases b)
  case (StdB s0)
  have "b_id s0 = hex_EncodeToString (fst (rt_Rand rt 12 w))"
    using assms(1) StdB by (auto simp: NewBuilder_def NewStandardEnvelopeBuilder_def generateEnvelopeID_def
        split: option.splits prod.splits)
  moreover have "b_id s = b_id s0"
    using assms(2) StdB by (auto simp: SetMailFrom_def split: prod.splits if_splits)
  ultimately show ?thesis by (simp add: LF_not_in_hex)
next
  case (CustomB f c)
  with assms(2) show ?thesis by (auto split: prod.splits)
qed

lemma inv_handleMAIL:
  assumes "sm_state (e_sm e) = StateIdentified" and "engine_inv e"
  shows "engine_inv (snd (handleMAIL rt cmd e))"
proof (cases rule: handleMAIL_cases [of rt cmd e])
  case refused
  with engine_inv_core assms(2) show ?thesis by blast
next
  case (failed f x w)
  with assms show ?thesis by (simp add: engine_inv_def core_def)
next
  case (accepted path f b w1 b' w')
  have "e_config f = e_config e" "e_sm f = e_sm e" "e_state f = e_state e"
    using accepted(5) core_fields(9) [of path e] by simp_all
  moreover have "b' = StdB s \<Longrightarrow> CHR 0x0A \<notin> set (b_id s)" for s
    using new_draft_id [OF accepted(6)] accepted(7) by simp
  ultimately have "engine_inv (set_state StateMailFrom (sm_command CmdMAIL (f\<lparr>e_envelope := Some b', e_world := w'\<rparr>)))"
    using accepted(1,6,7) assms(1)
    by (auto simp: engine_inv_def sm_eval envelope_ok_def draft_ok_def NewBuilder_def
        envelope_metadata_def NewStandardEnvelopeBuilder_def SetMailFrom_def
        split: option.splits prod.splits)
  with accepted(8) show ?thesis by simp
qed

lemma inv_accept_recipient:
  assumes "sm_state (e_sm e) = StateMailFrom \<or> sm_state (e_sm e) = StateRcptTo" and "engine_inv e"
    and "e_envelope e = Some b" and "\<not> recipients_full b f" and "e_config f = e_config e"
  shows "engine_inv (snd (accept_recipient path b e))"
proof (cases b)
  case (StdB s)
  have ok: "draft_ok e s" using assms(1-3) StdB by (auto simp: engine_inv_def envelope_ok_def)
  then have fresh: "\<not> b_finalized s" by (simp add: draft_ok_def)
  let ?s = "s\<lparr>b_recipients := b_recipients s @ [path]\<rparr>"
  let ?e = "set_state StateRcptTo (sm_command CmdRCPT (e\<lparr>e_envelope := Some (StdB ?s)\<rparr>))"
  have acc: "snd (accept_recipient path b e) = run_hook (\<lambda>h i. OnRcptTo h path i) ?e"
    using StdB fresh by (simp add: accept_recipient_def AddRecipient_def)
  have state: "sm_state (e_sm ?e) = StateRcptTo" using assms(1) by (auto simp: sm_eval)
  have "MaxRecipients (Limits (e_config e)) > 0 \<longrightarrow>
      int (length (b_recipients ?s)) \<le> MaxRecipients (Limits (e_config e))"
    using assms(4,5) StdB by (auto simp: recipients_full_def RecipientCount_def Build_def)
  with ok state have "draft_ok ?e ?s" by (simp add: draft_ok_def)
  with assms(1,2) state have "engine_inv ?e" by (auto simp: engine_inv_def envelope_ok_def)
  then show ?thesis by (simp add: acc)
next
  case (CustomB g s)
  then have "cf_EnvelopeFactory (e_config e) \<noteq> None"
    using assms(1-3) by (auto simp: engine_inv_def envelope_ok_def)
  with assms(1,2) CustomB show ?thesis
    by (auto simp: accept_recipient_def engine_inv_def envelope_ok_def sm_eval case_prod_beta
        split: option.split)
qed

lemma handleRCPT_cases:
  assumes "handleRCPT rt cmd e = Inr (resp, e')"
  obtains "e' = e" | w where "e' = e\<lparr>e_world := w\<rparr>"
  | w b path where "e_envelope e = Some b" "\<not> recipients_full b e"
      "e' = snd (accept_recipient path b (e\<lparr>e_world := w\<rparr>))"
proof (cases "ParseMailPath (rt_Unicode rt) (cmd_Argument cmd) ''TO''")
  case (Inl err)
  with assms that(1) show thesis by (simp add: handleRCPT_def)
next
  case (Inr path)
  show thesis
  proof (cases "e_envelope e")
    case None
    with assms Inr that(2) show thesis
      by (auto simp: handleRCPT_def case_prod_beta Let_def split: if_splits option.splits)
  next
    case (Some b)
    show thesis
    proof (cases "recipients_full b e")
      case True
      with assms Inr Some that(1) show thesis by (simp add: handleRCPT_def)
    next
      case False
      with assms Inr Some obtain mailbox where mb: "cf_Mailbox (e_config e) = Some mailbox"
        by (auto simp: handleRCPT_def split: option.splits)
      obtain result w where res: "mailbox path (session_info e) (e_world e) = (result, w)" by fastforce
      from assms Inr Some False mb res
      have "e' = e\<lparr>e_world := w\<rparr> \<or> accept_recipient path b (e\<lparr>e_world := w\<rparr>) = (resp, e')"
        by (simp add: handleRCPT_def Let_def split: if_splits)
      with that(2) [of w] that(3) [OF Some False, of path w] show thesis by auto
    qed
  qed
qed

lemma inv_handleRCPT:
  assumes "sm_state (e_sm e) = StateMailFrom \<or> sm_state (e_sm e) = StateRcptTo" and "engine_inv e"
    and "handleRCPT rt cmd e = Inr (resp, e')"
  shows "engine_inv e'"
proof -
  from assms(3) consider "e' = e" | w where "e' = e\<lparr>e_world := w\<rparr>"
    | w b path where "e_envelope e = Some b" "\<not> recipients_full b e"
        "e' = snd (accept_recipient path b (e\<lparr>e_world := w\<rparr>))"
    by (rule handleRCPT_cases)
  then show ?thesis
  proof cases
    case (3 w b path)
    with assms(1,2) show ?thesis
      using inv_accept_recipient [of "e\<lparr>e_world := w\<rparr>" b e path] by simp
  qed (use assms(2) in simp_all)
qed

text \<open>The data phase ends in \<open>Identified\<close>, or, when it fails, in a machine left in \<open>Data\<close>.\<close>

lemma inv_abandon_data:
  assumes "sm_state (e_sm e) = StateData"
    and "cf_TLSPolicy (e_config e) = TLSRequired \<longrightarrow> ss_TLSActive (e_state e)"
  shows "engine_inv (snd (abandon_data resp e))"
  using assms by (auto simp: abandon_data_def engine_inv_def sm_state_Reset)

lemma inv_message_accepted:
  assumes "sm_state (e_sm e) = StateData"
  shows "engine_inv (snd (message_accepted env e))"
  using assms by (auto simp: message_accepted_def Let_def engine_inv_def sm_state_Reset sm_state_DataComplete)

lemma inv_finish_data:
  assumes "sm_state (e_sm e) = StateData"
    and "cf_TLSPolicy (e_config e) = TLSRequired \<longrightarrow> ss_TLSActive (e_state e)"
  shows "engine_inv (snd (finish_data wr b e))"
  using assms
  by (simp add: finish_data_def case_prod_beta inv_abandon_data inv_message_accepted
      split: sum.split option.split)

lemma inv_receive_data:
  assumes "sm_state (e_sm e) = StateData"
    and "cf_TLSPolicy (e_config e) = TLSRequired \<longrightarrow> ss_TLSActive (e_state e)"
  shows "engine_inv (snd (receive_data rt b e))"
  using assms
  by (simp add: receive_data_def case_prod_beta inv_abandon_data inv_finish_data
      split: sum.split option.split)

lemma inv_handleDATA:
  assumes "sm_state (e_sm e) = StateRcptTo" and "engine_inv e"
    and "handleDATA rt cmd e = Inr (resp, e')"
  shows "engine_inv e'"
proof -
  let ?w = "writeResponse ResponseStartMailInput
      (run_hook OnDataStart (set_state StateData (sm_command CmdDATA e)))"
  have w: "sm_state (e_sm (snd ?w)) = StateData"
    "cf_TLSPolicy (e_config (snd ?w)) = TLSRequired \<longrightarrow> ss_TLSActive (e_state (snd ?w))"
    using assms(1,2) by (auto simp: sm_eval engine_inv_def)
  from assms(3) consider "e' = on_sm (\<lambda>m. snd (Abort m)) (snd ?w)"
    | b where "e' = snd (receive_data rt b (snd ?w))"
    by (auto simp: handleDATA_def case_prod_beta split: option.splits) (metis snd_conv)
  then show ?thesis
  proof cases
    case 1
    with w(1) show ?thesis by (intro engine_inv_final) (simp add: sm_state_Abort)
  next
    case 2
    with inv_receive_data [OF w] show ?thesis by simp
  qed
qed

lemma inv_handleCommand:
  assumes "sm_IsCommandAllowed (cmd_Verb cmd) (e_sm e)" and "engine_inv e"
    and "handleCommand rt cmd e = Inr (resp, e')"
  shows "engine_inv e'"
proof -
  have hello: "engine_inv (snd (handleHELO rt cmd e))" "engine_inv (snd (handleEHLO rt cmd e))"
    if "sm_state (e_sm e) = StateGreeted \<or> sm_state (e_sm e) = StateIdentified"
    using that assms(2)
    by (auto simp: handleHELO_def handleEHLO_def Let_def inv_identify split: sum.split)
  have rset: "engine_inv (snd (handleRSET rt cmd e))"
    if "sm_state (e_sm e) \<in> {StateGreeted, StateIdentified, StateMailFrom, StateRcptTo}"
    using that assms(2) by (auto simp: handleRSET_def Let_def engine_inv_def sm_state_Reset)
  have quit: "engine_inv (snd (handleQUIT cmd e))"
    if "sm_state (e_sm e) \<in> {StateGreeted, StateIdentified, StateMailFrom, StateRcptTo}"
    using that by (intro engine_inv_final) (auto simp: handleQUIT_def sm_eval)
  have starttls: "engine_inv (snd (handleSTARTTLS cmd e))" if "sm_state (e_sm e) = StateIdentified"
    using that assms(2) by (auto simp: handleSTARTTLS_def engine_inv_def sm_eval)
  show ?thesis
    using assms hello rset quit starttls inv_handleMAIL [of e rt cmd]
      inv_handleRCPT [of e rt cmd resp e'] inv_handleDATA [of e rt cmd resp e']
    by (auto simp: handleCommand_def handleNOOP_def handleVRFY_def handleHELP_def allowed_states
        split: CommandVerb.splits if_splits)
qed

lemma inv_reject_line: "engine_inv e \<Longrightarrow> engine_inv (snd (reject_line err e))"
  by (simp add: reject_line_def Let_def engine_inv_Abort split: option.split)

lemma dispatch_cases:
  assumes "dispatch rt cmd e = res"
  obtains (hook) err where "fst (command_hook cmd e) = Some err"
      "res = Inr (Some err, snd (writeResponse ResponseTransactionFailed (snd (command_hook cmd e))))"
  | (sequence) "fst (command_hook cmd e) = None" "\<not> sm_IsCommandAllowed (cmd_Verb cmd) (e_sm e)"
      "res = Inr (None, snd (writeResponse ResponseBadSequence (bump_errors (snd (command_hook cmd e)))))"
  | (panics) p where "fst (command_hook cmd e) = None" "sm_IsCommandAllowed (cmd_Verb cmd) (e_sm e)"
      "handleCommand rt cmd (snd (command_hook cmd e)) = Inl p" "res = Inl p"
  | (handled) resp e2 where "fst (command_hook cmd e) = None" "sm_IsCommandAllowed (cmd_Verb cmd) (e_sm e)"
      "handleCommand rt cmd (snd (command_hook cmd e)) = Inr (resp, e2)" "res = Inr (send_reply resp e2)"
  using assms
  by (auto simp: dispatch_def case_prod_beta split: option.splits if_splits sum.splits)

lemma inv_dispatch:
  assumes "engine_inv e" and "dispatch rt cmd e = Inr (r, e')"
  shows "engine_inv e'"
  using assms(2)
proof (cases rule: dispatch_cases)
  case (handled resp e2)
  then have "engine_inv e2"
    using inv_handleCommand [of cmd "snd (command_hook cmd e)" rt resp e2] assms(1) by simp
  moreover have "e' = snd (send_reply resp e2)" using handled(4) by (metis Inr_inject snd_conv)
  ultimately show ?thesis by simp
qed (use assms(1) in auto)

lemma inv_processOneCommand:
  assumes "engine_inv e" and "processOneCommand rt e = Inr (r, e')"
  shows "engine_inv e'"
proof -
  have after: "engine_inv e1" if "readLine rt t e = (x, e1)" for t x e1
    using that assms(1) engine_inv_ops(3) [of rt t e] by simp
  from assms(2) show ?thesis
  proof (cases rule: processOneCommand_cases)
    case (failed err e1)
    with after show ?thesis by blast
  next
    case (rejected line e1 err)
    let ?e1 = "e1\<lparr>e_stats := (e_stats e1)\<lparr>CommandCount := i64 (CommandCount (e_stats e1) + 1)\<rparr>\<rparr>"
    have "e' = snd (reject_line err ?e1)" using rejected(3) by (metis Inr_inject snd_conv)
    with after [OF rejected(1)] inv_reject_line [of ?e1] show ?thesis by simp
  next
    case (parsed line e1 cmd)
    with after [OF parsed(1)] show ?thesis
      using inv_dispatch [OF _ parsed(3) [symmetric]] by simp
  qed
qed

lemma sm_starttls:
  assumes "engine_inv e" and "ss_State (e_state e) = StateStartTLS"
    and "\<not> IsTerminal (sm_state (e_sm e))"
  shows "sm_state (e_sm e) = StateStartTLS" and "cf_TLSProvider (e_config e) \<noteq> None"
proof -
  show s: "sm_state (e_sm e) = StateStartTLS"
    using assms by (cases "sm_state (e_sm e)") (auto simp: engine_inv_def IsTerminal_def)
  with assms(1) show "cf_TLSProvider (e_config e) \<noteq> None" by (simp add: engine_inv_def)
qed

lemma core_tls_handshake: "core (snd (tls_handshake rt c e)) = core e"
  by (simp add: tls_handshake_def core_def case_prod_beta Let_def)

lemma inv_tls_restart:
  assumes "sm_state (e_sm e) = StateStartTLS"
  shows "engine_inv (tls_restart rt ts e)"
  using assms by (simp add: tls_restart_def Let_def engine_inv_def tls_active_def sm_state_TLSComplete)

lemma inv_performTLSUpgrade:
  assumes "sm_state (e_sm e) = StateStartTLS" and "performTLSUpgrade rt e = Inr (None, e')"
  shows "engine_inv e'"
  using assms(2)
proof (cases rule: performTLSUpgrade_success)
  case (1 getConfig tlsConfig w ts e1)
  have "e_sm e1 = e_sm e"
    using core_tls_handshake [of rt tlsConfig "e\<lparr>e_world := w\<rparr>"] 1(3) by (simp add: core_def)
  with assms(1) 1(4) show ?thesis by (simp add: inv_tls_restart)
qed

lemma run_step_cases:
  assumes "run_step rt e = Continue e'"
  obtains (upgrade) e1 where "ctx_done rt e = (None, e1)" "\<not> IsTerminal (sm_state (e_sm e1))"
      "ss_State (e_state e1) = StateStartTLS" "performTLSUpgrade rt e1 = Inr (None, e')"
  | (command) e1 r where "ctx_done rt e = (None, e1)" "\<not> IsTerminal (sm_state (e_sm e1))"
      "ss_State (e_state e1) \<noteq> StateStartTLS" "processOneCommand rt e1 = Inr (r, e')"
  using assms
  by (auto simp: run_step_def leave_def split: prod.splits option.splits if_splits sum.splits
      dest: after_error_Continue)

lemma inv_run_step:
  assumes "engine_inv e" and "run_step rt e = Continue e'"
  shows "engine_inv e'"
proof -
  have after: "engine_inv e1" if "ctx_done rt e = (x, e1)" for x e1
    using that assms(1) engine_inv_ops(4) [of rt e] by simp
  from assms(2) show ?thesis
  proof (cases rule: run_step_cases)
    case (upgrade e1)
    with after sm_starttls inv_performTLSUpgrade show ?thesis by blast
  next
    case (command e1 r)
    with after inv_processOneCommand show ?thesis by blast
  qed
qed

text \<open>The states a session passes through, from the greeting on.\<close>

definition greeted :: "('b, 'w) Engine \<Rightarrow> bool" where
  "greeted e \<longleftrightarrow> sm_state (e_sm e) = StateGreeted \<and> ss_State (e_state e) = StateGreeted"

definition session_step :: "'w Runtime \<Rightarrow> ('b, 'w) Engine \<Rightarrow> ('b, 'w) Engine \<Rightarrow> bool" where
  "session_step rt e e' \<longleftrightarrow> run_step rt e = Continue e'"

interpretation session: invariant_system greeted "session_step rt" engine_inv for rt
proof
  show "greeted e \<Longrightarrow> engine_inv e" for e
    by (simp add: greeted_def engine_inv_def)
  show "session_step rt e e' \<Longrightarrow> engine_inv e \<Longrightarrow> engine_inv e'" for e e'
    by (simp add: session_step_def inv_run_step)
qed

section \<open>No nil interface is dereferenced\<close>

lemma no_panic_handleCommand:
  assumes "sm_IsCommandAllowed (cmd_Verb cmd) (e_sm e)" and "engine_inv e"
    and "cf_Mailbox (e_config e) \<noteq> None"
  shows "handleCommand rt cmd e \<noteq> Inl p"
proof -
  have env: "e_envelope e \<noteq> None" if "cmd_Verb cmd = CmdRCPT \<or> cmd_Verb cmd = CmdDATA"
    using that assms(1,2)
    by (auto simp: allowed_states engine_inv_def envelope_ok_def split: option.splits)
  have "handleRCPT rt cmd e \<noteq> Inl p" if "e_envelope e \<noteq> None"
    using that assms(3)
    by (auto simp: handleRCPT_def Let_def split: sum.splits option.splits prod.splits if_splits)
  moreover have "handleDATA rt cmd e \<noteq> Inl p" if "e_envelope e \<noteq> None"
    using that by (auto simp: handleDATA_def case_prod_beta split: option.splits)
  ultimately show ?thesis
    using env by (auto simp: handleCommand_def split: CommandVerb.split)
qed

lemma no_panic_run_step:
  assumes "engine_inv e" and "cf_Mailbox (e_config e) \<noteq> None"
  shows "run_step rt e \<noteq> Panicked p"
proof -
  obtain x e1 where c: "ctx_done rt e = (x, e1)" by fastforce
  have inv1: "engine_inv e1" and mb1: "cf_Mailbox (e_config e1) \<noteq> None"
    using c assms engine_inv_ops(4) [of rt e] core_fields(3) [of rt e] by simp_all
  have tls: "performTLSUpgrade rt e1 \<noteq> Inl q"
    if "ss_State (e_state e1) = StateStartTLS" "\<not> IsTerminal (sm_state (e_sm e1))" for q
    using sm_starttls(2) [OF inv1 that]
    by (auto simp: performTLSUpgrade_def split: option.splits prod.splits sum.splits)
  have cmd: "processOneCommand rt e1 \<noteq> Inl q" for q
  proof
    assume "processOneCommand rt e1 = Inl q"
    then obtain line e2 cmd where rd: "readLine rt (command_timeout (Limits (e_config e1))) e1 = (Inr line, e2)"
      and d: "dispatch rt cmd (e2\<lparr>e_stats := (e_stats e2)
          \<lparr>CommandCount := i64 (CommandCount (e_stats e2) + 1)\<rparr>\<rparr>) = Inl q"
      by (cases rule: processOneCommand_cases) auto
    let ?e2 = "e2\<lparr>e_stats := (e_stats e2)\<lparr>CommandCount := i64 (CommandCount (e_stats e2) + 1)\<rparr>\<rparr>"
    have inv2: "engine_inv ?e2" and mb2: "cf_Mailbox (e_config ?e2) \<noteq> None"
      using rd inv1 mb1 engine_inv_ops(3) [of rt "command_timeout (Limits (e_config e1))" e1]
        core_fields(8) [of rt "command_timeout (Limits (e_config e1))" e1] by simp_all
    from d show False
    proof (cases rule: dispatch_cases)
      case (panics p)
      with no_panic_handleCommand [of cmd "snd (command_hook cmd ?e2)" rt p] inv2 mb2 show False by simp
    qed auto
  qed
  show ?thesis
    using c tls cmd
    by (auto simp: run_step_def leave_def after_error_def split: option.splits sum.splits prod.splits if_splits)
qed

lemma run_step_config:
  assumes "run_step rt e = Continue e'"
  shows "e_config e' = e_config e"
  using assms
proof (cases rule: run_step_cases)
  case (upgrade e1)
  then have "e_config e1 = e_config e" using core_fields(3) [of rt e] by simp
  moreover from upgrade(4) have "e_config e' = e_config e1"
  proof (cases rule: performTLSUpgrade_success)
    case (1 getConfig tlsConfig w ts e2)
    have "e_config e2 = e_config e1"
      using core_tls_handshake [of rt tlsConfig "e1\<lparr>e_world := w\<rparr>"] 1(3) by (simp add: core_def)
    with 1(4) show ?thesis by (simp add: tls_restart_def Let_def tls_active_def)
  qed
  ultimately show ?thesis by simp
next
  case (command e1 r)
  then show ?thesis
    using processOneCommand_progress(1) [OF command(4)] core_fields(3) [of rt e]
    by (simp add: keeps_def)
qed

lemma run_loop_no_panic:
  assumes "engine_inv e" and "cf_Mailbox (e_config e) \<noteq> None"
  shows "\<exists>r e'. run_loop rt e = Some (Inr (r, e'))"
  using assms
proof (induction e rule: wf_induct_rule [OF wf_measures [of "[tls_rank, \<lambda>e. conn_size (e_conn e)]"]])
  case (1 e)
  show ?case
  proof (cases "run_step rt e")
    case (Continue e')
    from run_step_Continue [OF this] have "(e', e) \<in> measures [tls_rank, \<lambda>e. conn_size (e_conn e)]"
      by auto
    from "1.IH" [OF this] inv_run_step [OF "1.prems"(1) Continue] run_step_config [OF Continue]
      "1.prems"(2) Continue
    show ?thesis by (simp add: run_loop.simps [of rt e])
  next
    case (Return r e')
    then show ?thesis by (simp add: run_loop.simps [of rt e])
  next
    case (Panicked p)
    with no_panic_run_step [OF "1.prems"] show ?thesis by blast
  qed
qed

text \<open>A new engine, before and after the greeting.\<close>

lemma NewEngine_fields:
  assumes "e = NewEngineWithConn rt conn config opts w"
  shows "e_config e = config" "e_sm e = NewStateMachine" "e_conn e = NewBufferedConn conn"
    "e_envelope e = None" "e_closed e = False" "ss_TLSActive (e_state e) = False"
    "TransactionCount (e_stats e) = 0" "MessageCount (e_stats e) = 0"
proof -
  have fold: "e_config (fold apply_option opts f) = e_config f
      \<and> e_sm (fold apply_option opts f) = e_sm f \<and> e_conn (fold apply_option opts f) = e_conn f
      \<and> e_envelope (fold apply_option opts f) = e_envelope f
      \<and> e_closed (fold apply_option opts f) = e_closed f
      \<and> e_state (fold apply_option opts f) = e_state f
      \<and> e_stats (fold apply_option opts f) = e_stats f" for f :: "('a, 'b) Engine"
  proof (induction opts arbitrary: f)
    case (Cons opt opts)
    show ?case using Cons.IH [of "apply_option opt f"] by (cases opt) simp_all
  qed simp
  show "e_config e = config" "e_sm e = NewStateMachine" "e_conn e = NewBufferedConn conn"
    "e_envelope e = None" "e_closed e = False" "ss_TLSActive (e_state e) = False"
    "TransactionCount (e_stats e) = 0" "MessageCount (e_stats e) = 0"
    using assms fold by (simp_all add: NewEngineWithConn_def Let_def case_prod_beta)
qed

lemma Run_cases:
  assumes "e_sm e = NewStateMachine" and "Run rt e = Some res"
  obtains (greeting_failed) err e1 where "core e1 = core (on_sm (\<lambda>m. snd (Connect m)) e)"
      "res = Inr (handleDisconnect rt DisconnectError (Some err) e1)"
  | (started) e1 where "greeted e1" "run_loop rt e1 = Some res" "e_config e1 = e_config e"
      "e_envelope e1 = e_envelope e" "ss_TLSActive (e_state e1) = ss_TLSActive (e_state e)"
      "TransactionCount (e_stats e1) = TransactionCount (e_stats e)"
      "MessageCount (e_stats e1) = MessageCount (e_stats e)" "e_closed e1 = e_closed e"
proof -
  obtain m where conn: "Connect (e_sm e) = (None, m)" and st: "sm_state m = StateConnected"
    by (simp add: assms(1) sm_defs)
  define e1 where "e1 = run_hook OnConnect (e\<lparr>e_sm := m\<rparr>)"
  obtain r e2 where w: "writeResponse (buildGreeting e1) e1 = (r, e2)" by fastforce
  have e2: "core e2 = core (on_sm (\<lambda>m. snd (Connect m)) e)"
    using w core_ops(7) [of "buildGreeting e1" e1] core_ops(1) [of OnConnect "e\<lparr>e_sm := m\<rparr>"] conn
    by (simp add: e1_def core_def on_sm_def)
  then have sm2: "sm_state (e_sm e2) = StateConnected" using st conn by (simp add: core_def on_sm_def)
  then obtain m2 where greet: "Greet (e_sm e2) = (None, m2)" "sm_state m2 = StateGreeted"
    by (simp add: sm_defs)
  from assms(2) have run: "(case r of
      Some err \<Rightarrow> Some (Inr (handleDisconnect rt DisconnectError (Some err) e2))
    | None \<Rightarrow> run_loop rt (set_state StateGreeted (e2\<lparr>e_sm := m2\<rparr>))) = Some res"
    unfolding Run_def conn prod.case option.case Let_def e1_def [symmetric] w
    by (simp add: greet split: option.splits)
  show thesis
  proof (cases r)
    case (Some err)
    with run greeting_failed [OF e2] show thesis by auto
  next
    case None
    let ?e3 = "set_state StateGreeted (e2\<lparr>e_sm := m2\<rparr>)"
    have "greeted ?e3" using greet by (simp add: greeted_def)
    moreover have "run_loop rt ?e3 = Some res" using run None by simp
    moreover have "e_config e2 = e_config e" "e_envelope e2 = e_envelope e" "e_state e2 = e_state e"
      "TransactionCount (e_stats e2) = TransactionCount (e_stats e)"
      "MessageCount (e_stats e2) = MessageCount (e_stats e)" "e_closed e2 = e_closed e"
      using e2 by (simp_all add: core_def on_sm_def)
    ultimately show thesis using started [of ?e3] by (simp add: set_state_def)
  qed
qed

lemma Run_ok:
  assumes "cf_Mailbox config \<noteq> None"
  shows "\<exists>err e'. Run rt (NewEngineWithConn rt conn config opts w) = Some (Inr (err, e'))"
proof -
  define e where "e = NewEngineWithConn rt conn config opts w"
  have "\<exists>res. Run rt e = Some res"
    using run_loop_total by (auto simp: Run_def Let_def split: option.split prod.split)
  then obtain res where res: "Run rt e = Some res" ..
  from NewEngine_fields(2) [OF e_def] res have "\<exists>x. res = Inr x"
  proof (cases rule: Run_cases)
    case (started e1)
    with assms NewEngine_fields(1) [OF e_def] session.init_inv [OF started(1)] show ?thesis
      using run_loop_no_panic [of e1 rt] by auto
  qed simp
  with res show ?thesis unfolding e_def by auto
qed

text \<open>
  (C4) A session cannot crash the server: with a mailbox configured, the session of a new
  engine returns, on every transport, without dereferencing a nil interface. RCPT and DATA find
  an envelope whenever the state machine lets them through, and the TLS upgrade finds a
  provider.
\<close>

theorem Run_never_panics:
  assumes "cf_Mailbox config \<noteq> None"
  shows "\<exists>err e'. Run rt (NewEngineWithConn rt conn config opts w) = Some (Inr (err, e'))"
  by (rule Run_ok [OF assms])

end
