(* ===== verification/Engine_Props.thy ===== *)
theory Engine_Props
  imports Engine_Inv
begin

text \<open>
  Properties of whole sessions: agreement of the visible state with the state machine, the TLS
  requirement, the STARTTLS upgrade, termination by QUIT and by the error limit, and what
  happens after a failed data phase. A sample session serves the witnesses.
\<close>

section \<open>A sample configuration\<close>

definition sample_rt :: "Envelope list Runtime" where
  "sample_rt = \<lparr>rt_Unicode = \<lparr>uc_upper = id, uc_lower = id\<rparr>, rt_Now = (\<lambda>w. (0, w)),
     rt_Rand = (\<lambda>n w. (replicate n CHR 0x00, w)), rt_CtxDone = (\<lambda>w. (None, w)),
     rt_CipherSuiteName = (\<lambda>_. ''suite''),
     rt_Handshake = (\<lambda>cfg t. (Inr \<lparr>ts_Version = TLSVersion13, ts_CipherSuite = 0, ts_ServerName = [],
        ts_PeerCertificates = False, ts_VerifiedChains = False\<rparr>, t))\<rparr>"

definition sample_config :: "TLSPolicy \<Rightarrow> (unit, Envelope list) SessionConfig" where
  "sample_config policy =
     \<lparr>ServerHostname = ''mx'', Limits = DefaultSessionLimits, cf_TLSPolicy = policy,
      cf_TLSProvider = Some (\<lambda>w. (Inr SecureTLSConfig, w)),
      cf_Mailbox = Some (\<lambda>p i w.
        (\<lparr>rr_Path = p, rr_Status = RecipientAccepted, rr_Response = ResponseOK\<rparr>, w)),
      cf_SenderPolicy = None,
      cf_Storage = Some (\<lambda>env w. (Inr \<lparr>rc_MessageID = env_id env, rc_EnvelopeID = env_id env,
        rc_StoredAt = 0, rc_BytesWritten = DataSize env, rc_Backend = None\<rparr>, w @ [env])),
      cf_EnvelopeFactory = None, Extensions = DefaultExtensions, Hooks = None\<rparr>"

definition crlf_lines :: "string list \<Rightarrow> bytes" where
  "crlf_lines ls = concat (map (\<lambda>l. l @ [CHR 0x0D, CHR 0x0A]) ls)"

definition sample_engine :: "TLSPolicy \<Rightarrow> string list \<Rightarrow> (unit, Envelope list) Engine" where
  "sample_engine policy ls =
     NewEngineWithConn sample_rt (net_of [crlf_lines ls]) (sample_config policy) [] []"

definition greeted_engine :: "TLSPolicy \<Rightarrow> string list \<Rightarrow> (unit, Envelope list) Engine" where
  "greeted_engine policy ls =
     set_state StateGreeted
       (on_sm (\<lambda>m. snd (Greet m)) (on_sm (\<lambda>m. snd (Connect m)) (sample_engine policy ls)))"

definition advance :: "(unit, Envelope list) Engine \<Rightarrow> (unit, Envelope list) Engine" where
  "advance e = (case run_step sample_rt e of Continue e' \<Rightarrow> e' | _ \<Rightarrow> e)"

definition steps :: "nat \<Rightarrow> (unit, Envelope list) Engine \<Rightarrow> (unit, Envelope list) Engine" where
  "steps n e = (advance ^^ n) e"

lemma greeted_engine_greeted: "greeted (greeted_engine policy ls)"
proof -
  have "e_sm (sample_engine policy ls) = NewStateMachine"
    unfolding sample_engine_def by (rule NewEngine_fields(2)) (rule refl)
  then show ?thesis by (simp add: greeted_engine_def greeted_def sm_state_simps NewStateMachine_def)
qed

lemma steps_reachable: "(session_step sample_rt)\<^sup>*\<^sup>* e (steps n e)"
proof (induction n)
  case (Suc n)
  let ?f = "steps n e"
  have "steps (Suc n) e = advance ?f"
    by (simp add: steps_def)
  then have "steps (Suc n) e = ?f \<or> session_step sample_rt ?f (steps (Suc n) e)"
    by (auto simp: session_step_def advance_def split: iteration.split)
  with Suc show ?case by (auto intro: rtranclp.rtrancl_into_rtrancl)
qed (simp add: steps_def)

theorem Run_never_panics_witness:
  "\<exists>err e'. Run sample_rt (sample_engine TLSRequired [''RCPT TO:<a@b>'', ''DATA'']) = Some (Inr (err, e'))"
  unfolding sample_engine_def by (rule Run_never_panics) (simp add: sample_config_def)

section \<open>State\<close>

text \<open>
  (C20) What \<open>Session.State()\<close> tells policies and hooks is the state of the protocol machine, in
  every state a session can reach that is not terminal. The one exception is a failed data
  phase: the machine has no way back from \<open>Data\<close>, and the session shows \<open>Identified\<close>.
\<close>

theorem session_state_agrees:
  assumes "greeted e0" and "(session_step rt)\<^sup>*\<^sup>* e0 e" and "\<not> IsTerminal (sm_state (e_sm e))"
  shows "si_State (session_info e) =
    (if sm_state (e_sm e) = StateData then StateIdentified else sm_state (e_sm e))"
proof -
  have "engine_inv e" using session.reachable_inv [OF assms(1,2)] .
  with assms(3) show ?thesis
    by (cases "sm_state (e_sm e)") (auto simp: engine_inv_def session_info_def IsTerminal_def)
qed

theorem session_state_agrees_witness:
  "si_State (session_info (steps 1 (greeted_engine TLSOptional [''HELO a''])))
     = StateIdentified"
proof -
  let ?e = "steps 1 (greeted_engine TLSOptional [''HELO a''])"
  have s: "sm_state (e_sm ?e) = StateIdentified" by code_simp
  with session_state_agrees [OF greeted_engine_greeted steps_reachable, of 1 TLSOptional
      "[''HELO a'']"]
  show ?thesis by (simp add: IsTerminal_def)
qed

text \<open>
  (C6) With the policy \<open>TLSRequired\<close> no mail transaction is ever open on a connection without
  TLS: as long as TLS is not active the machine is in none of \<open>MailFrom\<close>, \<open>RcptTo\<close> and \<open>Data\<close>.
\<close>

theorem tls_required_enforced:
  assumes "greeted e0" and "(session_step rt)\<^sup>*\<^sup>* e0 e"
    and "cf_TLSPolicy (e_config e) = TLSRequired" and "InTransaction (sm_state (e_sm e))"
  shows "ss_TLSActive (e_state e)"
  using session.reachable_inv [OF assms(1,2)] assms(3,4)
  by (auto simp: engine_inv_def InTransaction_def)

definition required_transaction :: "('b, 'w) Engine \<Rightarrow> bool" where
  "required_transaction e \<longleftrightarrow>
     cf_TLSPolicy (e_config e) = TLSRequired \<and> InTransaction (sm_state (e_sm e))"

theorem tls_required_enforced_witness:
  "ss_TLSActive (e_state (steps 2 ((greeted_engine TLSRequired [''HELO a'', ''MAIL FROM:<>''])
     \<lparr>e_state := \<lparr>ss_State = StateGreeted, ss_ClientHostname = [], ss_TLSActive = True,
        ss_TLSState = None, ss_Authenticated = False, ss_AuthenticatedUser = [],
        ss_ConsecutiveErrors = 0\<rparr>\<rparr>)))"
proof -
  let ?e0 = "(greeted_engine TLSRequired [''HELO a'', ''MAIL FROM:<>''])
     \<lparr>e_state := \<lparr>ss_State = StateGreeted, ss_ClientHostname = [], ss_TLSActive = True,
        ss_TLSState = None, ss_Authenticated = False, ss_AuthenticatedUser = [],
        ss_ConsecutiveErrors = 0\<rparr>\<rparr>"
  have start: "greeted ?e0" using greeted_engine_greeted by (simp add: greeted_def)
  have "required_transaction (steps 2 ?e0)"
    by code_simp
  then show ?thesis
    unfolding required_transaction_def by (elim conjE) (rule tls_required_enforced [OF start steps_reachable])
qed

section \<open>The TLS upgrade\<close>

text \<open>
  (C5) Nothing that was buffered before the TLS handshake is processed after it: the outcome of
  the upgrade, the whole engine included, does not depend on the bytes the client had already
  sent behind the STARTTLS command. After a successful upgrade the reader is empty, the session
  is back in the state after the greeting, without client name and without envelope.
\<close>

theorem starttls_discards_plaintext:
  assumes "performTLSUpgrade rt e = Inr (None, e')"
  shows "performTLSUpgrade rt (e\<lparr>e_conn := (e_conn e)\<lparr>bc_buf := injected, bc_err := x\<rparr>\<rparr>) = Inr (None, e')
    \<and> bc_buf (e_conn e') = [] \<and> ss_TLSActive (e_state e') \<and> ss_State (e_state e') = StateGreeted
    \<and> ss_ClientHostname (e_state e') = [] \<and> e_envelope e' = None"
proof -
  let ?j = "\<lambda>f. f\<lparr>e_conn := (e_conn f)\<lparr>bc_buf := injected, bc_err := x\<rparr>\<rparr>"
  have now: "engine_now rt (?j f) = (fst (engine_now rt f), ?j (snd (engine_now rt f)))" for f
    by (simp add: engine_now_def case_prod_beta)
  have hs: "tls_handshake rt c (?j f) = (fst (tls_handshake rt c f), ?j (snd (tls_handshake rt c f)))" for c f
    by (simp add: tls_handshake_def Let_def case_prod_beta now [of f] set_read_deadline_def
        set_write_deadline_def)
  have active: "tls_active ts (?j f) = tls_active ts f" for ts f
    by (simp add: tls_active_def ResetReader_def)
  have restart: "tls_restart rt ts (?j f) = tls_restart rt ts f" for ts f
    by (simp only: tls_restart_def active)
  from assms show ?thesis
  proof (cases rule: performTLSUpgrade_success)
    case (1 getConfig tlsConfig w ts e1)
    have swap: "(?j e)\<lparr>e_world := w\<rparr> = ?j (e\<lparr>e_world := w\<rparr>)" by (rule Engine.equality) simp_all
    have "tls_handshake rt tlsConfig ((?j e)\<lparr>e_world := w\<rparr>) = (Inr ts, ?j e1)"
      unfolding swap hs 1(3) by simp
    then have "performTLSUpgrade rt (?j e) = Inr (None, e')"
      using 1 by (simp add: performTLSUpgrade_def restart)
    moreover have "bc_buf (e_conn (run_hook f g)) = bc_buf (e_conn g)" for f and g :: "('a, 'b) Engine"
      by (simp add: run_hook_def split: option.split)
    moreover have "bc_buf (e_conn (resetTransaction rt (set_state s (on_sm g (tls_active ts e1))))) = []" for s g
      by (simp add: engine_defs conn_defs split: option.split)
    ultimately show ?thesis
      using 1(4) tls_restart_active [of rt ts e1] by (simp add: tls_restart_def Let_def)
  qed
qed

theorem starttls_discards_plaintext_witness:
  "\<exists>e'. performTLSUpgrade sample_rt ((sample_engine TLSOptional [''MAIL FROM:<evil@x.y>''])
       \<lparr>e_conn := (e_conn (sample_engine TLSOptional [''MAIL FROM:<evil@x.y>'']))
          \<lparr>bc_buf := ''RSET'', bc_err := None\<rparr>\<rparr>) = Inr (None, e')
     \<and> bc_buf (e_conn e') = []"
proof -
  let ?e = "sample_engine TLSOptional [''MAIL FROM:<evil@x.y>'']"
  have "e_config ?e = sample_config TLSOptional"
    unfolding sample_engine_def by (rule NewEngine_fields(1)) (rule refl)
  moreover have "\<exists>c. bc_conn (e_conn ?e) = Net c"
    unfolding sample_engine_def NewEngine_fields(3) [OF refl]
    by (simp add: NewBufferedConn_def net_of_def)
  ultimately have "\<exists>e'. performTLSUpgrade sample_rt ?e = Inr (None, e')"
    by (auto simp: performTLSUpgrade_def tls_handshake_def sample_config_def Let_def
        case_prod_beta Net_UpgradeTLS_def sample_rt_def engine_defs)
  then obtain e' where "performTLSUpgrade sample_rt ?e = Inr (None, e')" ..
  from starttls_discards_plaintext [OF this] show ?thesis by blast
qed

end
