(* ===== verification/Engine_End.thy ===== *)
theory Engine_End
  imports Engine_Props
begin

text \<open>
  How sessions end: in a terminal state, after \<open>Close\<close>, by QUIT, and at the error limit. And
  connections whose writes cannot fail.
\<close>

section \<open>Leaving the loop\<close>

lemma leave_Return: "\<exists>r f. leave rt reason err e = Return r f"
  by (simp add: leave_def split: prod.split)

text \<open>
  A session that has reached a terminal state does nothing more: the next iteration reads
  no command and sends nothing, it returns; and it reports the end of the session once, unless
  \<open>Close\<close> had marked the engine closed before, in which case it only returns.
\<close>

theorem terminal_session_returns:
  assumes "IsTerminal (sm_state (e_sm e))" and "rt_CtxDone rt (e_world e) = (None, w)"
  shows "run_step rt e =
     (if e_closed e then Return None (e\<lparr>e_world := w\<rparr>)
      else Return None (run_hook (\<lambda>h i. OnDisconnect h i DisconnectNormal)
        (e\<lparr>e_closed := True, e_world := snd (rt_Now rt w),
           e_stats := (e_stats e)\<lparr>EndTime := Some (fst (rt_Now rt w))\<rparr>\<rparr>)))"
proof -
  have swap: "(e\<lparr>e_world := w\<rparr>)\<lparr>e_closed := True\<rparr> = e\<lparr>e_closed := True, e_world := w\<rparr>"
    by (rule Engine.equality) simp_all
  show ?thesis
    using assms
    by (simp add: run_step_def ctx_done_def leave_def handleDisconnect_def engine_now_def
        case_prod_beta swap)
qed

theorem terminal_session_returns_witness:
  "run_step sample_rt (Close (greeted_engine TLSOptional [])) =
     Return None (Close (greeted_engine TLSOptional []))"
proof -
  let ?e = "Close (greeted_engine TLSOptional [])"
  have "sm_state (e_sm (greeted_engine TLSOptional [])) = StateGreeted"
    using greeted_engine_greeted by (simp add: greeted_def)
  then have "IsTerminal (sm_state (e_sm ?e))"
    by (simp add: Close_def sm_state_Abort IsTerminal_def)
  moreover have "e_closed ?e" by (simp add: Close_def on_sm_def)
  ultimately show ?thesis
    using terminal_session_returns [of ?e sample_rt "e_world ?e"] by (simp add: sample_rt_def)
qed

text \<open>
  QUIT ends a session from every state that accepts it: the reply is 221, the machine goes
  through \<open>Terminating\<close> to \<open>Terminated\<close>, and nothing else of the engine changes.
\<close>

theorem QUIT_terminates:
  assumes "sm_IsCommandAllowed CmdQUIT (e_sm e)" and "cmd_Verb cmd = CmdQUIT"
  shows "\<exists>m. handleCommand rt cmd e = Inr (NewResponse 221 ''Bye'', e\<lparr>e_sm := m\<rparr>)
    \<and> sm_state m = StateTerminated \<and> r_Code (NewResponse 221 ''Bye'') = Reply221ServiceClosing"
proof -
  let ?m = "snd (Terminate (snd (TransitionForCommand CmdQUIT True (e_sm e))))"
  have "sm_state ?m = StateTerminated"
    using assms(1) by (auto simp: allowed_states sm_eval)
  then show ?thesis
    using assms(2)
    by (intro exI [of _ ?m]) (simp add: handleCommand_def handleQUIT_def sm_command_def on_sm_def ResponseBye_def)
qed

theorem QUIT_terminates_witness:
  "\<exists>m. handleCommand sample_rt \<lparr>cmd_Verb = CmdQUIT, cmd_Raw = ''QUIT'', cmd_Argument = [], cmd_Params = None\<rparr>
       (greeted_engine TLSOptional []) = Inr (NewResponse 221 ''Bye'', (greeted_engine TLSOptional [])\<lparr>e_sm := m\<rparr>)
     \<and> sm_state m = StateTerminated"
proof -
  have "sm_IsCommandAllowed CmdQUIT (e_sm (greeted_engine TLSOptional []))"
    using greeted_engine_greeted by (simp add: greeted_def allowed_states)
  from QUIT_terminates [OF this, of "\<lparr>cmd_Verb = CmdQUIT, cmd_Raw = ''QUIT'', cmd_Argument = [], cmd_Params = None\<rparr>"
      sample_rt]
  show ?thesis by auto
qed

section \<open>The error limit\<close>

definition sent :: "('b, 'w) Engine \<Rightarrow> bytes" where
  "sent e = (case bc_conn (e_conn e) of Net c \<Rightarrow> tr_sent (nc_conn c) | Pipe c \<Rightarrow> tr_sent (pc_rw c))"

text \<open>A connection whose writes cannot fail.\<close>

definition writable :: "('b, 'w) Engine \<Rightarrow> bool" where
  "writable e = (case bc_conn (e_conn e) of
     Net c \<Rightarrow> tr_writes (nc_conn c) = [] | Pipe c \<Rightarrow> tr_writes (pc_rw c) = [] \<and> \<not> pc_closed c)"

lemma writeResponse_writable:
  assumes "writable e"
  shows "fst (writeResponse r e) = None"
    and "sent (snd (writeResponse r e)) = sent e @ Response_Bytes r"
    and "writable (snd (writeResponse r e))"
  using assms
  by (cases "bc_conn (e_conn e)"; simp add: writeResponse_def sent_def writable_def Net_Write_def
      Pipe_Write_def tr_Write_def case_prod_beta)+

lemma sent_conn: "e_conn f = e_conn e \<Longrightarrow> sent f = sent e"
  by (simp add: sent_def)

lemma writable_conn: "e_conn f = e_conn e \<Longrightarrow> writable f = writable e"
  by (simp add: writable_def)

lemma e_conn_simps [simp]:
  "e_conn (run_hook f e) = e_conn e" "e_conn (set_state s e) = e_conn e" "e_conn (on_sm g e) = e_conn e"
  "e_conn (sm_command c e) = e_conn e" "e_conn (bump_errors e) = e_conn e"
  "e_conn (resetTransaction rt e) = e_conn e" "e_conn (add_bytes_read n e) = e_conn e"
  "e_conn (snd (ctx_done rt e)) = e_conn e" "e_conn (snd (engine_now rt e)) = e_conn e"
  "e_conn (snd (validate_sender p e)) = e_conn e" "e_conn (snd (command_hook cmd e)) = e_conn e"
  "e_conn (snd (store_message env e)) = e_conn e"
  by (simp_all add: engine_defs case_prod_beta split: option.split sum.split)

text \<open>
  (C37) Unparsable input is limited: the syntax error that makes the count of consecutive errors
  reach \<open>MaxErrors\<close> is answered with 421 instead of 500, aborts the session, and the loop
  returns without reading again.
\<close>

theorem error_limit_closes:
  assumes "engine_inv e" and "\<not> IsTerminal (sm_state (e_sm e))" and "writable e"
    and "0 < MaxErrors (Limits (e_config e))"
    and "MaxErrors (Limits (e_config e)) \<le> ss_ConsecutiveErrors (e_state e) + 1"
    and "in_i64 (ss_ConsecutiveErrors (e_state e) + 1)"
  shows "fst (reject_line err e) = Some ErrTooManyErrors
    \<and> sm_state (e_sm (snd (reject_line err e))) = StateAborted
    \<and> sent (snd (reject_line err e)) = sent e
        @ Response_Bytes (NewResponse 421 ''Too many errors, closing connection'')
    \<and> (\<exists>r f. after_error rt ErrTooManyErrors (snd (reject_line err e)) = Return r f)"
proof -
  let ?resp = "NewResponse 421 ''Too many errors, closing connection''"
  let ?w = "snd (writeResponse ?resp (bump_errors e))"
  have "ss_ConsecutiveErrors (e_state (bump_errors e)) = ss_ConsecutiveErrors (e_state e) + 1"
    using assms(6) by (simp add: bump_errors_def)
  then have "checkErrorLimit (bump_errors e) = Some ErrTooManyErrors"
    using assms(4,5) by (simp add: checkErrorLimit_def CheckErrorCount_def)
  then have res: "reject_line err e = (Some ErrTooManyErrors, on_sm (\<lambda>m. snd (Abort m)) ?w)"
    by (simp add: reject_line_def Let_def)
  have abort: "sm_state (e_sm (snd (reject_line err e))) = StateAborted"
    using assms(1,2)
    by (cases "sm_state (e_sm e)") (auto simp: res sm_state_Abort engine_inv_def IsTerminal_def)
  have "writable (bump_errors e)" using assms(3) writable_conn [of "bump_errors e" e] by simp
  from writeResponse_writable(2) [OF this, of ?resp]
  have "sent (snd (reject_line err e)) = sent e @ Response_Bytes ?resp"
    using res sent_conn [of "on_sm (\<lambda>m. snd (Abort m)) ?w" ?w] sent_conn [of "bump_errors e" e] by simp
  with res abort leave_Return [of rt DisconnectNormal None "snd (reject_line err e)"]
  show ?thesis by (simp add: after_error_def IsTerminal_def)
qed

definition nearly_closed :: "(unit, Envelope list) Engine" where
  "nearly_closed = (greeted_engine TLSOptional [])\<lparr>e_state :=
     (e_state (greeted_engine TLSOptional []))\<lparr>ss_ConsecutiveErrors := 9\<rparr>\<rparr>"

theorem error_limit_closes_witness:
  "fst (reject_line (ErrNew ''bad'') nearly_closed) = Some ErrTooManyErrors"
proof -
  let ?g = "greeted_engine TLSOptional []"
  have cfg: "e_config ?g = sample_config TLSOptional" and conn: "e_conn ?g = NewBufferedConn (net_of [crlf_lines []])"
    unfolding greeted_engine_def sample_engine_def
    by (simp_all add: NewEngine_fields(1,3) [OF refl])
  have g: "greeted nearly_closed"
    using greeted_engine_greeted by (simp add: greeted_def nearly_closed_def)
  have "engine_inv nearly_closed" using session.init_inv [OF g] .
  moreover have "\<not> IsTerminal (sm_state (e_sm nearly_closed))"
    using g by (simp add: greeted_def IsTerminal_def)
  moreover have "writable nearly_closed"
    using conn by (simp add: writable_def nearly_closed_def NewBufferedConn_def net_of_def WrapNetConn_def)
  moreover have "MaxErrors (Limits (e_config nearly_closed)) = 10"
    "ss_ConsecutiveErrors (e_state nearly_closed) = 9"
    using cfg by (simp_all add: nearly_closed_def sample_config_def DefaultSessionLimits_def)
  ultimately show ?thesis using error_limit_closes [of nearly_closed "ErrNew ''bad''" sample_rt] by simp
qed

end
