(* ===== verification/Engine_Data.thy ===== *)
theory Engine_Data
  imports Engine_End
begin

text \<open>
  The data phase: what reaches the envelope is the unstuffed text up to the terminator, a client
  that stuffs its lines gets its message stored byte for byte, and a message is acknowledged
  only after the storage has taken it.
\<close>

section \<open>Lines\<close>

definition is_line :: "bytes \<Rightarrow> bool" where
  "is_line l \<longleftrightarrow> (\<exists>body. l = body @ [CHR 0x0A] \<and> CHR 0x0A \<notin> set body)"

lemma is_line_StuffLine: "is_line l \<Longrightarrow> is_line (StuffLine l)"
proof -
  assume "is_line l"
  then obtain body where l: "l = body @ [CHR 0x0A]" "CHR 0x0A \<notin> set body" by (auto simp: is_line_def)
  then have "StuffLine l = (if body \<noteq> [] \<and> hd body = CHR ''.'' then CHR ''.'' # body else body) @ [CHR 0x0A]"
    by (cases body) (simp_all add: StuffLine_def)
  with l(2) show ?thesis by (auto simp: is_line_def)
qed

lemma StuffLine_props:
  assumes "is_line l"
  shows "UnstuffLine (StuffLine l) = l" and "\<not> IsTerminator (StuffLine l)"
proof -
  from assms obtain body where l: "l = body @ [CHR 0x0A]" and body: "CHR 0x0A \<notin> set body"
    by (auto simp: is_line_def)
  show "UnstuffLine (StuffLine l) = l" by (simp add: UnstuffLine_def StuffLine_def)
  show "\<not> IsTerminator (StuffLine l)"
  proof (cases "body \<noteq> [] \<and> hd body = CHR ''.''")
    case True
    then have "StuffLine l = (CHR ''.'' # body) @ [CHR 0x0A]" by (simp add: StuffLine_def l)
    with True body show ?thesis using IsTerminator_line [of "CHR ''.'' # body"] by auto
  next
    case False
    then have "StuffLine l = body @ [CHR 0x0A]" by (cases body) (simp_all add: StuffLine_def l)
    with False body show ?thesis using IsTerminator_line [of body] by auto
  qed
qed

section \<open>Reading\<close>

lemma stream_set_read_deadline [simp]: "stream (e_conn (set_read_deadline d e)) = stream (e_conn e)"
  by (simp add: set_read_deadline_def)

lemma clean_set_read_deadline [simp]: "clean (e_conn (set_read_deadline d e)) = clean (e_conn e)"
  by (simp add: set_read_deadline_def)

lemma read_data_line_sound:
  assumes "read_data_line rt timeout e = (Inr line, e1)"
  shows "is_line line" and "stream (e_conn e) = line @ stream (e_conn e1)"
proof -
  obtain x f where c: "ctx_done rt e = (x, f)" by fastforce
  then have f: "e_conn f = e_conn e" using e_conn_simps(8) [of rt e] by simp
  obtain d y b w where rd: "ReadBytes rt (e_conn f) (e_world f) = (((d, y), b), w)"
    by (metis prod.exhaust)
  from assms c rd have "y = None" and line: "line = d" and e1: "stream (e_conn e1) = stream b"
    by (auto simp: read_data_line_def engine_now_def add_bytes_read_def split: option.splits prod.splits)
  with ReadBytes_framing [OF rd] f show "is_line line" "stream (e_conn e) = line @ stream (e_conn e1)"
    by (auto simp: is_line_def)
qed

lemma read_data_line_clean:
  assumes "clean (e_conn e)" and "\<forall>w. fst (rt_CtxDone rt w) = None"
    and "stream (e_conn e) = line @ rest" and "is_line line"
  shows "\<exists>e1. read_data_line rt timeout e = (Inr line, e1) \<and> stream (e_conn e1) = rest
    \<and> clean (e_conn e1)"
proof -
  from assms(4) obtain body where line: "line = body @ [CHR 0x0A]" and body: "CHR 0x0A \<notin> set body"
    by (auto simp: is_line_def)
  define f where "f = snd (ctx_done rt e)"
  have c: "ctx_done rt e = (None, f)"
    using assms(2) by (simp add: f_def ctx_done_def case_prod_beta)
  have f: "e_conn f = e_conn e" by (simp add: f_def)
  have "clean (e_conn f)" and lf: "CHR 0x0A \<in> set (stream (e_conn f))"
    using assms(1,3) line f by simp_all
  from ReadBytes_clean [OF this, of rt "e_world f"] obtain d b where
    rd: "ReadBytes rt (e_conn f) (e_world f) = (((d, None), b), e_world f)" and b: "clean b" by auto
  have "ReadBytes_step rt (e_conn f, e_world f) = ((d, None), b, e_world f)"
    using rd by (simp add: ReadBytes_step_def)
  from bytes_source.read_exact [OF this, of body rest] assms(3) line body f
  have "d = line" "stream b = rest" by simp_all
  with c rd b show ?thesis
    by (simp add: read_data_line_def engine_now_def add_bytes_read_def case_prod_beta)
qed

section \<open>What is written to the envelope\<close>

lemma length_UnstuffLine: "length (UnstuffLine line) \<le> length line"
  by (simp add: UnstuffLine_def)

text \<open>The lines of a data phase that ends with its terminator, and what they amount to: the
  engine consumed exactly these lines and the terminator, and wrote each line unstuffed. The
  size limit holds for the sum unless the byte count overflows, which takes \<open>2 ^ 63\<close> bytes.\<close>

definition data_lines :: "bytes list \<Rightarrow> bytes \<Rightarrow> bool" where
  "data_lines ls tm \<longleftrightarrow>
     list_all (\<lambda>l. is_line l \<and> \<not> IsTerminator l) ls \<and> is_line tm \<and> IsTerminator tm"

definition unstuffed :: "bytes list \<Rightarrow> bytes" where
  "unstuffed ls = concat (map UnstuffLine ls)"

lemma stream_loop_sound:
  assumes "stream_loop rt wr timeout n bb e = ((totalBytes, None), b', e')" and "bb = StdB b"
  shows "\<exists>ls tm. stream (e_conn e) = concat ls @ tm @ stream (e_conn e') \<and> data_lines ls tm
    \<and> b' = StdB (b\<lparr>b_data := b_data b @ unstuffed ls\<rparr>)
    \<and> (0 \<le> n \<longrightarrow> n + int (length (stream (e_conn e))) < 2 ^ 63 \<longrightarrow>
        0 < MaxMessageSize (Limits (e_config e)) \<longrightarrow> n \<le> MaxMessageSize (Limits (e_config e)) \<longrightarrow>
        n + int (length (unstuffed ls)) \<le> MaxMessageSize (Limits (e_config e)))"
  using assms
proof (induction rt wr timeout n bb e arbitrary: b rule: stream_loop.induct)
  case (1 rt wr timeout n bb e)
  note loop = stream_loop.simps [of rt wr timeout n "StdB b" e]
  note prems = "1.prems"(1) [unfolded "1.prems"(2)]
  obtain r e1 where r: "read_data_line rt timeout e = (r, e1)" by fastforce
  with prems obtain line where line: "r = Inr line"
    by (auto simp: loop split: sum.splits)
  note rd = read_data_line_sound [OF r [unfolded line]]
  have cfg: "e_config e1 = e_config e" using core_data_fields(1) [of rt timeout e] r by simp
  show ?case
  proof (cases "IsTerminator line")
    case True
    with prems r line rd show ?thesis
      by (intro exI [of _ "[]"] exI [of _ line]) (simp add: loop data_lines_def unstuffed_def)
  next
    case False
    from prems r line False
    have short: "\<not> line_too_long (Limits (e_config e1)) line"
      and small: "\<not> message_too_large (Limits (e_config e1)) n (UnstuffLine line)"
      by (auto simp: loop split: if_splits)
    obtain k x b1 where wrt: "writer_Write wr (UnstuffLine line) b = ((k, x), b1)" by (metis prod.exhaust)
    then have wr: "eb_Write wr (UnstuffLine line) bb (e_world e1) = (((k, x), StdB b1), e_world e1)"
      using "1.prems"(2) by simp
    from prems r line False short small wrt have x: "x = None"
      and rec: "stream_loop rt wr timeout (i64 (n + int k)) (StdB b1) (e1\<lparr>e_world := e_world e1\<rparr>)
        = ((totalBytes, None), b', e')"
      by (auto simp: loop split: option.splits)
    have b1: "b1 = b\<lparr>b_data := b_data b @ UnstuffLine line\<rparr>" and k: "k = length (UnstuffLine line)"
      using wrt x by (auto simp: writer_Write_def split: if_splits)
    from "1.IH" [OF r [symmetric] line False short small wr [symmetric] refl refl x rec refl]
    obtain ls tm where IH: "stream (e_conn e1) = concat ls @ tm @ stream (e_conn e')"
      "data_lines ls tm" "b' = StdB (b1\<lparr>b_data := b_data b1 @ unstuffed ls\<rparr>)"
      "0 \<le> i64 (n + int k) \<Longrightarrow> i64 (n + int k) + int (length (stream (e_conn e1))) < 2 ^ 63 \<Longrightarrow>
        0 < MaxMessageSize (Limits (e_config e1)) \<Longrightarrow>
        i64 (n + int k) \<le> MaxMessageSize (Limits (e_config e1)) \<Longrightarrow>
        i64 (n + int k) + int (length (unstuffed ls)) \<le> MaxMessageSize (Limits (e_config e1))" by auto
    have "n + int (length (unstuffed (line # ls))) \<le> MaxMessageSize (Limits (e_config e))"
      if n: "0 \<le> n" "n + int (length (stream (e_conn e))) < 2 ^ 63" "0 < MaxMessageSize (Limits (e_config e))"
    proof -
      have "n + int k + int (length (stream (e_conn e1))) < 2 ^ 63"
        using n(2) rd(2) length_UnstuffLine [of line] by (simp add: k)
      moreover from this n(1) have "i64 (n + int k) = n + int k" by simp
      ultimately show ?thesis
        using IH(4) n small cfg by (simp add: message_too_large_def k unstuffed_def)
    qed
    with IH(1-3) rd False b1 show ?thesis
      by (intro exI [of _ "line # ls"] exI [of _ tm]) (simp add: data_lines_def unstuffed_def)
  qed
qed

text \<open>The other direction: on a connection without errors a client that stuffs its lines and
  stays within the limits gets every line through.\<close>

definition within_limits :: "SessionLimits \<Rightarrow> int \<Rightarrow> bytes list \<Rightarrow> bool" where
  "within_limits l n ls \<longleftrightarrow>
     list_all (\<lambda>line. \<not> line_too_long l (StuffLine line)) ls
     \<and> (0 < MaxMessageSize l \<longrightarrow> n + int (length (concat ls)) \<le> MaxMessageSize l)
     \<and> 0 \<le> n \<and> n + int (length (concat ls)) < 2 ^ 63"

lemma within_limits_Cons:
  "within_limits l n (line # ls) \<Longrightarrow> \<not> line_too_long l (StuffLine line)
     \<and> \<not> message_too_large l n line \<and> i64 (n + int (length line)) = n + int (length line)
     \<and> within_limits l (n + int (length line)) ls"
  by (auto simp: within_limits_def message_too_large_def)

lemma stream_loop_complete:
  assumes "clean (e_conn e)" and ctx: "\<forall>w. fst (rt_CtxDone rt w) = None"
    and "stream (e_conn e) = concat (map StuffLine ls) @ tm @ rest"
    and tm: "is_line tm" "IsTerminator tm" and "list_all is_line ls"
    and "within_limits (Limits (e_config e)) n ls"
    and "\<not> (wr < length (b_writers b) \<and> b_writers b ! wr)"
  shows "\<exists>e'. stream_loop rt wr timeout n (StdB b) e =
      ((n + int (length (concat ls)), None), StdB (b\<lparr>b_data := b_data b @ concat ls\<rparr>), e')
    \<and> stream (e_conn e') = rest \<and> clean (e_conn e')"
  using assms(1,3,6-8)
proof (induction ls arbitrary: n b e)
  case Nil
  from read_data_line_clean [OF Nil(1) ctx, of tm rest timeout] Nil(2) tm
  obtain e1 where "read_data_line rt timeout e = (Inr tm, e1)" "stream (e_conn e1) = rest"
    "clean (e_conn e1)" by auto
  with tm show ?case by (simp add: stream_loop.simps [of rt wr timeout n])
next
  case (Cons line ls)
  have line: "is_line line" using Cons.prems(3) by simp
  from read_data_line_clean [OF Cons.prems(1) ctx, of "StuffLine line"
      "concat (map StuffLine ls) @ tm @ rest" timeout]
  obtain e1 where r: "read_data_line rt timeout e = (Inr (StuffLine line), e1)"
    and e1: "stream (e_conn e1) = concat (map StuffLine ls) @ tm @ rest" "clean (e_conn e1)"
    using Cons.prems(2) is_line_StuffLine [OF line] by auto
  have cfg: "e_config e1 = e_config e" using core_data_fields(1) [of rt timeout e] r by simp
  note lim = within_limits_Cons [OF Cons.prems(4)]
  let ?b = "b\<lparr>b_data := b_data b @ line\<rparr>"
  have "\<exists>e'. stream_loop rt wr timeout (n + int (length line)) (StdB ?b) e1 =
      ((n + int (length line) + int (length (concat ls)), None),
       StdB (?b\<lparr>b_data := b_data ?b @ concat ls\<rparr>), e')
    \<and> stream (e_conn e') = rest \<and> clean (e_conn e')"
    using Cons.IH [OF e1(2,1), of "n + int (length line)" ?b] Cons.prems(3,5) lim cfg by simp
  then obtain e' where rec: "stream_loop rt wr timeout (n + int (length line)) (StdB ?b) e1 =
      ((n + int (length line) + int (length (concat ls)), None),
       StdB (?b\<lparr>b_data := b_data ?b @ concat ls\<rparr>), e')"
    and e': "stream (e_conn e') = rest" "clean (e_conn e')" by blast
  have "writer_Write wr line b = ((length line, None), ?b)"
    using Cons.prems(5) by (auto simp: writer_Write_def)
  with r rec lim cfg StuffLine_props [OF line]
  have "stream_loop rt wr timeout n (StdB b) e =
      ((n + int (length line) + int (length (concat ls)), None),
       StdB (?b\<lparr>b_data := b_data ?b @ concat ls\<rparr>), e')"
    by (simp add: stream_loop.simps [of rt wr timeout n])
  with e' show ?case by (simp add: add.assoc)
qed

section \<open>The handler\<close>

text \<open>The envelope a draft becomes when it is closed with a given text.\<close>

definition sealed :: "StandardEnvelopeBuilder \<Rightarrow> bytes \<Rightarrow> Envelope" where
  "sealed b text = (Build b)\<lparr>env_data := text, env_finalized := True\<rparr>"

text \<open>The world a storage left, after the hook \<open>OnDataEnd\<close> if there is one.\<close>

definition after_data_end :: "Envelope \<Rightarrow> 'w \<Rightarrow> ('b, 'w) Engine \<Rightarrow> bool" where
  "after_data_end env w e' =
     (case Hooks (e_config e') of
        None \<Rightarrow> e_world e' = w
      | Some h \<Rightarrow> \<exists>i. e_world e' = OnDataEnd h env i w)"

lemma e_world_state [simp]: "e_world (set_state s f) = e_world f" "e_world (on_sm g f) = e_world f"
  by (simp_all add: set_state_def on_sm_def)

lemma after_data_end_hook [simp]:
  "e_world f = w \<Longrightarrow> after_data_end env w (run_hook (\<lambda>h i. OnDataEnd h env i) f)"
  by (auto simp: after_data_end_def run_hook_def split: option.splits)

text \<open>A draft ready for data: what \<^const>\<open>engine_inv\<close> guarantees in the state \<open>RcptTo\<close>.\<close>

definition ready :: "StandardEnvelopeBuilder \<Rightarrow> bool" where
  "ready b \<longleftrightarrow> b_mailFrom b \<noteq> None \<and> \<not> b_finalized b \<and> b_dataWriter b = None \<and> b_data b = []
     \<and> b_writers b = [] \<and> b_recipients b \<noteq> []"

definition opened :: "StandardEnvelopeBuilder \<Rightarrow> bytes \<Rightarrow> StandardEnvelopeBuilder" where
  "opened b text = b\<lparr>b_dataWriter := Some 0, b_writers := [False], b_data := text\<rparr>"

lemma engine_inv_ready:
  assumes "engine_inv e" and "sm_state (e_sm e) = StateRcptTo" and "e_envelope e = Some (StdB b)"
  shows "ready b"
  using assms by (simp add: engine_inv_def envelope_ok_def draft_ok_def ready_def)

lemma finish_data_opened:
  assumes "ready b"
  shows "finish_data 0 (StdB (opened b text)) e =
     (case store_message (sealed b text) e of
        (Some _, e1) \<Rightarrow> abandon_data (NewResponse Reply451LocalError ''Unable to store message'') e1
      | (None, e1) \<Rightarrow> message_accepted (sealed b text) e1)"
proof -
  let ?c = "snd (writer_Close 0 (opened b text))"
  from assms have "fst (Finalize ?c) = Inr (sealed b text)"
    by (auto simp: ready_def opened_def Finalize_def writer_Close_def writer_open_def sealed_def Build_def)
  then obtain c where "Finalize ?c = (Inr (sealed b text), c)" by (metis prod.collapse)
  then show ?thesis by (simp add: finish_data_def writer_Close_def)
qed

definition data_timeout :: "SessionLimits \<Rightarrow> duration" where
  "data_timeout l = (if DataTimeout l = 0 then 10 * Minute else DataTimeout l)"

lemma receive_data_ready:
  assumes "ready b"
  shows "receive_data rt (StdB b) e =
     (case streamData rt 0 (data_timeout (Limits (e_config e))) (StdB (opened b [])) e of
        ((_, Some err), b2, e2) \<Rightarrow>
          abandon_data (data_error_response err) (e2\<lparr>e_world := snd (eb_Close 0 b2 (e_world e2))\<rparr>)
      | ((_, None), b2, e2) \<Rightarrow> finish_data 0 b2 e2)"
proof -
  have "DataWriter b = (Inr 0, opened b [])"
    using assms by (simp add: ready_def DataWriter_def opened_def)
  then show ?thesis by (simp add: receive_data_def data_timeout_def case_prod_beta split: option.split)
qed

text \<open>What the reply code tells: only the branch that has stored the message answers 250.\<close>

lemma data_error_response_code: "r_Code (data_error_response err) \<noteq> 250"
  by (simp add: data_error_response_def NewResponse_def)

lemma finish_data_250:
  assumes "finish_data 0 (StdB (opened b text)) e = (resp, e')" and "ready b" and "r_Code resp = 250"
    and "cf_Storage (e_config e) = Some store"
  shows "\<exists>receipt w. store (sealed b text) (e_world e) = (Inr receipt, w)
    \<and> stream (e_conn e') = stream (e_conn e) \<and> after_data_end (sealed b text) w e'"
proof -
  obtain r w where st: "store (sealed b text) (e_world e) = (r, w)" by fastforce
  show ?thesis
  proof (cases r)
    case (Inl err)
    with assms(1,3) st show ?thesis
      by (auto simp: finish_data_opened [OF assms(2)] store_message_def assms(4) abandon_data_def NewResponse_def)
  next
    case (Inr receipt)
    with assms(1) st show ?thesis
      by (auto simp: finish_data_opened [OF assms(2)] store_message_def assms(4) message_accepted_def
          Let_def)
  qed
qed

lemma streamData_loop:
  assumes "streamData rt wr timeout b e = (res, b', e')"
  obtains f e2 where "stream_loop rt wr timeout 0 b f = (res, b', e2)"
    and "stream (e_conn e') = stream (e_conn e2)" and "stream (e_conn f) = stream (e_conn e)"
    and "e_config f = e_config e"
proof -
  obtain t e1 where now: "engine_now rt e = (t, e1)" by fastforce
  then have e1: "e_conn e1 = e_conn e" "e_config e1 = e_config e"
    using e_conn_simps(9) [of rt e] core_fields(2) [of rt e] by simp_all
  let ?f = "set_read_deadline (Some (t + timeout)) e1"
  obtain e2 where "stream_loop rt wr timeout 0 b ?f = (res, b', e2)" "e' = set_read_deadline None e2"
    using assms now by (auto simp: streamData_def split: prod.splits)
  with that [of ?f e2] e1 show thesis by simp
qed

text \<open>What the handler sends first changes neither what is still to be read nor the draft.\<close>

definition data_started :: "('b, 'w) Engine \<Rightarrow> ('b, 'w) Engine" where
  "data_started e = snd (writeResponse ResponseStartMailInput
     (run_hook OnDataStart (set_state StateData (sm_command CmdDATA e))))"

lemma data_started_simps [simp]:
  "e_config (data_started e) = e_config e" "e_envelope (data_started e) = e_envelope e"
  "stream (e_conn (data_started e)) = stream (e_conn e)"
proof -
  have "stream (e_conn (snd (writeResponse r f))) = stream (e_conn f)" for r and f :: "('a, 'b) Engine"
    by (simp add: writeResponse_def case_prod_beta)
  then show "stream (e_conn (data_started e)) = stream (e_conn e)" by (simp add: data_started_def)
qed (simp_all add: data_started_def)

lemma handleDATA_started:
  assumes "handleDATA rt cmd e = Inr (resp, e')" and "e_envelope e = Some b" and "r_Code resp \<noteq> 0"
  shows "receive_data rt b (data_started e) = (resp, e')"
proof -
  let ?w = "writeResponse ResponseStartMailInput
    (run_hook OnDataStart (set_state StateData (sm_command CmdDATA e)))"
  have "fst ?w = None"
    using assms(1,3) by (auto simp: handleDATA_def zero_Response_def case_prod_beta split: option.splits)
  then have "?w = (None, data_started e)" by (metis data_started_def prod.collapse)
  with assms(1) data_started_simps(2) [of e] assms(2) show ?thesis by (simp add: handleDATA_def)
qed

lemma streamData_complete:
  assumes "clean (e_conn e)" and "\<forall>w. fst (rt_CtxDone rt w) = None"
    and "stream (e_conn e) = concat (map StuffLine ls) @ tm @ rest" and "is_line tm" "IsTerminator tm"
    and "list_all is_line ls" and "within_limits (Limits (e_config e)) 0 ls"
  shows "\<exists>e'. streamData rt 0 timeout (StdB (opened b [])) e =
      ((int (length (concat ls)), None), StdB (opened b (concat ls)), e') \<and> stream (e_conn e') = rest"
proof -
  obtain t e1 where now: "engine_now rt e = (t, e1)" by fastforce
  then have e1: "e_conn e1 = e_conn e" "e_config e1 = e_config e"
    using e_conn_simps(9) [of rt e] core_fields(2) [of rt e] by simp_all
  let ?f = "set_read_deadline (Some (t + timeout)) e1"
  have "clean (e_conn ?f)" "stream (e_conn ?f) = concat (map StuffLine ls) @ tm @ rest"
    "within_limits (Limits (e_config ?f)) 0 ls" using assms(1,3,7) e1 by simp_all
  from stream_loop_complete [OF this(1) assms(2) this(2) assms(4-6) this(3), of 0 "opened b []" timeout]
  obtain e' where "stream_loop rt 0 timeout 0 (StdB (opened b [])) ?f =
      ((int (length (concat ls)), None), StdB (opened b (concat ls)), e')" "stream (e_conn e') = rest"
    by (auto simp: opened_def)
  with now show ?thesis by (simp add: streamData_def)
qed

lemma clean_data_started: "clean (e_conn e) \<Longrightarrow> clean (e_conn (data_started e))"
proof -
  have "clean (e_conn (snd (writeResponse r f)))" if "clean (e_conn f)" for r and f :: "('a, 'b) Engine"
    using that
    by (auto simp: writeResponse_def clean_def Net_Write_def tr_Write_def case_prod_beta split: list.split)
  then show "clean (e_conn e) \<Longrightarrow> clean (e_conn (data_started e))"
    unfolding data_started_def by simp
qed

text \<open>The outcome of a data phase that went through: it depends only on what the storage returned,
  and the world is the one the storage left, or a hook made of it.\<close>

definition data_outcome ::
    "(goerror + StorageReceipt) \<times> 'w \<Rightarrow> Envelope \<Rightarrow> Response \<Rightarrow> ('b, 'w) Engine \<Rightarrow> bool" where
  "data_outcome rw env resp e' =
     (case rw of
        (Inr _, w) \<Rightarrow> resp = NewResponse Reply250OK (''OK, message '' @ env_id env @ '' accepted'')
          \<and> sm_state (e_sm e') = StateIdentified \<and> e_envelope e' = None
          \<and> after_data_end env w e'
      | (Inl _, w) \<Rightarrow> resp = NewResponse Reply451LocalError ''Unable to store message'' \<and> e_world e' = w)"

lemma finish_data_outcome:
  assumes "ready b" and "cf_Storage (e_config e) = Some store" and "sm_state (e_sm e) = StateData"
    and "finish_data 0 (StdB (opened b text)) e = (resp, e')"
  shows "data_outcome (store (sealed b text) (e_world e)) (sealed b text) resp e'
    \<and> stream (e_conn e') = stream (e_conn e)"
proof (cases "store (sealed b text) (e_world e)")
  case (Pair r w)
  with assms(2-4) show ?thesis
    by (cases r) (auto simp: data_outcome_def finish_data_opened [OF assms(1)] store_message_def
        abandon_data_def message_accepted_def Let_def sm_state_Reset sm_state_DataComplete)
qed

lemma handleDATA_complete:
  assumes "ready b" and "sm_state (e_sm e) = StateRcptTo" and "e_envelope e = Some (StdB b)"
    and "cf_Storage (e_config e) = Some store"
    and "clean (e_conn e)" and "writable e" and "\<forall>w. fst (rt_CtxDone rt w) = None"
    and "stream (e_conn e) = concat (map StuffLine ls) @ tm @ rest" and "is_line tm" "IsTerminator tm"
    and "list_all is_line ls" and "within_limits (Limits (e_config e)) 0 ls"
  shows "\<exists>resp e' w. handleDATA rt cmd e = Inr (resp, e') \<and> stream (e_conn e') = rest
    \<and> data_outcome (store (sealed b (concat ls)) w) (sealed b (concat ls)) resp e'"
proof -
  let ?h = "run_hook OnDataStart (set_state StateData (sm_command CmdDATA e))"
  have "fst (writeResponse ResponseStartMailInput ?h) = None"
    by (rule writeResponse_writable) (use assms(6) in \<open>simp add: writable_conn [of ?h e]\<close>)
  then have start: "writeResponse ResponseStartMailInput ?h = (None, data_started e)"
    by (metis data_started_def prod.collapse)
  let ?t = "data_timeout (Limits (e_config e))"
  from streamData_complete [OF clean_data_started [OF assms(5)] assms(7), of ls tm rest ?t b] assms(8-12)
  obtain e2 where sd: "streamData rt 0 ?t (StdB (opened b [])) (data_started e) =
      ((int (length (concat ls)), None), StdB (opened b (concat ls)), e2)" and e2: "stream (e_conn e2) = rest"
    by auto
  have core2: "core e2 = core (data_started e)"
    using core_streamData [of rt 0 ?t "StdB (opened b [])" "data_started e", unfolded sd] by simp
  moreover have "sm_state (e_sm (data_started e)) = StateData"
    using assms(2) by (simp add: data_started_def sm_eval)
  ultimately have e2': "sm_state (e_sm e2) = StateData" "cf_Storage (e_config e2) = Some store"
    using assms(4) by (simp_all add: core_def)
  obtain resp e' where fin: "finish_data 0 (StdB (opened b (concat ls))) e2 = (resp, e')" by fastforce
  have "handleDATA rt cmd e = Inr (resp, e')"
    using start sd fin by (simp add: handleDATA_def assms(3) receive_data_ready [OF assms(1)])
  with finish_data_outcome [OF assms(1) e2'(2,1) fin] e2 show ?thesis by blast
qed

text \<open>
  (C1) A message is acknowledged only when it is safe. If DATA is answered with 250, the storage
  has returned a receipt for an envelope with exactly the sender, the recipients and the
  metadata of the transaction, whose text is what the client sent between the DATA command and
  the first terminator line, each line unstuffed; what the storage did is in the world the handler
  returns; the engine consumed exactly these lines; and the text is no longer than \<open>MaxMessageSize\<close> where one is set.
\<close>

theorem acknowledged_means_stored:
  assumes "engine_inv e" and "sm_state (e_sm e) = StateRcptTo" and "e_envelope e = Some (StdB b)"
    and "cf_Storage (e_config e) = Some store"
    and "handleDATA rt cmd e = Inr (resp, e')" and "r_Code resp = Reply250OK"
  shows "\<exists>ls tm receipt w w'. stream (e_conn e) = concat ls @ tm @ stream (e_conn e') \<and> data_lines ls tm
    \<and> store (sealed b (unstuffed ls)) w = (Inr receipt, w') \<and> after_data_end (sealed b (unstuffed ls)) w' e'
    \<and> (0 < MaxMessageSize (Limits (e_config e)) \<longrightarrow> length (stream (e_conn e)) < 2 ^ 63 \<longrightarrow>
        int (length (unstuffed ls)) \<le> MaxMessageSize (Limits (e_config e)))"
proof -
  let ?e = "data_started e"
  let ?t = "data_timeout (Limits (e_config ?e))"
  have b: "ready b" by (rule engine_inv_ready [OF assms(1-3)])
  have rc: "receive_data rt (StdB b) ?e = (resp, e')"
    by (rule handleDATA_started [OF assms(5,3)]) (simp add: assms(6))
  obtain n x b2 e2 where sd: "streamData rt 0 ?t (StdB (opened b [])) ?e = ((n, x), b2, e2)"
    by (metis prod.exhaust)
  have x: "x = None"
    using rc sd assms(6) data_error_response_code
    by (auto simp: receive_data_ready [OF b] abandon_data_def split: option.splits)
  from streamData_loop [OF sd] obtain f e3 where
    loop: "stream_loop rt 0 ?t 0 (StdB (opened b [])) f = ((n, None), b2, e3)"
    and f: "stream (e_conn e2) = stream (e_conn e3)" "stream (e_conn f) = stream (e_conn e)"
      "e_config f = e_config e" unfolding x by auto
  from stream_loop_sound [OF loop refl] obtain ls tm where
    ls: "stream (e_conn e) = concat ls @ tm @ stream (e_conn e2)" "data_lines ls tm"
      "b2 = StdB (opened b (unstuffed ls))"
      "length (stream (e_conn e)) < 2 ^ 63 \<Longrightarrow> 0 < MaxMessageSize (Limits (e_config e)) \<Longrightarrow>
        int (length (unstuffed ls)) \<le> MaxMessageSize (Limits (e_config e))"
    using f by (auto simp: opened_def)
  have "e_config e2 = e_config e"
    using core_streamData [of rt 0 ?t "StdB (opened b [])" ?e, unfolded sd core_def] by simp
  moreover have "finish_data 0 (StdB (opened b (unstuffed ls))) e2 = (resp, e')"
    using rc sd x ls(3) by (simp add: receive_data_ready [OF b])
  ultimately obtain receipt w where "store (sealed b (unstuffed ls)) (e_world e2) = (Inr receipt, w)"
    "stream (e_conn e') = stream (e_conn e2)" "after_data_end (sealed b (unstuffed ls)) w e'"
    using finish_data_250 [OF _ b, of "unstuffed ls" e2 resp e' store] assms(4,6) by auto
  with ls(1,2,4) show ?thesis by metis
qed

text \<open>
  (C7) Transparency: on a connection without errors, with a client that dot-stuffs its lines and
  stays within the limits, every message gets through byte for byte. DATA consumes the message
  and its terminator, leaving what the client pipelined behind it, and hands the storage an
  envelope with the transaction's sender and recipients and exactly the text before stuffing;
  the reply is 250 if the storage takes it, and the session is ready for the next transaction,
  and 451 if not.
\<close>

theorem stuffed_message_arrives:
  assumes "engine_inv e" and "sm_state (e_sm e) = StateRcptTo" and "e_envelope e = Some (StdB b)"
    and "cf_Storage (e_config e) = Some store"
    and "clean (e_conn e)" and "writable e" and "\<forall>w. fst (rt_CtxDone rt w) = None"
    and "stream (e_conn e) = concat (map StuffLine ls) @ tm @ rest" and "is_line tm" "IsTerminator tm"
    and "list_all is_line ls" and "within_limits (Limits (e_config e)) 0 ls"
  shows "\<exists>resp e' w. handleDATA rt cmd e = Inr (resp, e') \<and> stream (e_conn e') = rest
    \<and> data_outcome (store (sealed b (concat ls)) w) (sealed b (concat ls)) resp e'"
  by (rule handleDATA_complete [OF engine_inv_ready [OF assms(1-3)] assms(2-12)])

section \<open>A sample data phase\<close>

definition sample_draft :: StandardEnvelopeBuilder where
  "sample_draft = sample_builder\<lparr>b_dataWriter := None, b_writers := [],
     b_recipients := [\<lparr>mp_Address = ''a@b'', mp_SourceRoute = [], mp_IsNull = False\<rparr>]\<rparr>"

definition data_engine :: "(unit, Envelope list) Engine" where
  "data_engine = (set_state StateRcptTo (greeted_engine TLSOptional [''hi'', ''..dots'', ''.'', ''NOOP'']))
     \<lparr>e_sm := \<lparr>sm_state = StateRcptTo, sm_observer = NullStateObserver\<rparr>,
       e_envelope := Some (StdB sample_draft)\<rparr>"

definition data_command :: Command where
  "data_command = \<lparr>cmd_Verb = CmdDATA, cmd_Raw = ''DATA'', cmd_Argument = [], cmd_Params = None\<rparr>"

definition sample_store :: "Envelope list Storage" where
  "sample_store env w = (Inr \<lparr>rc_MessageID = env_id env, rc_EnvelopeID = env_id env,
        rc_StoredAt = 0, rc_BytesWritten = DataSize env, rc_Backend = None\<rparr>, w @ [env])"

definition sample_lines :: "bytes list" where
  "sample_lines = [''hi'' @ [CHR 0x0D, CHR 0x0A], ''.dots'' @ [CHR 0x0D, CHR 0x0A]]"

definition sample_end :: bytes where
  "sample_end = ''.'' @ [CHR 0x0D, CHR 0x0A]"

lemma data_engine_conn:
  "e_config data_engine = sample_config TLSOptional"
  "e_conn data_engine = NewBufferedConn (net_of [crlf_lines [''hi'', ''..dots'', ''.'', ''NOOP'']])"
  unfolding data_engine_def greeted_engine_def sample_engine_def
  by (simp_all add: NewEngine_fields(1,3) [OF refl])

lemma data_engine_premises:
  "engine_inv data_engine" "sm_state (e_sm data_engine) = StateRcptTo"
  "e_envelope data_engine = Some (StdB sample_draft)"
  "cf_Storage (e_config data_engine) = Some sample_store"
  "clean (e_conn data_engine)" "writable data_engine" "\<forall>w. fst (rt_CtxDone sample_rt w) = None"
  "stream (e_conn data_engine) =
     concat (map StuffLine sample_lines) @ sample_end @ ''NOOP'' @ [CHR 0x0D, CHR 0x0A]"
  "is_line sample_end" "IsTerminator sample_end" "list_all is_line sample_lines"
  "within_limits (Limits (e_config data_engine)) 0 sample_lines"
proof -
  have tls: "\<not> ss_TLSActive (e_state data_engine)"
    by (simp add: data_engine_def greeted_engine_def sample_engine_def NewEngineWithConn_def
        case_prod_beta Let_def sample_rt_def)
  show sm: "sm_state (e_sm data_engine) = StateRcptTo"
    and env: "e_envelope data_engine = Some (StdB sample_draft)"
    by (simp_all add: data_engine_def)
  have "MaxRecipients (Limits (e_config data_engine)) = 100" "cf_TLSPolicy (e_config data_engine) = TLSOptional"
    by (simp_all add: data_engine_conn sample_config_def DefaultSessionLimits_def)
  moreover have "ss_State (e_state data_engine) = StateRcptTo" by (simp add: data_engine_def set_state_def)
  moreover from sm tls calculation have "draft_ok data_engine sample_draft"
    by (simp add: draft_ok_def sample_draft_def sample_builder_def)
  ultimately show "engine_inv data_engine"
    using sm env by (simp add: engine_inv_def envelope_ok_def)
  show "cf_Storage (e_config data_engine) = Some sample_store"
    by (simp add: data_engine_conn sample_config_def sample_store_def [abs_def])
  show "clean (e_conn data_engine)" "writable data_engine"
    by (simp_all add: data_engine_conn writable_def clean_def NewBufferedConn_def net_of_def
        WrapNetConn_def crlf_lines_def)
  show "\<forall>w. fst (rt_CtxDone sample_rt w) = None" by (simp add: sample_rt_def)
  show "stream (e_conn data_engine) =
      concat (map StuffLine sample_lines) @ sample_end @ ''NOOP'' @ [CHR 0x0D, CHR 0x0A]"
    by (simp add: data_engine_conn stream_def NewBufferedConn_def net_of_def WrapNetConn_def
        crlf_lines_def sample_lines_def sample_end_def StuffLine_def)
  show "is_line sample_end" "list_all is_line sample_lines"
    by (auto simp: is_line_def sample_end_def sample_lines_def intro: exI [of _ "''.'' @ [CHR 0x0D]"]
        exI [of _ "''hi'' @ [CHR 0x0D]"] exI [of _ "''.dots'' @ [CHR 0x0D]"])
  show "IsTerminator sample_end" by code_simp
  show "within_limits (Limits (e_config data_engine)) 0 sample_lines"
    by (simp add: data_engine_conn sample_config_def DefaultSessionLimits_def within_limits_def
        sample_lines_def line_too_long_def StuffLine_def)
qed

theorem stuffed_message_arrives_witness:
  "\<exists>resp e' w. handleDATA sample_rt data_command data_engine = Inr (resp, e')
    \<and> data_outcome (sample_store (sealed sample_draft (concat sample_lines)) w)
        (sealed sample_draft (concat sample_lines)) resp e'"
  using stuffed_message_arrives [OF data_engine_premises, of data_command] by blast

theorem acknowledged_means_stored_witness:
  "\<exists>resp e' ls w. handleDATA sample_rt data_command data_engine = Inr (resp, e')
    \<and> r_Code resp = Reply250OK \<and> (\<exists>receipt w'. sample_store (sealed sample_draft (unstuffed ls)) w = (Inr receipt, w'))"
proof -
  from handleDATA_complete [OF engine_inv_ready [OF data_engine_premises(1-3)]
      data_engine_premises(2-12), of data_command]
  obtain resp e' w where h: "handleDATA sample_rt data_command data_engine = Inr (resp, e')"
    and "data_outcome (sample_store (sealed sample_draft (concat sample_lines)) w)
      (sealed sample_draft (concat sample_lines)) resp e'" by blast
  then have "r_Code resp = Reply250OK"
    by (simp add: data_outcome_def sample_store_def NewResponse_def)
  with h acknowledged_means_stored [OF data_engine_premises(1-4) h] show ?thesis by blast
qed

end
