(* ===== verification/Engine_Replies.thy ===== *)
theory Engine_Replies
  imports Engine_Data
begin

text \<open>
  What the client sees: every command line gets exactly one reply, the data phase an additional
  354, and every reply is well formed, with a three-digit code and lines a client can tell
  apart. And what the session counts: no more transactions than the limit allows.
\<close>

section \<open>Reading sends nothing\<close>

text \<open>The sending half of a connection: what was sent, the results of the writes to come, and
  whether a pipe is closed.\<close>

fun sending :: "Conn \<Rightarrow> bytes \<times> (nat \<times> goerror option) list \<times> bool" where
  "sending (Net c) = (tr_sent (nc_conn c), tr_writes (nc_conn c), False)"
| "sending (Pipe c) = (tr_sent (pc_rw c), tr_writes (pc_rw c), pc_closed c)"

definition out :: "('b, 'w) Engine \<Rightarrow> bytes \<times> (nat \<times> goerror option) list \<times> bool" where
  "out e = sending (bc_conn (e_conn e))"

lemma sent_out: "sent e = fst (out e)"
  by (cases "bc_conn (e_conn e)") (simp_all add: sent_def out_def)

lemma writable_out: "writable e \<longleftrightarrow> snd (out e) = ([], False)"
  by (cases "bc_conn (e_conn e)") (auto simp: writable_def out_def)

lemma out_conn: "e_conn f = e_conn e \<Longrightarrow> out f = out e"
  by (simp add: out_def)

lemma sending_Conn_Read: "Conn_Read rt c w = ((res, c'), w') \<Longrightarrow> sending c' = sending c"
  by (cases c) (auto simp: Net_Read_def Pipe_Read_def tr_Read_def Let_def
      split: prod.splits list.splits if_splits option.splits)

lemma sending_SetReadDeadline [simp]: "sending (Conn_SetReadDeadline d c) = sending c"
  by (cases c) (simp_all add: Pipe_SetReadDeadline_def Let_def)

lemma sending_fill_loop: "sending (bc_conn (fst (fill_loop rt n b w))) = sending (bc_conn b)"
proof (induction n arbitrary: b w)
  case (Suc n)
  obtain d x c w' where rd: "Conn_Read rt (bc_conn b) w = (((d, x), c), w')" by (metis prod.exhaust)
  with sending_Conn_Read [OF rd] Suc.IH show ?case by (auto simp: Let_def split: option.split)
qed simp

lemma sending_ReadBytes: "sending (bc_conn (snd (fst (ReadBytes rt b w)))) = sending (bc_conn b)"
proof (induction rt b w rule: ReadBytes.induct)
  case (1 rt b w)
  then show ?case
    using sending_fill_loop [of rt 100 b w]
    by (simp add: ReadBytes.simps [of rt b w] fill_def split: option.split)
qed

lemma out_readLine: "out (snd (readLine rt t e)) = out e"
  by (simp add: readLine_def ReadLine_def out_def Let_def case_prod_beta sending_ReadBytes add_bytes_read_def
      split: option.split)

lemma out_set_read_deadline [simp]: "out (set_read_deadline d e) = out e"
  by (simp add: out_def set_read_deadline_def)

lemma out_read_data_line: "out (snd (read_data_line rt t e)) = out e"
proof -
  have "out (snd (ctx_done rt e)) = out e" by (rule out_conn) simp
  then show ?thesis
    by (auto simp: read_data_line_def case_prod_beta out_def sending_ReadBytes engine_now_def add_bytes_read_def
        set_read_deadline_def split: option.split)
qed

lemma out_stream_loop: "out (snd (snd (stream_loop rt wr t n b e))) = out e"
proof (induction rt wr t n b e rule: stream_loop.induct)
  case (1 rt wr t n b e)
  obtain r e1 where r: "read_data_line rt t e = (r, e1)" by fastforce
  then have e1: "out e1 = out e" using out_read_data_line [of rt t e] by simp
  then have w: "out (e1\<lparr>e_world := w\<rparr>) = out e" for w by (simp add: out_def)
  show ?case
  proof (cases r)
    case (Inl err)
    with r e1 show ?thesis by (simp add: stream_loop.simps [of rt wr t n b e])
  next
    case (Inr line)
    obtain k x b' w' where wr: "eb_Write wr (UnstuffLine line) b (e_world e1) = (((k, x), b'), w')"
      by (metis prod.exhaust)
    note IH = "1.IH" [OF r [symmetric] Inr _ _ _ wr [symmetric] refl refl]
    show ?thesis
      using r Inr e1 wr w IH by (auto simp: stream_loop.simps [of rt wr t n b e] split: option.split)
  qed
qed

lemma out_streamData: "out (snd (snd (streamData rt wr t b e))) = out e"
proof -
  have "out (snd (engine_now rt e)) = out e" by (rule out_conn) simp
  then show ?thesis by (simp add: streamData_def case_prod_beta out_stream_loop)
qed

lemma out_world [simp]:
  "out (e\<lparr>e_world := w\<rparr>) = out e" "out (e\<lparr>e_envelope := x\<rparr>) = out e" "out (e\<lparr>e_stats := st\<rparr>) = out e"
  "out (e\<lparr>e_state := ss\<rparr>) = out e" "out (e\<lparr>e_sm := m\<rparr>) = out e"
  by (rule out_conn; simp)+

lemma out_ops [simp]:
  "out (run_hook f e) = out e" "out (set_state s e) = out e" "out (on_sm g e) = out e"
  "out (sm_command c e) = out e" "out (bump_errors e) = out e" "out (resetTransaction rt e) = out e"
  "out (snd (validate_sender p e)) = out e" "out (snd (command_hook cmd e)) = out e"
  "out (snd (store_message env e)) = out e" "out (snd (abandon_data r e)) = out e"
  "out (snd (message_accepted env e)) = out e"
  by (rule out_conn; simp add: abandon_data_def message_accepted_def Let_def)+

lemma out_finish_data [simp]: "out (snd (finish_data wr b e)) = out e"
  by (auto simp: finish_data_def case_prod_beta split: option.split sum.split)

lemma out_receive_data: "out (snd (receive_data rt b e)) = out e"
  by (simp add: receive_data_def case_prod_beta out_streamData split: option.split sum.split)

lemma out_handleMAIL: "out (snd (handleMAIL rt cmd e)) = out e"
proof -
  have "out (snd (validate_sender p e)) = out e" for p by simp
  then have "validate_sender p e = (r, f) \<Longrightarrow> out f = out e" for p r f by (metis snd_conv)
  then show ?thesis
    by (auto simp: handleMAIL_def Let_def split: sum.split prod.split option.split)
qed

lemma out_handleRCPT: "handleRCPT rt cmd e = Inr (resp, e') \<Longrightarrow> out e' = out e"
  by (erule handleRCPT_cases) (auto simp: accept_recipient_def case_prod_beta split: option.split)

lemma writable_reply:
  assumes "writable e"
  shows "sent (snd (writeResponse r e)) = sent e @ Response_Bytes r" and "writable (snd (writeResponse r e))"
    and "fst (writeResponse r e) = None"
  using writeResponse_writable [OF assms] by simp_all

lemma sent_writable_out: "out f = out e \<Longrightarrow> sent f = sent e \<and> writable f = writable e"
  by (simp add: sent_out writable_out)

lemma handleCommand_out:
  assumes "handleCommand rt cmd e = Inr (resp, e')" and "cmd_Verb cmd \<noteq> CmdDATA"
  shows "out e' = out e"
proof -
  have "out (identify rt v h e) = out e" for v h by (simp add: identify_def)
  then have hello: "out (snd (handleHELO rt cmd e)) = out e" "out (snd (handleEHLO rt cmd e)) = out e"
    by (auto simp: handleHELO_def handleEHLO_def Let_def split: sum.split)
  have others: "out (snd (handleRSET rt cmd e)) = out e" "out (snd (handleQUIT cmd e)) = out e"
    "out (snd (handleSTARTTLS cmd e)) = out e" "out (snd (handleNOOP cmd e)) = out e"
    "out (snd (handleVRFY cmd e)) = out e" "out (snd (handleHELP cmd e)) = out e"
    by (auto simp: handleRSET_def handleQUIT_def handleSTARTTLS_def handleNOOP_def handleVRFY_def
        handleHELP_def Let_def)
  show ?thesis
    using assms hello others out_handleMAIL [of rt cmd e] out_handleRCPT [of rt cmd e resp e']
    by (auto simp: handleCommand_def split: CommandVerb.splits)
qed

lemma handleDATA_sent:
  assumes "writable e" and "handleDATA rt cmd e = Inr (resp, e')"
  shows "sent e' = sent e @ Response_Bytes ResponseStartMailInput \<and> writable e'"
proof -
  let ?h = "run_hook OnDataStart (set_state StateData (sm_command CmdDATA e))"
  have h: "writable ?h" "sent ?h = sent e" using sent_writable_out [of ?h e] assms(1) by simp_all
  obtain x f where w: "writeResponse ResponseStartMailInput ?h = (x, f)" by fastforce
  with writable_reply [OF h(1), of ResponseStartMailInput] h(2)
  have f: "x = None" "sent f = sent e @ Response_Bytes ResponseStartMailInput" "writable f" by simp_all
  with assms(2) w have "\<exists>b. e' = snd (receive_data rt b f)"
    by (auto simp: handleDATA_def split: option.splits) (metis snd_conv)
  then show ?thesis using out_receive_data sent_writable_out f(2,3) by metis
qed

lemma sent_send_reply:
  assumes "writable e"
  shows "sent (snd (send_reply resp e)) = sent e @ Response_Bytes resp" and "writable (snd (send_reply resp e))"
proof -
  have "out (snd (send_reply resp e)) = out (snd (writeResponse resp e))"
    by (simp add: send_reply_def case_prod_beta split: option.split)
  with sent_writable_out writable_reply [OF assms, of resp]
  show "sent (snd (send_reply resp e)) = sent e @ Response_Bytes resp" and "writable (snd (send_reply resp e))"
    by metis+
qed

section \<open>Replies are well formed\<close>

definition reply_ok :: "Response \<Rightarrow> bool" where
  "reply_ok r \<longleftrightarrow> 100 \<le> r_Code r \<and> r_Code r < 1000 \<and> list_all (\<lambda>l. CHR 0x0A \<notin> set l) (r_Lines r)"

lemma reply_ok_NewResponse [simp]:
  "reply_ok (NewResponse c t) \<longleftrightarrow> 100 \<le> c \<and> c < 1000 \<and> CHR 0x0A \<notin> set t"
  by (simp add: reply_ok_def NewResponse_def)

lemma reply_ok_prebuilt [simp]:
  "reply_ok ResponseOK" "reply_ok ResponseBye" "reply_ok ResponseSyntaxErrorParams"
  "reply_ok ResponseCommandNotImplemented" "reply_ok ResponseTransactionFailed" "reply_ok ResponseBadSequence"
  by (simp_all add: response_consts)

text \<open>A policy of the user refuses with a reply of its own, which the engine passes on as it is. Apart
  from those every reply is well formed.\<close>

definition policy_reply :: "('b, 'w) SessionConfig \<Rightarrow> CommandVerb \<Rightarrow> Response \<Rightarrow> bool" where
  "policy_reply cfg verb resp \<longleftrightarrow>
     verb = CmdMAIL \<and> (\<exists>f p i w. cf_SenderPolicy cfg = Some f \<and> \<not> sr_Accepted (fst (f p i w)) \<and> resp = sr_Response (fst (f p i w)))
     \<or> verb = CmdRCPT \<and> (\<exists>f p i w. cf_Mailbox cfg = Some f \<and> rr_Status (fst (f p i w)) \<noteq> RecipientAccepted
          \<and> resp = rr_Response (fst (f p i w)))"

definition proper_reply :: "('b, 'w) SessionConfig \<Rightarrow> CommandVerb \<Rightarrow> Response \<Rightarrow> bool" where
  "proper_reply cfg verb resp \<longleftrightarrow> reply_ok resp \<or> policy_reply cfg verb resp"

text \<open>A command parsed from a line contains no line feed.\<close>

lemma parsed_argument:
  assumes "is_line line" and "ParseCommand U n line = Inr cmd"
  shows "CHR 0x0A \<notin> set (cmd_Argument cmd)"
proof -
  obtain body where line: "line = body @ [CHR 0x0A]" "CHR 0x0A \<notin> set body" using assms(1) by (auto simp: is_line_def)
  then have eol: "CHR 0x0A \<notin> set (trim_eol line)" by (auto simp: trim_eol_line dest: in_set_butlastD)
  have "set (snd (splitCommand l)) \<subseteq> set l" for l
    by (auto simp: splitCommand_def dest: in_set_dropD split: option.split)
  moreover have "cmd_Argument cmd = TrimSpace (snd (splitCommand (trim_eol line)))"
    using assms(2) by (auto simp: ParseCommand_def Let_def case_prod_beta split: if_splits)
  ultimately show ?thesis using eol set_TrimSpace by (metis subsetD)
qed

lemma readLine_is_line: "readLine rt t e = (Inr line, e1) \<Longrightarrow> is_line line"
  by (auto simp: readLine_def is_line_def Let_def split: prod.splits option.splits
      elim!: ReadLine_ReadBytes dest!: ReadBytes_framing)

lemma hello_ok:
  assumes "CHR 0x0A \<notin> set (ServerHostname (e_config e))" and "CHR 0x0A \<notin> set arg" and "ParseHeloHostname arg = Inr h"
  shows "CHR 0x0A \<notin> set (hello e h)"
  using assms set_TrimSpace [of arg]
  by (auto simp: hello_def ParseHeloHostname_def Let_def split: if_splits)

lemma handleHELO_ok:
  "CHR 0x0A \<notin> set (ServerHostname (e_config e)) \<Longrightarrow> CHR 0x0A \<notin> set (cmd_Argument cmd) \<Longrightarrow> reply_ok (fst (handleHELO rt cmd e))"
  using hello_ok [of e "cmd_Argument cmd"] by (auto simp: handleHELO_def split: sum.split)

lemma handleEHLO_ok:
  assumes "CHR 0x0A \<notin> set (ServerHostname (e_config e))" and "CHR 0x0A \<notin> set (cmd_Argument cmd)"
  shows "reply_ok (fst (handleEHLO rt cmd e))"
proof -
  have "hello (identify rt v h e) h' = hello e h'" for v h h'
    by (simp add: hello_def identify_def)
  moreover have "list_all (\<lambda>l. CHR 0x0A \<notin> set l) (ehlo_lines f)" for f :: "('a, 'b) Engine"
    by (simp add: ehlo_lines_def Let_def)
  ultimately show ?thesis
    using hello_ok [OF assms]
    by (auto simp: handleEHLO_def Let_def reply_ok_def NewMultilineResponse_def response_consts NewResponse_def
        split: sum.split)
qed

lemma handleMAIL_proper: "proper_reply (e_config e) CmdMAIL (fst (handleMAIL rt cmd e))"
proof -
  have "policy_reply (e_config e) CmdMAIL resp" if "validate_sender p e = (Some resp, f)" for p resp f
    using that unfolding policy_reply_def validate_sender_def
    by (auto split: option.splits prod.splits if_splits) (metis fst_conv)
  then show ?thesis
    by (auto simp: handleMAIL_def proper_reply_def Let_def split: sum.split option.split prod.split)
qed

lemma handleRCPT_proper:
  assumes "handleRCPT rt cmd e = Inr (resp, e')"
  shows "proper_reply (e_config e) CmdRCPT resp"
proof -
  have "policy_reply (e_config e) CmdRCPT (rr_Response r)"
    if "cf_Mailbox (e_config e) = Some f" "f p i w = (r, w')" "rr_Status r \<noteq> RecipientAccepted" for f p i w r w'
    using that unfolding policy_reply_def by (metis fst_conv)
  then show ?thesis
    using assms
    by (auto simp: handleRCPT_def accept_recipient_def proper_reply_def Let_def
        split: sum.splits option.splits prod.splits if_splits)
qed

lemma data_error_response_ok [simp]: "reply_ok (data_error_response err)"
  by (simp add: data_error_response_def)

lemma receive_data_ok:
  assumes "ready b" and "CHR 0x0A \<notin> set (b_id b)"
  shows "reply_ok (fst (receive_data rt (StdB b) e))"
proof -
  obtain n x b2 e2 where sd: "streamData rt 0 (data_timeout (Limits (e_config e))) (StdB (opened b [])) e
      = ((n, x), b2, e2)" by (metis prod.exhaust)
  show ?thesis
  proof (cases x)
    case None
    obtain f e3 where "stream_loop rt 0 (data_timeout (Limits (e_config e))) 0 (StdB (opened b [])) f = ((n, None), b2, e3)"
      using streamData_loop [OF sd] None by metis
    from stream_loop_sound [OF this refl] obtain ls where "b2 = StdB (opened b (unstuffed ls))"
      by (auto simp: opened_def)
    with None sd assms show ?thesis
      by (auto simp: receive_data_ready [OF assms(1)] finish_data_opened [OF assms(1)] abandon_data_def
          message_accepted_def Let_def sealed_def Build_def case_prod_beta split: option.split)
  next
    case (Some err)
    with sd show ?thesis by (simp add: receive_data_ready [OF assms(1)] abandon_data_def)
  qed
qed

lemma handleDATA_ok:
  assumes "engine_inv e" and "sm_state (e_sm e) = StateRcptTo" and "e_envelope e = Some (StdB b)"
    and "handleDATA rt cmd e = Inr (resp, e')"
  shows "reply_ok resp \<or> resp = zero_Response \<and> \<not> writable e"
proof -
  have id: "CHR 0x0A \<notin> set (b_id b)"
    using assms(1-3) by (simp add: engine_inv_def envelope_ok_def draft_ok_def)
  let ?h = "run_hook OnDataStart (set_state StateData (sm_command CmdDATA e))"
  have "writable e \<Longrightarrow> fst (writeResponse ResponseStartMailInput ?h) = None"
    using sent_writable_out [of ?h e] writable_reply(3) [of ?h] by simp
  then have "resp = zero_Response \<and> \<not> writable e \<or> resp = fst (receive_data rt (StdB b) (data_started e))"
    using assms(3,4) data_started_simps(2) [of e]
    by (auto simp: handleDATA_def data_started_def case_prod_beta split: option.splits)
  then show ?thesis using receive_data_ok [OF engine_inv_ready [OF assms(1-3)] id] by auto
qed

text \<open>What a command may be answered.\<close>

lemma handleCommand_proper:
  assumes "engine_inv e" and "sm_IsCommandAllowed (cmd_Verb cmd) (e_sm e)"
    and "CHR 0x0A \<notin> set (ServerHostname (e_config e))" and "cf_EnvelopeFactory (e_config e) = None"
    and "CHR 0x0A \<notin> set (cmd_Argument cmd)" and "handleCommand rt cmd e = Inr (resp, e')"
  shows "proper_reply (e_config e) (cmd_Verb cmd) resp \<or> cmd_Verb cmd = CmdDATA \<and> resp = zero_Response \<and> \<not> writable e"
proof (cases "cmd_Verb cmd = CmdDATA")
  case True
  then have sm: "sm_state (e_sm e) = StateRcptTo" using assms(2) by (simp add: allowed_states)
  then obtain b where "e_envelope e = Some (StdB b)"
    using assms(1,4) by (auto simp: engine_inv_def envelope_ok_def split: option.splits EnvelopeBuilder.splits)
  from handleDATA_ok [OF assms(1) sm this] True assms(6) show ?thesis by (auto simp: handleCommand_def proper_reply_def)
next
  case False
  then show ?thesis
    using assms(6) handleHELO_ok [OF assms(3,5), of rt] handleEHLO_ok [OF assms(3,5), of rt]
      handleMAIL_proper [of e rt cmd] handleRCPT_proper [of rt cmd e resp e']
    by (auto simp: handleCommand_def handleRSET_def handleNOOP_def handleQUIT_def handleVRFY_def handleHELP_def
        handleSTARTTLS_def Let_def reply_ok_def NewMultilineResponse_def NewResponse_def response_consts proper_reply_def
        split: CommandVerb.splits if_splits)
qed

text \<open>
  (C28) Whatever the engine itself answers to a command is well formed: a three-digit code and lines
  without line feeds, which a client cannot take for two replies. This holds in every state that
  satisfies the invariant of a session, for every line and every command in sequence parsed from
  it, provided the configured host name contains no line feed and envelopes come from the builder
  of the package. The only other replies are those a sender policy gives to MAIL or a mailbox to
  RCPT when it refuses, which the engine passes on unchanged, and the empty response after a DATA
  whose 354 could not be written.
\<close>

theorem replies_well_formed:
  assumes "engine_inv e" and "sm_IsCommandAllowed (cmd_Verb cmd) (e_sm e)"
    and "CHR 0x0A \<notin> set (ServerHostname (e_config e))" and "cf_EnvelopeFactory (e_config e) = None"
    and "is_line line" and "ParseCommand (rt_Unicode rt) (e_maxCommandLength e) line = Inr cmd"
    and "handleCommand rt cmd e = Inr (resp, e')"
  shows "reply_ok resp \<or> policy_reply (e_config e) (cmd_Verb cmd) resp
    \<or> cmd_Verb cmd = CmdDATA \<and> resp = zero_Response \<and> \<not> writable e"
  using handleCommand_proper [OF assms(1-4) parsed_argument [OF assms(5,6)] assms(7)] by (simp add: proper_reply_def)

definition spoken :: "string \<Rightarrow> (unit, Envelope list) Engine \<Rightarrow> Command option" where
  "spoken line e = (case ParseCommand (rt_Unicode sample_rt) (e_maxCommandLength e) line of Inl _ \<Rightarrow> None | Inr cmd \<Rightarrow> Some cmd)"

theorem replies_well_formed_witness:
  "\<exists>cmd resp e'. spoken (crlf_lines [''HELP'']) (greeted_engine TLSOptional []) = Some cmd
    \<and> handleCommand sample_rt cmd (greeted_engine TLSOptional []) = Inr (resp, e') \<and> reply_ok resp"
proof -
  let ?e = "greeted_engine TLSOptional []" and ?line = "crlf_lines [''HELP'']"
  have "case spoken ?line ?e of None \<Rightarrow> False | Some cmd \<Rightarrow> cmd_Verb cmd = CmdHELP" by code_simp
  then obtain cmd where cmd: "ParseCommand (rt_Unicode sample_rt) (e_maxCommandLength ?e) ?line = Inr cmd" "cmd_Verb cmd = CmdHELP"
    by (auto simp: spoken_def split: option.splits sum.splits)
  have cfg: "e_config ?e = sample_config TLSOptional"
    unfolding greeted_engine_def sample_engine_def by (simp add: NewEngine_fields(1) [OF refl])
  have "CHR 0x0A \<notin> set (ServerHostname (e_config ?e))" "cf_EnvelopeFactory (e_config ?e) = None"
    unfolding cfg by (simp_all add: sample_config_def)
  moreover have "sm_IsCommandAllowed (cmd_Verb cmd) (e_sm ?e)"
    using greeted_engine_greeted [of TLSOptional "[]"] cmd(2)
    by (simp add: greeted_def sm_IsCommandAllowed_def IsCommandAllowed_def)
  moreover have "engine_inv ?e" by (rule session.init_inv) (rule greeted_engine_greeted)
  moreover have "is_line ?line" by (simp add: is_line_def crlf_lines_def)
  moreover obtain resp e' where "handleCommand sample_rt cmd ?e = Inr (resp, e')"
    by (cases "handleHELP cmd ?e") (simp add: handleCommand_def cmd(2))
  moreover have "\<not> policy_reply (e_config ?e) (cmd_Verb cmd) resp" for resp by (simp add: policy_reply_def cmd(2))
  ultimately show ?thesis
    using replies_well_formed [of ?e cmd ?line sample_rt resp e'] cmd by (auto simp: spoken_def)
qed

section \<open>One reply per command\<close>

text \<open>The engine that has counted a command, and the commands with which a data phase begins.\<close>

definition counted :: "('b, 'w) Engine \<Rightarrow> ('b, 'w) Engine" where
  "counted e = e\<lparr>e_stats := (e_stats e)\<lparr>CommandCount := i64 (CommandCount (e_stats e) + 1)\<rparr>\<rparr>"

definition data_begins :: "Command \<Rightarrow> ('b, 'w) Engine \<Rightarrow> bool" where
  "data_begins cmd e \<longleftrightarrow> cmd_Verb cmd = CmdDATA \<and> fst (command_hook cmd e) = None \<and> sm_IsCommandAllowed CmdDATA (e_sm e)"

lemma counted_simps [simp]:
  "e_config (counted e) = e_config e" "e_sm (counted e) = e_sm e" "out (counted e) = out e"
  "engine_inv (counted e) = engine_inv e"
  by (simp_all add: counted_def engine_inv_core [of "counted e" e] core_def)

lemma dispatch_replied:
  assumes "writable e" and "engine_inv e" and "CHR 0x0A \<notin> set (ServerHostname (e_config e))"
    and "cf_EnvelopeFactory (e_config e) = None" and "CHR 0x0A \<notin> set (cmd_Argument cmd)" and "dispatch rt cmd e = Inr (r, e')"
  shows "writable e' \<and> (\<exists>resp. proper_reply (e_config e) (cmd_Verb cmd) resp
    \<and> sent e' = sent e @ (if data_begins cmd e then Response_Bytes ResponseStartMailInput else []) @ Response_Bytes resp)"
proof -
  let ?h = "snd (command_hook cmd e)"
  have h: "writable ?h" "sent ?h = sent e" using sent_writable_out [of ?h e] assms(1) by simp_all
  have b: "writable (bump_errors ?h)" "sent (bump_errors ?h) = sent e"
    using sent_writable_out [of "bump_errors ?h" ?h] h by simp_all
  from assms(6) show ?thesis
  proof (cases rule: dispatch_cases)
    case (hook err)
    then show ?thesis using writable_reply [OF h(1)] h(2)
      by (auto simp: data_begins_def proper_reply_def intro: exI [of _ ResponseTransactionFailed])
  next
    case sequence
    then show ?thesis using writable_reply [OF b(1)] b(2)
      by (auto simp: data_begins_def proper_reply_def intro: exI [of _ ResponseBadSequence])
  next
    case (handled resp e2)
    have e': "e' = snd (send_reply resp e2)" using handled(4) by (metis Inr_inject snd_conv)
    have "engine_inv ?h" "e_config ?h = e_config e" "e_sm ?h = e_sm e" using assms(2) by simp_all
    with handleCommand_proper [of ?h cmd rt resp e2] handled(2,3) assms(3-5) h(1)
    have proper: "proper_reply (e_config e) (cmd_Verb cmd) resp" by auto
    show ?thesis
    proof (cases "cmd_Verb cmd = CmdDATA")
      case True
      with handled(3) have "handleDATA rt cmd ?h = Inr (resp, e2)" by (simp add: handleCommand_def)
      moreover have "data_begins cmd e" using True handled(1,2) by (simp add: data_begins_def)
      ultimately show ?thesis
        using handleDATA_sent [OF h(1), of rt cmd resp e2] h(2) e' sent_send_reply [of e2 resp] proper by auto
    next
      case False
      have "sent e2 = sent e \<and> writable e2"
        using sent_writable_out [OF handleCommand_out [OF handled(3) False]] h by simp
      with e' False show ?thesis using sent_send_reply [of e2 resp] proper by (auto simp: data_begins_def)
    qed
  qed simp
qed

lemma reject_line_out: "\<exists>resp. reply_ok resp \<and> out (snd (reject_line err e)) = out (snd (writeResponse resp (bump_errors e)))"
proof (cases "checkErrorLimit (bump_errors e)")
  case None
  then show ?thesis by (intro exI [of _ ResponseSyntaxError]) (simp add: reject_line_def response_consts)
next
  case (Some x)
  then show ?thesis
    by (intro exI [of _ "NewResponse Reply421ServiceNotAvailable ''Too many errors, closing connection''"])
      (simp add: reject_line_def)
qed

text \<open>
  (C17) Every command line gets exactly one reply. In every state that satisfies the invariant of a
  session, on a connection whose writes succeed, if the configured host name has no line feed and
  envelopes come from the builder of the package: when no line could be read, nothing is sent. A
  line that does not parse is answered with one well-formed reply. A command is answered with
  one reply, well formed or the refusal of a policy passed on; and before it the 354 response is
  sent exactly if the command is a DATA in sequence that no hook vetoed. Well-formed replies do
  not merge (\<open>replies_do_not_merge\<close>): no such reply is two others in a row, so pipelined commands
  can be matched with their replies.
\<close>

theorem one_reply_per_command:
  assumes "engine_inv e" and "writable e" and "CHR 0x0A \<notin> set (ServerHostname (e_config e))"
    and "cf_EnvelopeFactory (e_config e) = None" and "processOneCommand rt e = Inr (r, e')"
  shows "writable e' \<and>
    (case readLine rt (command_timeout (Limits (e_config e))) e of
       (Inl _, _) \<Rightarrow> sent e' = sent e
     | (Inr line, e1) \<Rightarrow>
         (case ParseCommand (rt_Unicode rt) (e_maxCommandLength e1) line of
            Inl _ \<Rightarrow> \<exists>resp. reply_ok resp \<and> sent e' = sent e @ Response_Bytes resp
          | Inr cmd \<Rightarrow>
              \<exists>resp. proper_reply (e_config e) (cmd_Verb cmd) resp
                \<and> sent e' = sent e
                    @ (if data_begins cmd (counted e1) then Response_Bytes ResponseStartMailInput else [])
                    @ Response_Bytes resp))"
proof -
  have rd: "writable (counted e1)" "sent (counted e1) = sent e" "writable e1" "sent e1 = sent e"
    "engine_inv (counted e1)" "e_config e1 = e_config e" if "readLine rt t e = (x, e1)" for t x e1
    using sent_writable_out [OF out_readLine [of rt t e]] sent_writable_out [of "counted e1" e1] assms(1,2) that
      engine_inv_ops(3) [of rt t e] core_fields(8) [of rt t e] by simp_all
  from assms(5) show ?thesis
  proof (cases rule: processOneCommand_cases)
    case (failed err e1)
    with rd [OF failed(1)] show ?thesis by simp
  next
    case (rejected line e1 err)
    let ?f = "bump_errors (counted e1)"
    have f: "writable ?f" "sent ?f = sent e" using rd [OF rejected(1)] sent_writable_out [of ?f "counted e1"] by simp_all
    have "e' = snd (reject_line err (counted e1))" using rejected(3) unfolding counted_def [symmetric] by (metis Inr_inject snd_conv)
    with reject_line_out [of err "counted e1"] obtain resp where "reply_ok resp" "sent e' = sent e @ Response_Bytes resp" "writable e'"
      using sent_writable_out writable_reply(1,2) [OF f(1)] f(2) by metis
    with rejected(1,2) show ?thesis by auto
  next
    case (parsed line e1 cmd)
    note r = rd [OF parsed(1)]
    have "CHR 0x0A \<notin> set (cmd_Argument cmd)"
      by (rule parsed_argument [OF readLine_is_line [OF parsed(1)] parsed(2)])
    from dispatch_replied [OF r(1,5) _ _ this parsed(3) [symmetric, folded counted_def]] r(2,6) assms(3,4) parsed(1,2)
    show ?thesis by simp
  qed
qed

definition processed :: "('b, 'w) Engine \<Rightarrow> 'w Runtime \<Rightarrow> bool" where
  "processed e rt = (case processOneCommand rt e of Inl _ \<Rightarrow> False | Inr _ \<Rightarrow> True)"

definition noop_read :: "(unit, Envelope list) Engine \<Rightarrow> bool" where
  "noop_read e = (case readLine sample_rt (command_timeout (Limits (e_config e))) e of
     (Inr line, e1) \<Rightarrow> (case ParseCommand (rt_Unicode sample_rt) (e_maxCommandLength e1) line of
        Inr cmd \<Rightarrow> cmd_Verb cmd = CmdNOOP | Inl _ \<Rightarrow> False) | _ \<Rightarrow> False)"

theorem one_reply_per_command_witness:
  "\<exists>r e' resp. processOneCommand sample_rt (greeted_engine TLSOptional [''NOOP'']) = Inr (r, e')
    \<and> reply_ok resp \<and> sent e' = sent (greeted_engine TLSOptional [''NOOP'']) @ Response_Bytes resp"
proof -
  let ?e = "greeted_engine TLSOptional [''NOOP'']"
  have "processed ?e sample_rt" "noop_read ?e" by code_simp+
  then obtain r e' where run: "processOneCommand sample_rt ?e = Inr (r, e')"
    by (auto simp: processed_def split: sum.splits)
  have "e_conn ?e = NewBufferedConn (net_of [crlf_lines [''NOOP'']])"
    unfolding greeted_engine_def sample_engine_def by (simp add: NewEngine_fields(3) [OF refl])
  then have wr: "writable ?e"
    by (simp add: writable_def NewBufferedConn_def net_of_def WrapNetConn_def)
  have cfg: "e_config ?e = sample_config TLSOptional"
    unfolding greeted_engine_def sample_engine_def by (simp add: NewEngine_fields(1) [OF refl])
  have names: "CHR 0x0A \<notin> set (ServerHostname (e_config ?e))" "cf_EnvelopeFactory (e_config ?e) = None"
    unfolding cfg by (simp_all add: sample_config_def)
  have "engine_inv ?e" by (rule session.init_inv) (rule greeted_engine_greeted)
  from one_reply_per_command [OF this wr names run] \<open>noop_read ?e\<close>
  have "\<exists>resp. reply_ok resp \<and> sent e' = sent ?e @ Response_Bytes resp"
    by (auto simp: noop_read_def data_begins_def proper_reply_def policy_reply_def split: prod.splits sum.splits)
  with run show ?thesis by blast
qed

section \<open>The transaction limit\<close>

abbreviation transaction_count :: "('b, 'w) Engine \<Rightarrow> int" where
  "transaction_count e \<equiv> TransactionCount (e_stats e)"

definition open_transaction :: "('b, 'w) Engine \<Rightarrow> bool" where
  "open_transaction e \<longleftrightarrow> sm_state (e_sm e) = StateMailFrom \<or> sm_state (e_sm e) = StateRcptTo"

text \<open>The count is within the limit \<open>m\<close>, and below it while a transaction is open.\<close>

definition within_quota :: "int \<Rightarrow> ('b, 'w) Engine \<Rightarrow> bool" where
  "within_quota m e \<longleftrightarrow> MaxTransactions (Limits (e_config e)) = m \<and> 0 \<le> transaction_count e
     \<and> transaction_count e \<le> m \<and> (open_transaction e \<longrightarrow> transaction_count e < m)"

lemma within_quota_core: "core f = core e \<Longrightarrow> within_quota m e \<Longrightarrow> within_quota m f"
  by (auto simp: within_quota_def core_def open_transaction_def)

lemma transaction_count_ops [simp]:
  "transaction_count (set_state s e) = transaction_count e" "transaction_count (on_sm g e) = transaction_count e"
  "transaction_count (sm_command c e) = transaction_count e"
  "transaction_count (resetTransaction rt e) = transaction_count e"
  "transaction_count (bump_errors e) = transaction_count e"
  by (simp_all add: engine_defs split: option.split)

lemma quota_handleMAIL:
  assumes "within_quota m e" and "0 < m"
  shows "within_quota m (snd (handleMAIL rt cmd e))"
proof (cases rule: handleMAIL_cases [of rt cmd e])
  case refused
  then show ?thesis using within_quota_core assms(1) by blast
next
  case (failed f x w)
  then show ?thesis using assms(1) by (auto simp: within_quota_def core_def open_transaction_def)
next
  case (accepted path f b w1 b' w')
  have "e_config f = e_config e" "transaction_count f = transaction_count e"
    using accepted(5) core_fields(9) [of path e] by simp_all
  with accepted(2,8) assms show ?thesis by (auto simp: within_quota_def)
qed

lemma quota_handleRCPT:
  assumes "within_quota m e" and "open_transaction e" and "handleRCPT rt cmd e = Inr (resp, e')"
  shows "within_quota m e'"
proof -
  from assms(3) have "e_config e' = e_config e \<and> transaction_count e' = transaction_count e"
    by (elim handleRCPT_cases) (auto simp: accept_recipient_def case_prod_beta split: option.split)
  with assms(1,2) show ?thesis by (auto simp: within_quota_def)
qed

lemma quota_finish_data:
  assumes "within_quota m e" and "transaction_count e < m" and "m < 2 ^ 63" and "sm_state (e_sm e) = StateData"
  shows "within_quota m (snd (finish_data wr b e))"
proof -
  have abandon: "within_quota m (snd (abandon_data r f))"
    if "e_config f = e_config e" "transaction_count f = transaction_count e" "sm_state (e_sm f) = StateData" for r f
    using that assms(1) by (auto simp: within_quota_def abandon_data_def open_transaction_def sm_state_Reset)
  have accept: "within_quota m (snd (message_accepted env f))"
    if "e_config f = e_config e" "transaction_count f = transaction_count e" "sm_state (e_sm f) = StateData" for env f
  proof -
    have "i64 (transaction_count e + 1) = transaction_count e + 1"
      using assms(1-3) by (intro i64_id) (auto simp: within_quota_def)
    with that assms(1,2) show ?thesis
      by (auto simp: within_quota_def message_accepted_def Let_def open_transaction_def sm_state_Reset sm_state_DataComplete)
  qed
  show ?thesis
    using assms(4)
    by (auto simp: finish_data_def case_prod_beta intro!: abandon accept split: option.split sum.split)
qed

lemma quota_handleDATA:
  assumes "within_quota m e" and "sm_state (e_sm e) = StateRcptTo" and "m < 2 ^ 63"
    and "handleDATA rt cmd e = Inr (resp, e')"
  shows "within_quota m e'"
proof -
  let ?s = "data_started e"
  have "core ?s = core (set_state StateData (sm_command CmdDATA e))" by (simp add: data_started_def core_def)
  then have s: "e_config ?s = e_config e" "transaction_count ?s = transaction_count e" "sm_state (e_sm ?s) = StateData"
    using assms(2) by (simp_all add: core_def sm_eval)
  have lt: "transaction_count e < m" using assms(1,2) by (simp add: within_quota_def open_transaction_def)
  have q: "within_quota m f" if "core f = core ?s" for f
    using that s assms(1) by (auto simp: within_quota_def core_def open_transaction_def)
  have fin: "within_quota m (snd (finish_data wr b f))" if "core f = core ?s" for wr b f
    by (rule quota_finish_data [OF q [OF that] _ assms(3)]) (use that s lt in \<open>simp_all add: core_def\<close>)
  have aband: "within_quota m (snd (abandon_data r f))" if "core f = core ?s" for r f
    using that s q [OF that]
    by (auto simp: within_quota_def core_def abandon_data_def open_transaction_def sm_state_Reset)
  have recv: "within_quota m (snd (receive_data rt b ?s))" for b
  proof -
    have "core (snd (snd (streamData rt wr t b1 (?s\<lparr>e_world := w\<rparr>)))) = core ?s" for wr t b1 w
      using core_streamData [of rt wr t b1 "?s\<lparr>e_world := w\<rparr>"] by (simp add: core_def)
    then show ?thesis
      by (auto simp: receive_data_def case_prod_beta core_def intro!: fin aband split: option.split sum.split)
  qed
  let ?w = "writeResponse ResponseStartMailInput
    (run_hook OnDataStart (set_state StateData (sm_command CmdDATA e)))"
  have "e' = on_sm (\<lambda>m. snd (Abort m)) ?s \<or> (\<exists>b. e' = snd (receive_data rt b ?s))"
    using assms(4) by (auto simp: handleDATA_def data_started_def case_prod_beta split: option.splits) (metis snd_conv)
  then show ?thesis
    using recv s assms(1) by (auto simp: within_quota_def open_transaction_def sm_state_Abort)
qed

lemma quota_handleCommand:
  assumes "within_quota m e" and "0 < m" and "m < 2 ^ 63" and "sm_IsCommandAllowed (cmd_Verb cmd) (e_sm e)"
    and "handleCommand rt cmd e = Inr (resp, e')"
  shows "within_quota m e'"
proof -
  have hello: "within_quota m (snd (handleHELO rt cmd e))" "within_quota m (snd (handleEHLO rt cmd e))"
    if "sm_state (e_sm e) = StateGreeted \<or> sm_state (e_sm e) = StateIdentified"
    using that assms(1)
    by (auto simp: handleHELO_def handleEHLO_def identify_def Let_def within_quota_def open_transaction_def sm_eval
        split: sum.split)
  have rset: "within_quota m (snd (handleRSET rt cmd e))"
    if "sm_state (e_sm e) \<in> {StateGreeted, StateIdentified, StateMailFrom, StateRcptTo}"
    using that assms(1)
    by (auto simp: handleRSET_def Let_def within_quota_def open_transaction_def sm_state_Reset)
  have quit: "within_quota m (snd (handleQUIT cmd e))"
    if "sm_state (e_sm e) \<in> {StateGreeted, StateIdentified, StateMailFrom, StateRcptTo}"
    using that assms(1) by (auto simp: handleQUIT_def within_quota_def open_transaction_def sm_eval)
  have starttls: "within_quota m (snd (handleSTARTTLS cmd e))" if "sm_state (e_sm e) = StateIdentified"
    using that assms(1) by (auto simp: handleSTARTTLS_def within_quota_def open_transaction_def sm_eval)
  show ?thesis
    using assms hello rset quit starttls quota_handleMAIL [OF assms(1,2), of rt cmd]
      quota_handleRCPT [OF assms(1), of rt cmd resp e'] quota_handleDATA [OF assms(1) _ assms(3), of rt cmd resp e']
    by (auto simp: handleCommand_def handleNOOP_def handleVRFY_def handleHELP_def allowed_states open_transaction_def
        split: CommandVerb.splits if_splits)
qed

lemma quota_dispatch:
  assumes "within_quota m e" and "0 < m" and "m < 2 ^ 63" and "dispatch rt cmd e = Inr (r, e')"
  shows "within_quota m e'"
proof -
  have h: "within_quota m (snd (command_hook cmd e))" by (rule within_quota_core [OF core_ops(10) assms(1)])
  from assms(4) show ?thesis
  proof (cases rule: dispatch_cases)
    case (handled resp e2)
    then have "within_quota m e2"
      using quota_handleCommand [OF h assms(2,3), of cmd rt resp e2] by simp
    moreover have "e' = snd (send_reply resp e2)" using handled(4) by (metis Inr_inject snd_conv)
    ultimately show ?thesis
      by (auto simp: send_reply_def case_prod_beta within_quota_def open_transaction_def split: option.split)
  qed (use h in \<open>auto simp: within_quota_def open_transaction_def\<close>)
qed

lemma quota_processOneCommand:
  assumes "within_quota m e" and "0 < m" and "m < 2 ^ 63" and "processOneCommand rt e = Inr (r, e')"
  shows "within_quota m e'"
proof -
  have rd: "within_quota m e1" if "readLine rt t e = (x, e1)" for t x e1
    using within_quota_core [OF core_ops(8) assms(1), of rt t] that by simp
  have counted: "within_quota m (e1\<lparr>e_stats := (e_stats e1)\<lparr>CommandCount := k\<rparr>\<rparr>)" if "within_quota m e1" for e1 k
    using that by (simp add: within_quota_def open_transaction_def)
  from assms(4) show ?thesis
  proof (cases rule: processOneCommand_cases)
    case (failed err e1)
    with rd show ?thesis by blast
  next
    case (rejected line e1 err)
    let ?e1 = "e1\<lparr>e_stats := (e_stats e1)\<lparr>CommandCount := i64 (CommandCount (e_stats e1) + 1)\<rparr>\<rparr>"
    have "e' = snd (reject_line err ?e1)" using rejected(3) by (metis Inr_inject snd_conv)
    moreover have "sm_state m' \<noteq> StateMailFrom \<and> sm_state m' \<noteq> StateRcptTo \<or> sm_state m' = sm_state m''"
      if "m' = snd (Abort m'')" for m' m'' using that by (auto simp: sm_state_Abort)
    ultimately show ?thesis
      using counted [OF rd [OF rejected(1)]]
      by (auto simp: reject_line_def Let_def within_quota_def open_transaction_def sm_state_Abort split: option.splits)
  next
    case (parsed line e1 cmd)
    with counted [OF rd [OF parsed(1)]] show ?thesis
      using quota_dispatch [OF _ assms(2,3) parsed(3) [symmetric]] by simp
  qed
qed

lemma quota_run_step:
  assumes "within_quota m e" and "0 < m" and "m < 2 ^ 63" and "engine_inv e" and "run_step rt e = Continue e'"
  shows "within_quota m e'"
proof -
  have ctx: "within_quota m e1" "engine_inv e1" if "ctx_done rt e = (x, e1)" for x e1
    using within_quota_core [OF core_ops(3) assms(1), of rt] engine_inv_ops(4) [of rt e] assms(4) that by simp_all
  from assms(5) show ?thesis
  proof (cases rule: run_step_cases)
    case (upgrade e1)
    note e1 = ctx [OF upgrade(1)]
    have sm: "sm_state (e_sm e1) = StateStartTLS" using sm_starttls(1) [OF e1(2) upgrade(3,2)] .
    from upgrade(4) show ?thesis
    proof (cases rule: performTLSUpgrade_success)
      case (1 getConfig tlsConfig w ts e2)
      have "core e2 = core (e1\<lparr>e_world := w\<rparr>)"
        using core_tls_handshake [of rt tlsConfig "e1\<lparr>e_world := w\<rparr>"] 1(3) by simp
      with e1(1) sm 1(4) show ?thesis
        by (simp add: core_def within_quota_def tls_restart_def Let_def tls_active_def open_transaction_def
            sm_state_TLSComplete)
    qed
  next
    case (command e1 r)
    from quota_processOneCommand [OF ctx(1) [OF command(1)] assms(2,3) command(4)] show ?thesis .
  qed
qed

definition fresh :: "int \<Rightarrow> ('b, 'w) Engine \<Rightarrow> bool" where
  "fresh m e \<longleftrightarrow> greeted e \<and> transaction_count e = 0 \<and> MaxTransactions (Limits (e_config e)) = m
     \<and> 0 < m \<and> m < 2 ^ 63"

definition quota_inv :: "int \<Rightarrow> ('b, 'w) Engine \<Rightarrow> bool" where
  "quota_inv m e \<longleftrightarrow> engine_inv e \<and> within_quota m e \<and> 0 < m \<and> m < 2 ^ 63"

lemma quota_inv_fresh: "fresh m e \<Longrightarrow> quota_inv m e"
  using session.init_inv [of e]
  by (auto simp: fresh_def quota_inv_def within_quota_def open_transaction_def greeted_def)

lemma quota_inv_step: "session_step rt e f \<Longrightarrow> quota_inv m e \<Longrightarrow> quota_inv m f"
  using quota_run_step [of m e rt f] inv_run_step [of e rt f]
  by (auto simp: quota_inv_def session_step_def)

interpretation quota: invariant_system "fresh m" "session_step rt" "quota_inv m" for m rt
  by unfold_locales (rule quota_inv_fresh, assumption, rule quota_inv_step)

text \<open>
  (C18) A session never completes more transactions than \<open>MaxTransactions\<close> allows, and none is open
  once the limit is reached: in every state a session can reach after the greeting, the count of
  completed transactions is at most the limit, and below it between MAIL and the end of the data.
\<close>

theorem transactions_limited:
  assumes "greeted e0" and "transaction_count e0 = 0"
    and "0 < MaxTransactions (Limits (e_config e0))" and "MaxTransactions (Limits (e_config e0)) < 2 ^ 63"
    and "(session_step rt)\<^sup>*\<^sup>* e0 e"
  shows "0 \<le> transaction_count e \<and> transaction_count e \<le> MaxTransactions (Limits (e_config e0))
    \<and> (InTransaction (sm_state (e_sm e)) \<and> sm_state (e_sm e) \<noteq> StateData \<longrightarrow>
         transaction_count e < MaxTransactions (Limits (e_config e0)))"
proof -
  have "fresh (MaxTransactions (Limits (e_config e0))) e0" using assms(1-4) by (simp add: fresh_def)
  from quota.reachable_inv [OF this assms(5)] show ?thesis
    by (auto simp: quota_inv_def within_quota_def open_transaction_def InTransaction_def)
qed

theorem transactions_limited_witness:
  "transaction_count (steps 2 (greeted_engine TLSOptional [''HELO a'', ''NOOP''])) \<le> 100"
proof -
  let ?e = "greeted_engine TLSOptional [''HELO a'', ''NOOP'']"
  have cfg: "e_config ?e = sample_config TLSOptional" and "transaction_count ?e = 0"
    unfolding greeted_engine_def sample_engine_def by (simp_all add: NewEngine_fields(1,7) [OF refl])
  moreover have "MaxTransactions (Limits (e_config ?e)) = 100"
    unfolding cfg by (simp add: sample_config_def DefaultSessionLimits_def)
  ultimately show ?thesis
    using transactions_limited [OF greeted_engine_greeted _ _ _ steps_reachable, of TLSOptional "[''HELO a'', ''NOOP'']" 2]
    by simp
qed

end
