(* ===== verification/Client_View.thy ===== *)
theory Client_View
  imports Engine_Replies
begin

text \<open>
  What a client can know. SMTP has no command to ask a server for its state: a client has to
  follow it from the commands it sent and the codes it got back. Here the protocol is given as
  such a client would run it, an abstract machine over what matters of a session (the phase, the
  name given, the sender, the recipients, whether TLS is on) that sees only lines, reply codes
  and the TLS upgrade; and the engine is shown to refine it step by step, provided the policies
  the user configures refuse with a negative code.

  The abstract machine shows what the protocol is supposed to be; the one place where it is not
  what RFC 5321 says is the data phase: after a DATA that failed the session can only be left.
\<close>

section \<open>The protocol as a client sees it\<close>

record client_view =
  cv_phase :: State
  cv_name :: string
  cv_sender :: "MailPath option"
  cv_rcpts :: "MailPath list"
  cv_tls :: bool

definition no_transaction :: "State \<Rightarrow> client_view \<Rightarrow> client_view" where
  "no_transaction phase v = v\<lparr>cv_phase := phase, cv_sender := None, cv_rcpts := []\<rparr>"

text \<open>DATA is answered twice, first with 354, unless it is out of sequence or vetoed by a hook.\<close>

definition input_started :: "Command \<Rightarrow> ReplyCode \<Rightarrow> client_view \<Rightarrow> bool" where
  "input_started cmd code v \<longleftrightarrow> cmd_Verb cmd = CmdDATA \<and> cv_phase v = StateRcptTo
     \<and> code \<noteq> Reply503BadSequence \<and> code \<noteq> Reply554TransactionFailed"

text \<open>An answer to a command. A negative answer changes nothing, except to a DATA that started.\<close>

definition answered :: "unicode \<Rightarrow> Command \<Rightarrow> ReplyCode \<Rightarrow> client_view \<Rightarrow> client_view" where
  "answered U cmd code v =
     (if code \<ge> 400 then
        if input_started cmd code v then no_transaction StateData v else v
      else
       (case cmd_Verb cmd of
          CmdMAIL \<Rightarrow>
            (case ParseMailPath U (cmd_Argument cmd) ''FROM'' of
               Inl _ \<Rightarrow> v
             | Inr path \<Rightarrow> v\<lparr>cv_phase := StateMailFrom, cv_sender := Some path, cv_rcpts := []\<rparr>)
        | CmdRCPT \<Rightarrow>
            (case ParseMailPath U (cmd_Argument cmd) ''TO'' of
               Inl _ \<Rightarrow> v
             | Inr path \<Rightarrow> v\<lparr>cv_phase := StateRcptTo, cv_rcpts := cv_rcpts v @ [path]\<rparr>)
        | CmdDATA \<Rightarrow> no_transaction StateIdentified v
        | CmdRSET \<Rightarrow> no_transaction (if cv_phase v = StateGreeted then StateGreeted else StateIdentified) v
        | CmdQUIT \<Rightarrow> no_transaction StateTerminated v
        | CmdSTARTTLS \<Rightarrow> v\<lparr>cv_phase := StateStartTLS\<rparr>
        | verb \<Rightarrow>
            if verb = CmdHELO \<or> verb = CmdEHLO then
              (case ParseHeloHostname (cmd_Argument cmd) of
                 Inl _ \<Rightarrow> v
               | Inr name \<Rightarrow> no_transaction StateIdentified (v\<lparr>cv_name := name\<rparr>))
            else v))"

text \<open>What can happen: no line arrives, a line that is no command is answered, a command is
  answered, the connection is upgraded.\<close>

datatype exchange = Silence | Garbage Response | Answer Command Response | Upgraded

fun track :: "unicode \<Rightarrow> exchange \<Rightarrow> client_view \<Rightarrow> client_view" where
  "track U Silence v = v"
| "track U (Garbage resp) v =
     (if r_Code resp = Reply421ServiceNotAvailable then no_transaction StateAborted v else v)"
| "track U (Answer cmd resp) v = answered U cmd (r_Code resp) v"
| "track U Upgraded v = \<lparr>cv_phase = StateGreeted, cv_name = [], cv_sender = None, cv_rcpts = [], cv_tls = True\<rparr>"

section \<open>The view of an engine\<close>

definition view_of :: "('b, 'w) Engine \<Rightarrow> client_view" where
  "view_of e =
     (let (sender, rcpts) =
        (if sm_state (e_sm e) = StateMailFrom \<or> sm_state (e_sm e) = StateRcptTo then
           (case e_envelope e of Some (StdB b) \<Rightarrow> (b_mailFrom b, b_recipients b) | _ \<Rightarrow> (None, []))
         else (None, []))
      in \<lparr>cv_phase = sm_state (e_sm e), cv_name = ss_ClientHostname (e_state e), cv_sender = sender,
          cv_rcpts = rcpts, cv_tls = ss_TLSActive (e_state e)\<rparr>)"

lemma view_cong:
  assumes "e_sm f = e_sm e" "ss_ClientHostname (e_state f) = ss_ClientHostname (e_state e)"
    "ss_TLSActive (e_state f) = ss_TLSActive (e_state e)" "e_envelope f = e_envelope e"
  shows "view_of f = view_of e"
  using assms by (simp add: view_of_def)

lemma view_core: "core f = core e \<Longrightarrow> view_of f = view_of e"
  by (rule view_cong) (simp_all add: core_def)

lemma name_ops [simp]:
  "ss_ClientHostname (e_state (set_state s e)) = ss_ClientHostname (e_state e)"
  "ss_ClientHostname (e_state (bump_errors e)) = ss_ClientHostname (e_state e)"
  by (simp_all add: set_state_def bump_errors_def)

lemma view_ops [simp]:
  "view_of (run_hook f e) = view_of e" "view_of (snd (writeResponse r e)) = view_of e"
  "view_of (snd (readLine rt t e)) = view_of e" "view_of (snd (command_hook cmd e)) = view_of e"
  "view_of (snd (validate_sender p e)) = view_of e" "view_of (snd (ctx_done rt e)) = view_of e"
  "view_of (bump_errors e) = view_of e" "view_of (e\<lparr>e_world := w\<rparr>) = view_of e"
  "view_of (e\<lparr>e_stats := st\<rparr>) = view_of e"
  "view_of (e\<lparr>e_state := (e_state e)\<lparr>ss_ConsecutiveErrors := n\<rparr>\<rparr>) = view_of e"
  "view_of (set_state s e) = view_of e"
  by (rule view_cong; simp)+

lemma view_send_reply [simp]: "view_of (snd (send_reply r e)) = view_of e"
  by (rule view_cong) (simp_all add: send_reply_def case_prod_beta split: option.split)

text \<open>A view outside a transaction shows nothing of an envelope.\<close>

lemma view_idle:
  assumes "sm_state (e_sm f) = s" "s \<noteq> StateMailFrom" "s \<noteq> StateRcptTo"
    "ss_ClientHostname (e_state f) = ss_ClientHostname (e_state e)"
    "ss_TLSActive (e_state f) = ss_TLSActive (e_state e)"
  shows "view_of f = no_transaction s (view_of e)"
  using assms by (simp add: view_of_def no_transaction_def case_prod_beta)

section \<open>Handlers\<close>

text \<open>The policies are honest: what they refuse, they refuse with a negative code.\<close>

definition honest :: "('b, 'w) SessionConfig \<Rightarrow> bool" where
  "honest cfg \<longleftrightarrow>
     (\<forall>s p i w. cf_SenderPolicy cfg = Some s \<longrightarrow> \<not> sr_Accepted (fst (s p i w)) \<longrightarrow> 400 \<le> r_Code (sr_Response (fst (s p i w))))
   \<and> (\<forall>m p i w. cf_Mailbox cfg = Some m \<longrightarrow> rr_Status (fst (m p i w)) \<noteq> RecipientAccepted \<longrightarrow>
        400 \<le> r_Code (rr_Response (fst (m p i w))))"

lemma response_codes [simp]:
  "r_Code ResponseOK = 250" "r_Code ResponseSyntaxErrorParams = 501" "r_Code ResponseTransactionFailed = 554"
  "r_Code ResponseBye = 221" "r_Code ResponseCommandNotImplemented = 502" "r_Code ResponseBadSequence = 503"
  "r_Code ResponseSyntaxError = 500" "r_Code (NewResponse c t) = c" "r_Code (NewMultilineResponse c ls) = c"
  by (simp_all add: response_consts NewMultilineResponse_def NewResponse_def)

lemma track_hello:
  assumes "sm_state (e_sm e) = StateGreeted \<or> sm_state (e_sm e) = StateIdentified"
    and "verb = CmdHELO \<or> verb = CmdEHLO"
  shows "view_of (identify rt verb name e) = no_transaction StateIdentified ((view_of e)\<lparr>cv_name := name\<rparr>)"
  using assms by (auto simp: identify_def view_of_def no_transaction_def sm_eval set_state_def)

lemma track_HELO:
  assumes "sm_state (e_sm e) = StateGreeted \<or> sm_state (e_sm e) = StateIdentified" and "cmd_Verb cmd = CmdHELO"
    and "handleHELO rt cmd e = (resp, e')"
  shows "view_of e' = answered U cmd (r_Code resp) (view_of e)"
  using assms track_hello [OF assms(1), of CmdHELO]
  by (auto simp: handleHELO_def answered_def input_started_def split: sum.splits)

lemma track_EHLO:
  assumes "sm_state (e_sm e) = StateGreeted \<or> sm_state (e_sm e) = StateIdentified" and "cmd_Verb cmd = CmdEHLO"
    and "handleEHLO rt cmd e = (resp, e')"
  shows "view_of e' = answered U cmd (r_Code resp) (view_of e)"
  using assms track_hello [OF assms(1), of CmdEHLO]
  by (auto simp: handleEHLO_def answered_def input_started_def Let_def split: sum.splits)


lemma handleMAIL_positive:
  assumes "handleMAIL rt cmd e = (resp, e')" and "honest (e_config e)" and "\<not> r_Code resp \<ge> 400"
  obtains path f b w1 b' w' where
      "ParseMailPath (rt_Unicode rt) (cmd_Argument cmd) ''FROM'' = Inr path"
      "validate_sender path e = (None, f)"
      "NewBuilder rt (cf_EnvelopeFactory (e_config e)) (envelope_metadata rt f) (e_world f) = (b, w1)"
      "eb_SetMailFrom rt path (cmd_Params cmd) b w1 = ((None, b'), w')"
      "e' = run_hook (\<lambda>h i. OnMailFrom h path i)
         (set_state StateMailFrom (sm_command CmdMAIL (f\<lparr>e_envelope := Some b', e_world := w'\<rparr>)))"
proof -
  have sender: "400 \<le> r_Code r" if "validate_sender p e = (Some r, f)" for p r f
    using that assms(2) unfolding honest_def validate_sender_def
    by (auto split: option.splits prod.splits if_splits) (metis fst_conv)
  have cfg: "e_config f = e_config e" if "validate_sender p e = (r, f)" for p r f
    using that core_fields(9) [of p e] by simp
  from assms(1,3) obtain path where path: "ParseMailPath (rt_Unicode rt) (cmd_Argument cmd) ''FROM'' = Inr path"
    by (cases "ParseMailPath (rt_Unicode rt) (cmd_Argument cmd) ''FROM''")
      (simp_all add: handleMAIL_def split: if_splits, force+)
  obtain r f where v: "validate_sender path e = (r, f)" by fastforce
  obtain b w1 where nb:
    "NewBuilder rt (cf_EnvelopeFactory (e_config e)) (envelope_metadata rt f) (e_world f) = (b, w1)"
    by fastforce
  obtain err b' w' where sf: "eb_SetMailFrom rt path (cmd_Params cmd) b w1 = ((err, b'), w')"
    by (metis prod.exhaust)
  have "r = None" and "err = None" and "e' = run_hook (\<lambda>h i. OnMailFrom h path i)
      (set_state StateMailFrom (sm_command CmdMAIL (f\<lparr>e_envelope := Some b', e_world := w'\<rparr>)))"
    using assms(1,3) sender [of path] v
    by (auto simp: handleMAIL_def path v nb [folded cfg [OF v]] sf Let_def
        split: if_splits option.splits)
  with path v nb sf that show thesis by simp
qed

lemma track_MAIL:
  assumes "sm_state (e_sm e) = StateIdentified" and "cmd_Verb cmd = CmdMAIL" and "honest (e_config e)"
    and "cf_EnvelopeFactory (e_config e) = None" and "handleMAIL rt cmd e = (resp, e')"
  shows "view_of e' = answered (rt_Unicode rt) cmd (r_Code resp) (view_of e)"
proof (cases "r_Code resp \<ge> 400")
  case True
  have "view_of e' = view_of e"
  proof (cases rule: handleMAIL_cases [of rt cmd e])
    case refused
    with assms(5) view_core show ?thesis by (metis snd_conv)
  next
    case (failed f x w)
    with assms(1,5) show ?thesis by (simp add: view_of_def core_def)
  next
    case (accepted path f b w1 b' w')
    with assms(5) True show ?thesis by simp
  qed
  with True assms(2) show ?thesis by (simp add: answered_def input_started_def)
next
  case False
  obtain path f b w1 b' w' where acc:
      "ParseMailPath (rt_Unicode rt) (cmd_Argument cmd) ''FROM'' = Inr path"
      "validate_sender path e = (None, f)"
      "NewBuilder rt (cf_EnvelopeFactory (e_config e)) (envelope_metadata rt f) (e_world f) = (b, w1)"
      "eb_SetMailFrom rt path (cmd_Params cmd) b w1 = ((None, b'), w')"
      "e' = run_hook (\<lambda>h i. OnMailFrom h path i)
         (set_state StateMailFrom (sm_command CmdMAIL (f\<lparr>e_envelope := Some b', e_world := w'\<rparr>)))"
    by (rule handleMAIL_positive [OF assms(5,3) False])
  have f: "e_sm f = e_sm e" "e_state f = e_state e"
    using acc(2) core_fields(9) [of path e] by simp_all
  obtain s where s: "b' = StdB s" "b_mailFrom s = Some path" "b_recipients s = []"
    using acc(3,4) assms(4)
    by (auto simp: NewBuilder_def NewStandardEnvelopeBuilder_def SetMailFrom_def split: prod.splits if_splits)
  have st: "sm_state (snd (TransitionForCommand CmdMAIL True (e_sm e))) = StateMailFrom"
    using assms(1) by (simp add: sm_eval)
  have "view_of e' = (view_of e)\<lparr>cv_phase := StateMailFrom, cv_sender := Some path, cv_rcpts := []\<rparr>"
    using s st f assms(1) by (simp add: acc(5) view_of_def)
  with False assms(2) acc(1) show ?thesis by (simp add: answered_def input_started_def)
qed

lemma handleRCPT_draft:
  assumes "handleRCPT rt cmd e = Inr (resp, e')" and "honest (e_config e)"
    and "e_envelope e = Some (StdB s)" and "\<not> b_finalized s"
  obtains (refused) w where "400 \<le> r_Code resp" "e' = e\<lparr>e_world := w\<rparr>"
  | (accepted) path w where "ParseMailPath (rt_Unicode rt) (cmd_Argument cmd) ''TO'' = Inr path"
    "resp = ResponseOK"
    "e' = run_hook (\<lambda>h i. OnRcptTo h path i) (set_state StateRcptTo (sm_command CmdRCPT
       (e\<lparr>e_envelope := Some (StdB (s\<lparr>b_recipients := b_recipients s @ [path]\<rparr>)), e_world := w\<rparr>)))"
proof (cases "ParseMailPath (rt_Unicode rt) (cmd_Argument cmd) ''TO''")
  case (Inl err)
  with assms(1) refused [of "e_world e"] show thesis by (auto simp: handleRCPT_def)
next
  case (Inr path)
  show thesis
  proof (cases "recipients_full (StdB s) e")
    case True
    with assms(1,3) Inr refused [of "e_world e"] show thesis by (auto simp: handleRCPT_def)
  next
    case False
    with assms(1,3) Inr obtain mailbox where mb: "cf_Mailbox (e_config e) = Some mailbox"
      by (auto simp: handleRCPT_def split: option.splits)
    obtain result w where res: "mailbox path (session_info e) (e_world e) = (result, w)" by fastforce
    have "rr_Status result \<noteq> RecipientAccepted \<Longrightarrow> 400 \<le> r_Code (rr_Response result)"
      using assms(2) mb res unfolding honest_def by (metis fst_conv)
    with assms(1,3,4) Inr False mb res refused [of w] accepted [of path w] show thesis
      by (auto simp: handleRCPT_def accept_recipient_def AddRecipient_def Let_def split: if_splits)
  qed
qed

text \<open>The engine's envelope while a transaction is open is a draft of the standard builder.\<close>

lemma open_draft:
  assumes "engine_inv e" and "cf_EnvelopeFactory (e_config e) = None"
    and "sm_state (e_sm e) = StateMailFrom \<or> sm_state (e_sm e) = StateRcptTo"
  obtains s where "e_envelope e = Some (StdB s)" "draft_ok e s"
  using assms by (auto simp: engine_inv_def envelope_ok_def split: option.splits EnvelopeBuilder.splits)

lemma track_RCPT:
  assumes "sm_state (e_sm e) = StateMailFrom \<or> sm_state (e_sm e) = StateRcptTo"
    and "cmd_Verb cmd = CmdRCPT" and "honest (e_config e)"
    and "engine_inv e" and "cf_EnvelopeFactory (e_config e) = None" and "handleRCPT rt cmd e = Inr (resp, e')"
  shows "view_of e' = answered (rt_Unicode rt) cmd (r_Code resp) (view_of e)"
proof -
  obtain s where s: "e_envelope e = Some (StdB s)" "draft_ok e s"
    using open_draft [OF assms(4,5,1)] .
  then have "\<not> b_finalized s" by (simp add: draft_ok_def)
  from assms(6,3) s(1) this show ?thesis
  proof (cases rule: handleRCPT_draft)
    case (refused w)
    with assms(2) show ?thesis by (simp add: answered_def input_started_def)
  next
    case (accepted path w)
    have "sm_state (snd (TransitionForCommand CmdRCPT True (e_sm e))) = StateRcptTo"
      using assms(1) by (auto simp: sm_eval)
    with assms(1,2) s(1) accepted show ?thesis by (auto simp: answered_def view_of_def)
  qed
qed

lemma data_error_negative: "400 \<le> r_Code (data_error_response err)"
  "r_Code (data_error_response err) \<noteq> Reply503BadSequence"
  "r_Code (data_error_response err) \<noteq> Reply554TransactionFailed"
  by (simp_all add: data_error_response_def)

text \<open>The data phase: an accepted message returns to \<open>Identified\<close>, a failure stays in \<open>Data\<close>.\<close>

abbreviation in_data_of :: "('b, 'w) Engine \<Rightarrow> ('b, 'w) Engine \<Rightarrow> bool" where
  "in_data_of e f \<equiv> sm_state (e_sm f) = StateData
     \<and> ss_ClientHostname (e_state f) = ss_ClientHostname (e_state e)
     \<and> ss_TLSActive (e_state f) = ss_TLSActive (e_state e)"

definition reply_outcome :: "('b, 'w) Engine \<Rightarrow> Response \<times> ('b, 'w) Engine \<Rightarrow> bool" where
  "reply_outcome e res \<longleftrightarrow> (case res of (resp, e') \<Rightarrow>
     if r_Code resp = 250 then view_of e' = no_transaction StateIdentified (view_of e)
     else r_Code resp \<in> {451, 500, 552} \<and> view_of e' = no_transaction StateData (view_of e))"

lemma reply_outcome_abandon:
  assumes "in_data_of e f" and "r_Code resp \<in> {451, 500, 552}"
  shows "reply_outcome e (abandon_data resp f)"
  using assms by (auto simp: reply_outcome_def abandon_data_def sm_state_Reset intro!: view_idle)

lemma reply_outcome_accepted:
  assumes "in_data_of e f"
  shows "reply_outcome e (message_accepted env f)"
  using assms
  by (auto simp: reply_outcome_def message_accepted_def Let_def sm_state_Reset sm_state_DataComplete intro!: view_idle)

lemma reply_outcome_finish:
  assumes "in_data_of e f"
  shows "reply_outcome e (finish_data wr b f)"
  using assms by (auto simp: finish_data_def case_prod_beta
      intro!: reply_outcome_abandon reply_outcome_accepted split: sum.split option.split)

lemma reply_outcome_receive:
  assumes "in_data_of e f"
  shows "reply_outcome e (receive_data rt b f)"
proof -
  have code: "r_Code (data_error_response err) \<in> {451, 500, 552}" for err
    by (simp add: data_error_response_def)
  show ?thesis
    using assms code by (auto simp: receive_data_def case_prod_beta
        intro!: reply_outcome_abandon reply_outcome_finish split: sum.split option.split)
qed

lemma handleDATA_outcome:
  assumes "sm_state (e_sm e) = StateRcptTo" and "writable e" and "handleDATA rt cmd e = Inr (resp, e')"
  shows "reply_outcome e (resp, e')"
proof -
  let ?h = "run_hook OnDataStart (set_state StateData (sm_command CmdDATA e))"
  obtain x f where w: "writeResponse ResponseStartMailInput ?h = (x, f)" by fastforce
  have "writable ?h" using sent_writable_out [of ?h e] assms(2) by simp
  with writable_reply(3) w have x: "x = None" by (metis fst_conv)
  have "in_data_of e (snd (writeResponse ResponseStartMailInput ?h))"
    using assms(1) by (simp add: sm_eval)
  with w have f: "in_data_of e f" by simp
  from assms(3) w x obtain b where "receive_data rt b f = (resp, e')"
    by (auto simp: handleDATA_def split: option.splits)
  with reply_outcome_receive [OF f, of rt b] show ?thesis by simp
qed

lemma view_phase [simp]: "cv_phase (view_of e) = sm_state (e_sm e)"
  by (simp add: view_of_def case_prod_beta)

text \<open>An allowed command: what the client deduces from its reply is what became of the session.\<close>

lemma track_handleCommand:
  assumes "sm_IsCommandAllowed (cmd_Verb cmd) (e_sm e)" and "engine_inv e" and "writable e"
    and "honest (e_config e)" and "cf_EnvelopeFactory (e_config e) = None"
    and "handleCommand rt cmd e = Inr (resp, e')"
  shows "view_of e' = answered (rt_Unicode rt) cmd (r_Code resp) (view_of e)"
proof -
  have rset: "view_of (snd (handleRSET rt cmd e))
      = no_transaction (if sm_state (e_sm e) = StateGreeted then StateGreeted else StateIdentified) (view_of e)"
    if "sm_state (e_sm e) \<in> {StateGreeted, StateIdentified, StateMailFrom, StateRcptTo}"
    using that by (auto simp: handleRSET_def Let_def sm_state_Reset intro!: view_idle)
  have quit: "view_of (snd (handleQUIT cmd e)) = no_transaction StateTerminated (view_of e)"
    if "sm_state (e_sm e) \<in> {StateGreeted, StateIdentified, StateMailFrom, StateRcptTo}"
    using that by (auto simp: handleQUIT_def sm_eval intro!: view_idle)
  have starttls: "view_of (set_state StateStartTLS (sm_command CmdSTARTTLS e)) = (view_of e)\<lparr>cv_phase := StateStartTLS\<rparr>"
    if "sm_state (e_sm e) = StateIdentified"
    using that by (simp add: view_of_def sm_eval set_state_def)
  show ?thesis
  proof (cases "cmd_Verb cmd")
    case CmdHELO
    with assms(1,6) track_HELO show ?thesis by (simp add: handleCommand_def allowed_states)
  next
    case CmdEHLO
    with assms(1,6) track_EHLO show ?thesis by (simp add: handleCommand_def allowed_states)
  next
    case CmdMAIL
    with assms track_MAIL show ?thesis by (simp add: handleCommand_def allowed_states)
  next
    case CmdRCPT
    with assms track_RCPT show ?thesis by (simp add: handleCommand_def allowed_states)
  next
    case CmdDATA
    with assms handleDATA_outcome [of e rt cmd resp e'] show ?thesis
      by (auto simp: handleCommand_def allowed_states reply_outcome_def answered_def input_started_def split: if_splits)
  next
    case CmdRSET
    with assms(1,6) rset show ?thesis
      by (auto simp: handleCommand_def allowed_states answered_def input_started_def handleRSET_def Let_def)
  next
    case CmdQUIT
    with assms(1,6) quit show ?thesis
      by (auto simp: handleCommand_def allowed_states answered_def input_started_def handleQUIT_def)
  next
    case CmdSTARTTLS
    with assms(1,6) starttls show ?thesis
      by (auto simp: handleCommand_def allowed_states answered_def input_started_def handleSTARTTLS_def split: if_splits)
  qed (use assms(6) in \<open>auto simp: handleCommand_def handleNOOP_def handleVRFY_def handleHELP_def
      answered_def input_started_def split: if_splits\<close>)
qed

section \<open>The engine refines the protocol\<close>

text \<open>The bytes an exchange puts on the wire: the answer, after the 354 of a DATA that started.\<close>

fun exchange_bytes :: "client_view \<Rightarrow> exchange \<Rightarrow> bytes" where
  "exchange_bytes v (Garbage resp) = Response_Bytes resp"
| "exchange_bytes v (Answer cmd resp) =
     (if input_started cmd (r_Code resp) v then Response_Bytes ResponseStartMailInput else []) @ Response_Bytes resp"
| "exchange_bytes v _ = []"

text \<open>The exchange is the one the input calls for.\<close>

fun exchange_for :: "unicode \<Rightarrow> int \<Rightarrow> goerror + bytes \<Rightarrow> exchange \<Rightarrow> bool" where
  "exchange_for U n (Inl _) x \<longleftrightarrow> x = Silence"
| "exchange_for U n (Inr line) x \<longleftrightarrow>
     (case ParseCommand U n line of
        Inl _ \<Rightarrow> (\<exists>resp. x = Garbage resp) | Inr cmd \<Rightarrow> (\<exists>resp. x = Answer cmd resp))"

text \<open>A step of the engine that is the exchange \<open>x\<close> for the client.\<close>

definition exchanged :: "unicode \<Rightarrow> exchange \<Rightarrow> ('b, 'w) Engine \<Rightarrow> ('b, 'w) Engine \<Rightarrow> bool" where
  "exchanged U x e e' \<longleftrightarrow> view_of e' = track U x (view_of e)
     \<and> sent e' = sent e @ exchange_bytes (view_of e) x \<and> writable e'"

lemma track_dispatch:
  assumes "engine_inv e" and "writable e" and "honest (e_config e)" and "cf_EnvelopeFactory (e_config e) = None"
    and "dispatch rt cmd e = Inr (r, e')"
  shows "\<exists>resp. exchanged (rt_Unicode rt) (Answer cmd resp) e e'"
proof -
  let ?h = "snd (command_hook cmd e)"
  have h: "writable ?h" "sent ?h = sent e" using sent_writable_out [of ?h e] assms(2) by simp_all
  have b: "writable (bump_errors ?h)" "sent (bump_errors ?h) = sent e"
    using sent_writable_out [of "bump_errors ?h" ?h] h by simp_all
  from assms(5) show ?thesis
  proof (cases rule: dispatch_cases)
    case (hook err)
    then have "exchanged (rt_Unicode rt) (Answer cmd ResponseTransactionFailed) e e'"
      using writable_reply [OF h(1)] h(2) by (simp add: exchanged_def answered_def input_started_def)
    then show ?thesis ..
  next
    case sequence
    then have "exchanged (rt_Unicode rt) (Answer cmd ResponseBadSequence) e e'"
      using writable_reply [OF b(1)] b(2) by (simp add: exchanged_def answered_def input_started_def)
    then show ?thesis ..
  next
    case (handled resp e2)
    have e': "e' = snd (send_reply resp e2)" using handled(4) by (metis Inr_inject snd_conv)
    have v: "view_of e2 = answered (rt_Unicode rt) cmd (r_Code resp) (view_of e)"
      using track_handleCommand [OF _ _ h(1) _ _ handled(3)] handled(2) assms(1,3,4) by simp
    have "sent e2 = sent e @ (if input_started cmd (r_Code resp) (view_of e)
        then Response_Bytes ResponseStartMailInput else []) \<and> writable e2"
    proof (cases "cmd_Verb cmd = CmdDATA")
      case True
      with handled(2) have st: "sm_state (e_sm e) = StateRcptTo" by (simp add: allowed_states)
      from True handled(3) have hd: "handleDATA rt cmd ?h = Inr (resp, e2)" by (simp add: handleCommand_def)
      from handleDATA_outcome [OF _ h(1) hd] st have "input_started cmd (r_Code resp) (view_of e)"
        using True by (auto simp: reply_outcome_def input_started_def split: if_splits)
      with handleDATA_sent [OF h(1) hd] h(2) show ?thesis by simp
    next
      case False
      then show ?thesis
        using sent_writable_out [OF handleCommand_out [OF handled(3) False]] h by (simp add: input_started_def)
    qed
    with v e' sent_send_reply [of e2 resp] have "exchanged (rt_Unicode rt) (Answer cmd resp) e e'"
      by (simp add: exchanged_def)
    then show ?thesis ..
  qed simp
qed

lemma track_reject:
  assumes "writable e" and "engine_inv e" and "\<not> IsTerminal (sm_state (e_sm e))"
  shows "\<exists>resp. exchanged U (Garbage resp) e (snd (reject_line err e))"
proof (cases "checkErrorLimit (bump_errors e)")
  case None
  have b: "writable (bump_errors e)" "sent (bump_errors e) = sent e"
    using sent_writable_out [of "bump_errors e" e] assms(1) by simp_all
  from None writable_reply [OF b(1)] b(2)
  have "exchanged U (Garbage ResponseSyntaxError) e (snd (reject_line err e))"
    by (simp add: exchanged_def reject_line_def Let_def)
  then show ?thesis ..
next
  case (Some lim)
  let ?resp = "NewResponse Reply421ServiceNotAvailable ''Too many errors, closing connection''"
  let ?f = "on_sm (\<lambda>m. snd (Abort m)) (snd (writeResponse ?resp (bump_errors e)))"
  have b: "writable (bump_errors e)" "sent (bump_errors e) = sent e"
    using sent_writable_out [of "bump_errors e" e] assms(1) by simp_all
  have f: "sent ?f = sent e @ Response_Bytes ?resp" "writable ?f"
    using sent_writable_out [of ?f "snd (writeResponse ?resp (bump_errors e))"] writable_reply [OF b(1)] b(2) by simp_all
  have "sm_state (e_sm ?f) = StateAborted"
    using assms(2,3) by (cases "sm_state (e_sm e)") (simp_all add: sm_state_Abort engine_inv_def IsTerminal_def)
  then have "view_of ?f = no_transaction StateAborted (view_of e)" by (intro view_idle) simp_all
  with f Some have "exchanged U (Garbage ?resp) e (snd (reject_line err e))"
    by (simp add: exchanged_def reject_line_def Let_def)
  then show ?thesis ..
qed

lemma exchanged_silent:
  assumes "exchanged U x e e'" and "core e = core f" and "out e = out f"
  shows "exchanged U x f e'"
  using assms view_core [OF assms(2)] sent_writable_out [OF assms(3)] by (simp add: exchanged_def)

lemma command_exchanged:
  assumes "engine_inv e" and "writable e" and "\<not> IsTerminal (sm_state (e_sm e))"
    and "honest (e_config e)" and "cf_EnvelopeFactory (e_config e) = None"
    and "processOneCommand rt e = Inr (r, e')"
  shows "\<exists>x. exchange_for (rt_Unicode rt) (e_maxCommandLength e)
        (fst (readLine rt (command_timeout (Limits (e_config e))) e)) x
      \<and> exchanged (rt_Unicode rt) x e e'"
proof -
  let ?rd = "readLine rt (command_timeout (Limits (e_config e))) e"
  have core1: "core e1 = core e" and out1: "out e1 = out e" if "?rd = (x, e1)" for x e1
    using that core_ops(8) [of rt _ e] out_readLine [of rt _ e] by (metis snd_conv)+
  let ?cnt = "\<lambda>e1. e1\<lparr>e_stats := (e_stats e1)\<lparr>CommandCount := i64 (CommandCount (e_stats e1) + 1)\<rparr>\<rparr>"
  have cnt: "core (?cnt f) = core f" "out (?cnt f) = out f" for f :: "('a, 'b) Engine"
    by (simp_all add: core_def)
  have ok: "engine_inv f \<and> writable f \<and> \<not> IsTerminal (sm_state (e_sm f)) \<and> honest (e_config f)
      \<and> cf_EnvelopeFactory (e_config f) = None" if "core f = core e" "out f = out e" for f
    using assms(1-5) that engine_inv_core [OF that(1)] sent_writable_out [OF that(2)] by (simp add: core_def)
  from assms(6) show ?thesis
  proof (cases rule: processOneCommand_cases)
    case (failed err e1)
    have "view_of e1 = view_of e" "sent e1 = sent e" "writable e1"
      using view_core [OF core1 [OF failed(1)]] sent_writable_out [OF out1 [OF failed(1)]] assms(2) by simp_all
    with failed show ?thesis by (intro exI [of _ Silence]) (simp add: exchanged_def)
  next
    case (rejected line e1 err)
    note c = trans [OF cnt(1) core1 [OF rejected(1)]] trans [OF cnt(2) out1 [OF rejected(1)]]
    obtain resp where "exchanged (rt_Unicode rt) (Garbage resp) (?cnt e1) e'"
      using track_reject [of "?cnt e1"] ok [OF c] rejected(3) by (metis Inr_inject snd_conv)
    from exchanged_silent [OF this c] rejected(1,2) core1 [OF rejected(1)] show ?thesis
      by (intro exI [of _ "Garbage resp"]) (simp add: core_def)
  next
    case (parsed line e1 cmd)
    note c = trans [OF cnt(1) core1 [OF parsed(1)]] trans [OF cnt(2) out1 [OF parsed(1)]]
    obtain resp where "exchanged (rt_Unicode rt) (Answer cmd resp) (?cnt e1) e'"
      using track_dispatch [OF _ _ _ _ parsed(3) [symmetric]] ok [OF c] by auto
    from exchanged_silent [OF this c] parsed(1,2) core1 [OF parsed(1)] show ?thesis
      by (intro exI [of _ "Answer cmd resp"]) (simp add: core_def)
  qed
qed

text \<open>After the upgrade both sides are at the beginning again, over TLS.\<close>

lemma track_upgrade:
  assumes "sm_state (e_sm e) = StateStartTLS" and "performTLSUpgrade rt e = Inr (None, e')"
  shows "view_of e' = track U Upgraded (view_of e)"
  using assms(2)
proof (cases rule: performTLSUpgrade_success)
  case (1 getConfig tlsConfig w ts e1)
  have "e_sm e1 = e_sm e"
    using core_tls_handshake [of rt tlsConfig "e\<lparr>e_world := w\<rparr>"] 1(3) by (simp add: core_def)
  with assms(1) 1(4) show ?thesis
    by (simp add: tls_restart_def Let_def view_of_def tls_active_def sm_state_TLSComplete)
qed

text \<open>A whole session: what the client knows after any number of commands is what it deduced step by
  step, and the bytes it has received are the replies of these exchanges one after another.\<close>

definition command_step :: "'w Runtime \<Rightarrow> ('b, 'w) Engine \<Rightarrow> ('b, 'w) Engine \<Rightarrow> bool" where
  "command_step rt e e' \<longleftrightarrow> \<not> IsTerminal (sm_state (e_sm e)) \<and> (\<exists>r. processOneCommand rt e = Inr (r, e'))"

fun conversation_bytes :: "unicode \<Rightarrow> client_view \<Rightarrow> exchange list \<Rightarrow> bytes" where
  "conversation_bytes U v [] = []"
| "conversation_bytes U v (x # xs) = exchange_bytes v x @ conversation_bytes U (track U x v) xs"

lemma client_follows_session:
  assumes "(command_step rt)\<^sup>*\<^sup>* e e'" and "engine_inv e" and "writable e" and "honest (e_config e)"
    and "cf_EnvelopeFactory (e_config e) = None"
  shows "\<exists>xs. view_of e' = fold (track (rt_Unicode rt)) xs (view_of e)
      \<and> sent e' = sent e @ conversation_bytes (rt_Unicode rt) (view_of e) xs"
  using assms
proof (induction rule: converse_rtranclp_induct)
  case base
  show ?case by (intro exI [of _ "[]"]) simp
next
  case (step e e1)
  from step(1) obtain r where live: "\<not> IsTerminal (sm_state (e_sm e))" and run: "processOneCommand rt e = Inr (r, e1)"
    by (auto simp: command_step_def)
  from command_exchanged [OF step(4,5) live step(6,7) run]
  obtain x where x: "exchanged (rt_Unicode rt) x e e1" by blast
  have "e_config e1 = e_config e" using processOneCommand_progress(1) [OF run] by (simp add: keeps_def)
  with step(3) inv_processOneCommand [OF step(4) run] step(6,7) x
  obtain xs where "view_of e' = fold (track (rt_Unicode rt)) xs (view_of e1)"
    "sent e' = sent e1 @ conversation_bytes (rt_Unicode rt) (view_of e1) xs"
    by (auto simp: exchanged_def)
  with x show ?case by (intro exI [of _ "x # xs"]) (simp add: exchanged_def)
qed

text \<open>
  (C9) The engine refines the protocol a client runs. On a connection whose writes succeed, with
  policies that refuse with negative codes, every call of \<open>processOneCommand\<close> is an exchange
  the client can follow: what it deduces from the line it sent and the code it got back is the
  phase, the name, the sender, the recipients and the TLS state the server is in, and the bytes
  it received are that reply, after 354 if a data phase took place.
\<close>

theorem client_tracks_server:
  assumes "engine_inv e" and "writable e" and "\<not> IsTerminal (sm_state (e_sm e))"
    and "honest (e_config e)" and "cf_EnvelopeFactory (e_config e) = None"
    and "processOneCommand rt e = Inr (r, e')"
  shows "\<exists>x. exchange_for (rt_Unicode rt) (e_maxCommandLength e)
        (fst (readLine rt (command_timeout (Limits (e_config e))) e)) x
      \<and> view_of e' = track (rt_Unicode rt) x (view_of e)
      \<and> sent e' = sent e @ exchange_bytes (view_of e) x"
  using command_exchanged [OF assms] by (auto simp: exchanged_def)

theorem client_tracks_server_witness:
  "\<exists>r e' x. processOneCommand sample_rt (greeted_engine TLSOptional [''EHLO c.example'']) = Inr (r, e')
    \<and> view_of e' = track (rt_Unicode sample_rt) x (view_of (greeted_engine TLSOptional [''EHLO c.example'']))
    \<and> cv_phase (view_of e') = StateIdentified \<and> cv_name (view_of e') = ''c.example''"
proof -
  let ?e = "greeted_engine TLSOptional [''EHLO c.example'']"
  have "case processOneCommand sample_rt ?e of Inl _ \<Rightarrow> False
      | Inr (r, e') \<Rightarrow> cv_phase (view_of e') = StateIdentified \<and> cv_name (view_of e') = ''c.example''"
    by code_simp
  then obtain r e' where run: "processOneCommand sample_rt ?e = Inr (r, e')"
    and v: "cv_phase (view_of e') = StateIdentified" "cv_name (view_of e') = ''c.example''"
    by (auto split: sum.splits prod.splits)
  have "e_conn ?e = NewBufferedConn (net_of [crlf_lines [''EHLO c.example'']])" and cfg: "e_config ?e = sample_config TLSOptional"
    unfolding greeted_engine_def sample_engine_def by (simp_all add: NewEngine_fields(1,3) [OF refl])
  then have "writable ?e"
    by (simp add: writable_def NewBufferedConn_def net_of_def WrapNetConn_def)
  moreover have "greeted ?e" by (rule greeted_engine_greeted)
  then have "engine_inv ?e" "\<not> IsTerminal (sm_state (e_sm ?e))"
    by (simp_all add: session.init_inv greeted_def IsTerminal_def)
  moreover have "honest (e_config ?e)" "cf_EnvelopeFactory (e_config ?e) = None"
    by (simp_all add: cfg sample_config_def honest_def)
  ultimately obtain x where "view_of e' = track (rt_Unicode sample_rt) x (view_of ?e)"
    using client_tracks_server [OF _ _ _ _ _ run] by blast
  with run v show ?thesis by blast
qed

end
