(* ===== verification/Data_Failure.thy ===== *)
theory Data_Failure
  imports Client_View
begin

text \<open>
  What a data phase that fails leaves behind. The table of the state machine has no way from
  \<open>Data\<close> back to \<open>Identified\<close>, so the \<open>Reset\<close> with which \<open>handleDATA\<close> gives a message up fails
  silently, and the session is of no use any more.
\<close>

definition stuck_in_data :: "('b, 'w) Engine \<Rightarrow> bool" where
  "stuck_in_data e \<longleftrightarrow> sm_state (e_sm e) = StateData \<and> ss_State (e_state e) = StateIdentified \<and> e_envelope e = None"

lemma stuck_core: "core f = core e \<Longrightarrow> stuck_in_data f = stuck_in_data e"
  by (simp add: stuck_in_data_def core_def)

lemma stuck_simps [simp]:
  "stuck_in_data (snd (writeResponse r e)) = stuck_in_data e" "stuck_in_data (snd (command_hook c e)) = stuck_in_data e"
  "stuck_in_data (bump_errors e) = stuck_in_data e" "stuck_in_data (snd (send_reply r e)) = stuck_in_data e"
  "stuck_in_data (snd (readLine rt t e)) = stuck_in_data e" "stuck_in_data (snd (ctx_done rt e)) = stuck_in_data e"
  "stuck_in_data (e\<lparr>e_stats := st\<rparr>) = stuck_in_data e"
  by (simp_all add: stuck_in_data_def send_reply_def case_prod_beta split: option.split)

text \<open>A failed data phase ends like that, whatever went wrong.\<close>

definition failed_or_stored :: "Response \<times> ('b, 'w) Engine \<Rightarrow> bool" where
  "failed_or_stored res \<longleftrightarrow> (case res of (resp, e) \<Rightarrow>
     r_Code resp = 250 \<or> r_Code resp \<in> {451, 500, 552} \<and> stuck_in_data e)"

lemma abandon_stuck:
  "sm_state (e_sm e) = StateData \<Longrightarrow> r_Code resp \<in> {451, 500, 552} \<Longrightarrow> failed_or_stored (abandon_data resp e)"
  by (simp add: failed_or_stored_def abandon_data_def stuck_in_data_def sm_state_Reset)

lemma accepted_stored: "failed_or_stored (message_accepted env e)"
  by (simp add: failed_or_stored_def message_accepted_def Let_def)

lemma finish_stuck: "sm_state (e_sm e) = StateData \<Longrightarrow> failed_or_stored (finish_data wr b e)"
  by (auto simp: finish_data_def case_prod_beta intro!: abandon_stuck accepted_stored split: sum.split option.split)

lemma receive_stuck: "sm_state (e_sm e) = StateData \<Longrightarrow> failed_or_stored (receive_data rt b e)"
proof -
  have code: "r_Code (data_error_response err) \<in> {451, 500, 552}" for err
    by (simp add: data_error_response_def)
  assume "sm_state (e_sm e) = StateData"
  then show ?thesis
    using code by (auto simp: receive_data_def case_prod_beta intro!: abandon_stuck finish_stuck split: sum.split option.split)
qed

lemma handleDATA_stuck:
  assumes "sm_state (e_sm e) = StateRcptTo" and "writable e" and "handleDATA rt cmd e = Inr res"
  shows "failed_or_stored res"
proof -
  let ?h = "run_hook OnDataStart (set_state StateData (sm_command CmdDATA e))"
  obtain x f where w: "writeResponse ResponseStartMailInput ?h = (x, f)" by fastforce
  have "writable ?h" using sent_writable_out [of ?h e] assms(2) by simp
  with writable_reply(3) w have x: "x = None" by (metis fst_conv)
  have "sm_state (e_sm (snd (writeResponse ResponseStartMailInput ?h))) = StateData"
    using assms(1) by (simp add: sm_eval)
  with w have "sm_state (e_sm f) = StateData" by simp
  with receive_stuck assms(3) w x show ?thesis by (auto simp: handleDATA_def split: option.splits)
qed

text \<open>No command is allowed in \<open>Data\<close>.\<close>

lemma stuck_dispatch:
  assumes "stuck_in_data e"
  shows "dispatch rt c e = Inr
    (if fst (command_hook c e) = None
     then (None, snd (writeResponse ResponseBadSequence (bump_errors (snd (command_hook c e)))))
     else (fst (command_hook c e), snd (writeResponse ResponseTransactionFailed (snd (command_hook c e)))))"
proof -
  have "\<not> sm_IsCommandAllowed v (e_sm (snd (command_hook c e)))" for v
    using assms by (simp add: stuck_in_data_def sm_IsCommandAllowed_def IsCommandAllowed_def)
  then show ?thesis by (simp add: dispatch_def case_prod_beta split: option.split)
qed

lemma stuck_process:
  assumes "stuck_in_data e" and "processOneCommand rt e = Inr (r, f)"
  shows "stuck_in_data f \<or> sm_state (e_sm f) = StateAborted \<and> r \<noteq> None"
proof -
  have rd: "stuck_in_data e1" if "readLine rt t e = (y, e1)" for t y e1
    using assms(1) stuck_simps(5) [of rt t e] that by simp
  from assms(2) show ?thesis
  proof (cases rule: processOneCommand_cases)
    case (failed err e1)
    with rd [OF failed(1)] show ?thesis by simp
  next
    case (rejected line e1 err)
    let ?e1 = "e1\<lparr>e_stats := (e_stats e1)\<lparr>CommandCount := i64 (CommandCount (e_stats e1) + 1)\<rparr>\<rparr>"
    have "reject_line err ?e1 = (r, f)" using rejected(3) by simp
    moreover have "stuck_in_data ?e1" using rd [OF rejected(1)] by simp
    ultimately show ?thesis
      by (auto simp: reject_line_def Let_def stuck_in_data_def sm_state_Abort split: option.splits)
  next
    case (parsed line e1 cmd)
    let ?e1 = "e1\<lparr>e_stats := (e_stats e1)\<lparr>CommandCount := i64 (CommandCount (e_stats e1) + 1)\<rparr>\<rparr>"
    have s: "stuck_in_data ?e1" using rd [OF parsed(1)] by simp
    with stuck_dispatch [OF s, of rt cmd] parsed(3) show ?thesis by (auto split: if_splits)
  qed
qed

lemma stuck_iteration:
  assumes "stuck_in_data e"
  shows "run_step rt e = Continue f \<Longrightarrow> stuck_in_data f"
    and "run_step rt e = Return r f \<Longrightarrow> sm_state (e_sm f) \<in> {StateData, StateAborted}"
proof -
  obtain x e1 where ctx: "ctx_done rt e = (x, e1)" by fastforce
  then have e1: "stuck_in_data e1" using stuck_simps(6) [of rt e] assms by simp
  then have here: "\<not> IsTerminal (sm_state (e_sm e1))" "ss_State (e_state e1) \<noteq> StateStartTLS" "sm_state (e_sm e1) = StateData"
    by (simp_all add: stuck_in_data_def IsTerminal_def)
  have left: "sm_state (e_sm f) = sm_state (e_sm g)" if "leave rt reason err g = Return r f" for reason err g
    using that by (auto simp: leave_def handleDisconnect_def engine_now_def split: if_splits prod.splits)
  have after: "f = g \<and> \<not> IsTerminal (sm_state (e_sm g))" if "after_error rt err g = Continue f" for err g
    using that by (auto dest: after_error_Continue)
  have after_left: "sm_state (e_sm f) = sm_state (e_sm g)" if "after_error rt err g = Return r f" for err g
    using that left by (auto simp: after_error_def split: if_splits)
  show "stuck_in_data f" if run: "run_step rt e = Continue f"
    using run
  proof (cases rule: run_step_cases)
    case (upgrade e2)
    with ctx here(2) show ?thesis by simp
  next
    case (command e2 y)
    with ctx have e2: "e2 = e1" by simp
    have "sm_state (e_sm f) \<noteq> StateAborted" if "y \<noteq> None"
      using that run ctx here command(4) e2 after
      by (auto simp: run_step_def IsTerminal_def leave_def split: prod.splits option.splits)
    with stuck_process [OF e1 command(4) [unfolded e2]] show ?thesis by blast
  qed
  show "sm_state (e_sm f) \<in> {StateData, StateAborted}" if run: "run_step rt e = Return r f"
  proof (cases x)
    case None
    with run ctx here obtain y g where g: "processOneCommand rt e1 = Inr (y, g)" and fg: "sm_state (e_sm f) = sm_state (e_sm g)"
      using after_left by (auto simp: run_step_def split: sum.splits prod.splits option.splits)
    from stuck_process [OF e1 g] fg show ?thesis by (auto simp: stuck_in_data_def)
  next
    case (Some err)
    with run ctx here(3) left show ?thesis by (auto simp: run_step_def)
  qed
qed

text \<open>
  (C19) A failed data phase wedges the session. Take any state with recipients accepted and a
  connection whose writes succeed. If the reply that ends a DATA command is not 250, it is 451, 500 or 552, the session shows \<open>Identified\<close> without an envelope, and
  the machine stays in \<open>Data\<close>; and so it is in every state the session can reach from there,
  whatever is read. Every command is refused there and does nothing, RSET and QUIT included: with 503, or
  with 554 if a hook vetoes it first. And when the loop ends, the machine is in \<open>Data\<close> or \<open>Aborted\<close>,
  never in \<open>Terminated\<close>.
\<close>

theorem failed_data_wedges:
  assumes "sm_state (e_sm e) = StateRcptTo" and "writable e"
    and "handleDATA rt cmd e = Inr (resp, e1)" and "r_Code resp \<noteq> 250"
    and "(session_step rt)\<^sup>*\<^sup>* (snd (send_reply resp e1)) f"
  shows "r_Code resp \<in> {451, 500, 552}
    \<and> sm_state (e_sm f) = StateData \<and> ss_State (e_state f) = StateIdentified \<and> e_envelope f = None
    \<and> dispatch rt c f = Inr
        (if fst (command_hook c f) = None
         then (None, snd (writeResponse ResponseBadSequence (bump_errors (snd (command_hook c f)))))
         else (fst (command_hook c f), snd (writeResponse ResponseTransactionFailed (snd (command_hook c f)))))
    \<and> (\<forall>r g. run_step rt f = Return r g \<longrightarrow> sm_state (e_sm g) \<in> {StateData, StateAborted})"
proof -
  have failed: "r_Code resp \<in> {451, 500, 552}" "stuck_in_data e1"
    using handleDATA_stuck [OF assms(1-3)] assms(4) by (simp_all add: failed_or_stored_def)
  from assms(5) have f: "stuck_in_data f"
  proof (induction rule: rtranclp_induct)
    case (step y z)
    then show ?case using stuck_iteration(1) by (auto simp: session_step_def)
  qed (use failed(2) in simp)
  with failed(1) stuck_dispatch [OF f, of rt c] stuck_iteration(2) [OF f] show ?thesis
    by (auto simp: stuck_in_data_def)
qed

text \<open>A storage that is full.\<close>

definition full_engine :: "(unit, Envelope list) Engine" where
  "full_engine = data_engine\<lparr>e_config := (e_config data_engine)\<lparr>cf_Storage :=
     Some (\<lambda>env w. (Inl (ErrNew ''disk full''), w))\<rparr>\<rparr>"

definition quit_command :: Command where
  "quit_command = \<lparr>cmd_Verb = CmdQUIT, cmd_Raw = ''QUIT'', cmd_Argument = [], cmd_Params = None\<rparr>"

definition data_fails :: bool where
  "data_fails = (case handleDATA sample_rt data_command full_engine of
     Inr (resp, e1) \<Rightarrow> r_Code resp = 451
       \<and> (case run_step sample_rt (snd (send_reply resp e1)) of Continue _ \<Rightarrow> True | _ \<Rightarrow> False)
   | Inl _ \<Rightarrow> False)"

theorem failed_data_wedges_witness:
  "\<exists>resp e1 f. handleDATA sample_rt data_command full_engine = Inr (resp, e1) \<and> r_Code resp = 451
    \<and> session_step sample_rt (snd (send_reply resp e1)) f
    \<and> dispatch sample_rt quit_command f = Inr (None, snd (writeResponse ResponseBadSequence (bump_errors f)))
    \<and> sm_state (e_sm f) = StateData"
proof -
  have "data_fails" by code_simp
  then obtain resp e1 where d1: "handleDATA sample_rt data_command full_engine = Inr (resp, e1)" "r_Code resp = 451"
    and run: "case run_step sample_rt (snd (send_reply resp e1)) of Continue _ \<Rightarrow> True | _ \<Rightarrow> False"
    unfolding data_fails_def by (cases "handleDATA sample_rt data_command full_engine") auto
  from run obtain f where "run_step sample_rt (snd (send_reply resp e1)) = Continue f"
    by (cases "run_step sample_rt (snd (send_reply resp e1))") simp_all
  note d = d1 this
  have step: "session_step sample_rt (snd (send_reply resp e1)) f" using d(3) by (simp add: session_step_def)
  have e: "sm_state (e_sm full_engine) = StateRcptTo" "writable full_engine"
    using data_engine_premises(2,6) by (simp_all add: full_engine_def writable_def)
  have "r_Code resp \<noteq> 250" using d(2) by simp
  note wedged = failed_data_wedges [OF e d(1) this r_into_rtranclp [of "session_step sample_rt", OF step], of quit_command]
  have "e_config f = e_config full_engine"
    using run_step_config [OF d(3)] keeps_handleDATA [OF d(1)] keeps_send_reply [of full_engine resp e1] by (simp add: keeps_def)
  then have "command_hook quit_command f = (None, f)" by (simp add: command_hook_def full_engine_def data_engine_conn sample_config_def)
  with wedged d step show ?thesis by auto
qed

end
