(* ===== verification/Engine_World.thy ===== *)
theory Engine_World
  imports Engine_Data
begin

text \<open>
  A session and the services around it. The locale \<open>session_world\<close> is the contract between the
  engine and what the user configures: the clock, the random source, the context, the hooks and
  the policies keep a property \<open>P\<close> of the world, the sender policy accepts only senders that
  satisfy \<open>okS\<close> and the mailbox only recipients that satisfy \<open>okR\<close>, and the storage keeps \<open>P\<close> when it is handed an acceptable envelope. What the engine
  promises in return is that it hands the storage nothing else, so \<open>P\<close> holds throughout every
  session. The in-memory services of the harness and those of the example with its own policies
  are instances.
\<close>

section \<open>The contract\<close>

text \<open>What the engine promises of an envelope it hands to the storage.\<close>

definition good_envelope ::
    "SessionLimits \<Rightarrow> TLSPolicy \<Rightarrow> (MailPath \<Rightarrow> bool) \<Rightarrow> (MailPath \<Rightarrow> bool) \<Rightarrow> Envelope \<Rightarrow> bool" where
  "good_envelope limits policy okS okR env \<longleftrightarrow>
     env_finalized env \<and> okS (env_mailFrom env) \<and> env_recipients env \<noteq> [] \<and> list_all okR (env_recipients env)
     \<and> (MaxRecipients limits > 0 \<longrightarrow> RecipientCount env \<le> MaxRecipients limits)
     \<and> (policy = TLSRequired \<longrightarrow> md_TLSActive (env_metadata env))"

definition hooks_keep :: "('w \<Rightarrow> bool) \<Rightarrow> 'w SessionHooks \<Rightarrow> bool" where
  "hooks_keep P h \<longleftrightarrow>
     (\<forall>w. P w \<longrightarrow>
        (\<forall>i. P (OnConnect h i w)) \<and> (\<forall>i r. P (OnDisconnect h i r w))
      \<and> (\<forall>c i. P (snd (OnCommand h c i w))) \<and> (\<forall>p i. P (OnMailFrom h p i w))
      \<and> (\<forall>p i. P (OnRcptTo h p i w)) \<and> (\<forall>i. P (OnDataStart h i w))
      \<and> (\<forall>env i. P (OnDataEnd h env i w)) \<and> (\<forall>ts i. P (OnTLSUpgrade h ts i w)))"

definition runtime_keeps :: "('w \<Rightarrow> bool) \<Rightarrow> 'w Runtime \<Rightarrow> bool" where
  "runtime_keeps P rt \<longleftrightarrow>
     (\<forall>w. P w \<longrightarrow> P (snd (rt_Now rt w)) \<and> (\<forall>n. P (snd (rt_Rand rt n w))) \<and> P (snd (rt_CtxDone rt w)))"

text \<open>What holds of an engine between any two of its operations, besides \<open>P\<close>.\<close>

definition tame ::
    "(MailPath \<Rightarrow> bool) \<Rightarrow> (MailPath \<Rightarrow> bool) \<Rightarrow> ('b, 'w) SessionConfig \<Rightarrow> ('b, 'w) Engine \<Rightarrow> bool" where
  "tame okS okR cfg e \<longleftrightarrow>
     e_config e = cfg
     \<and> (case e_envelope e of
          None \<Rightarrow> True
        | Some (StdB b) \<Rightarrow> list_all okR (b_recipients b) \<and> pred_option okS (b_mailFrom b)
        | Some (CustomB _ _) \<Rightarrow> False)"

definition served ::
    "('w \<Rightarrow> bool) \<Rightarrow> (MailPath \<Rightarrow> bool) \<Rightarrow> (MailPath \<Rightarrow> bool) \<Rightarrow> ('b, 'w) SessionConfig \<Rightarrow> ('b, 'w) Engine \<Rightarrow> bool" where
  "served P okS okR cfg e \<longleftrightarrow> tame okS okR cfg e \<and> P (e_world e)"

lemma tame_fields:
  "e_config f = e_config e \<Longrightarrow> e_envelope f = e_envelope e \<Longrightarrow> tame okS okR cfg f = tame okS okR cfg e"
  by (simp add: tame_def)

lemma tame_core: "core f = core e \<Longrightarrow> tame okS okR cfg f = tame okS okR cfg e"
  by (rule tame_fields) (simp_all add: core_def)

lemma tame_ops [simp]:
  "tame okS okR cfg (e\<lparr>e_world := w\<rparr>) = tame okS okR cfg e" "tame okS okR cfg (e\<lparr>e_conn := c\<rparr>) = tame okS okR cfg e"
  "tame okS okR cfg (e\<lparr>e_stats := st\<rparr>) = tame okS okR cfg e" "tame okS okR cfg (e\<lparr>e_state := s\<rparr>) = tame okS okR cfg e"
  "tame okS okR cfg (e\<lparr>e_sm := m\<rparr>) = tame okS okR cfg e" "tame okS okR cfg (e\<lparr>e_closed := c'\<rparr>) = tame okS okR cfg e"
  "tame okS okR cfg (run_hook f e) = tame okS okR cfg e" "tame okS okR cfg (snd (engine_now rt e)) = tame okS okR cfg e"
  "tame okS okR cfg (snd (ctx_done rt e)) = tame okS okR cfg e"
  "tame okS okR cfg (set_read_deadline d e) = tame okS okR cfg e" "tame okS okR cfg (set_write_deadline d e) = tame okS okR cfg e"
  "tame okS okR cfg (add_bytes_read n e) = tame okS okR cfg e" "tame okS okR cfg (snd (writeResponse r e)) = tame okS okR cfg e"
  "tame okS okR cfg (snd (readLine rt t e)) = tame okS okR cfg e" "tame okS okR cfg (snd (validate_sender p e)) = tame okS okR cfg e"
  "tame okS okR cfg (snd (command_hook cmd e)) = tame okS okR cfg e" "tame okS okR cfg (snd (store_message env e)) = tame okS okR cfg e"
  "tame okS okR cfg (set_state st' e) = tame okS okR cfg e" "tame okS okR cfg (on_sm g e) = tame okS okR cfg e"
  "tame okS okR cfg (sm_command c'' e) = tame okS okR cfg e" "tame okS okR cfg (bump_errors e) = tame okS okR cfg e"
  by (rule tame_fields; simp)+

lemma tame_resetTransaction [simp]: "tame okS okR cfg (resetTransaction rt e) \<longleftrightarrow> e_config e = cfg"
  by (simp add: tame_def)

lemma tame_no_envelope [simp]: "tame okS okR cfg (e\<lparr>e_envelope := None\<rparr>) \<longleftrightarrow> e_config e = cfg"
  by (simp add: tame_def)

lemma e_world_ops [simp]:
  "e_world (set_read_deadline d e) = e_world e" "e_world (set_write_deadline d e) = e_world e"
  "e_world (add_bytes_read n e) = e_world e" "e_world (snd (writeResponse r e)) = e_world e"
  "e_world (set_state s e) = e_world e" "e_world (on_sm g e) = e_world e"
  "e_world (sm_command c e) = e_world e" "e_world (bump_errors e) = e_world e"
  by (simp_all add: engine_defs case_prod_beta)

text \<open>The engines MAIL can leave behind: the old one, the one after the sender policy, or the one
  with a new draft, before or after the hook.\<close>

lemma handleMAIL_shape:
  obtains (same) "snd (handleMAIL rt cmd e) = e"
  | (validated) p where "snd (handleMAIL rt cmd e) = snd (validate_sender p e)"
  | (built) p f b w1 err b' w' where "validate_sender p e = (None, f)"
      "NewBuilder rt (cf_EnvelopeFactory (e_config f)) (envelope_metadata rt f) (e_world f) = (b, w1)"
      "eb_SetMailFrom rt p (cmd_Params cmd) b w1 = ((err, b'), w')"
      "snd (handleMAIL rt cmd e) = f\<lparr>e_envelope := Some b', e_world := w'\<rparr>
       \<or> snd (handleMAIL rt cmd e) = run_hook (\<lambda>h i. OnMailFrom h p i)
           (set_state StateMailFrom (sm_command CmdMAIL (f\<lparr>e_envelope := Some b', e_world := w'\<rparr>)))"
proof (cases "ParseMailPath (rt_Unicode rt) (cmd_Argument cmd) ''FROM''")
  case (Inl err)
  with same show thesis by (simp add: handleMAIL_def split: if_splits)
next
  case (Inr p)
  obtain r f where v: "validate_sender p e = (r, f)" by fastforce
  obtain b w1 where nb: "NewBuilder rt (cf_EnvelopeFactory (e_config f)) (envelope_metadata rt f) (e_world f) = (b, w1)"
    by fastforce
  obtain err b' w' where sf: "eb_SetMailFrom rt p (cmd_Params cmd) b w1 = ((err, b'), w')" by (metis prod.exhaust)
  let ?g = "f\<lparr>e_envelope := Some b', e_world := w'\<rparr>"
  let ?h = "run_hook (\<lambda>h i. OnMailFrom h p i) (set_state StateMailFrom (sm_command CmdMAIL ?g))"
  have "Q (snd (handleMAIL rt cmd e))" if "Q e" "Q f" "r = None \<Longrightarrow> Q ?g" "r = None \<Longrightarrow> Q ?h" for Q
    using that by (simp add: handleMAIL_def Inr v nb sf Let_def split: option.split)
  from this [of "\<lambda>x. x = e \<or> x = f \<or> r = None \<and> (x = ?g \<or> x = ?h)"]
  consider "snd (handleMAIL rt cmd e) = e" | "snd (handleMAIL rt cmd e) = f"
    | "r = None" "snd (handleMAIL rt cmd e) = ?g \<or> snd (handleMAIL rt cmd e) = ?h" by blast
  then show thesis
  proof cases
    case 1
    then show thesis by (rule same)
  next
    case 2
    with v have "snd (handleMAIL rt cmd e) = snd (validate_sender p e)" by simp
    then show thesis by (rule validated)
  next
    case 3
    from v 3(1) have "validate_sender p e = (None, f)" by simp
    from this nb sf 3(2) show thesis by (rule built)
  qed
qed

lemma handleRCPT_shape:
  assumes "handleRCPT rt cmd e = Inr (resp, e')"
  obtains (same) "e' = e"
  | (asked) p m where "cf_Mailbox (e_config e) = Some m"
      "e' = e\<lparr>e_world := snd (m p (session_info e) (e_world e))\<rparr>"
  | (added) p m b where "cf_Mailbox (e_config e) = Some m" "e_envelope e = Some b"
      "rr_Status (fst (m p (session_info e) (e_world e))) = RecipientAccepted"
      "e' = snd (accept_recipient p b (e\<lparr>e_world := snd (m p (session_info e) (e_world e))\<rparr>))"
proof (cases "ParseMailPath (rt_Unicode rt) (cmd_Argument cmd) ''TO''")
  case (Inl err)
  with assms same show thesis by (simp add: handleRCPT_def)
next
  case (Inr p)
  show thesis
  proof (cases "cf_Mailbox (e_config e)")
    case None
    with assms Inr same show thesis by (auto simp: handleRCPT_def split: if_splits option.splits)
  next
    case (Some m)
    obtain result w where m: "m p (session_info e) (e_world e) = (result, w)" by fastforce
    have "e' = e \<or> e' = e\<lparr>e_world := w\<rparr>
        \<or> (\<exists>b. e_envelope e = Some b \<and> rr_Status result = RecipientAccepted
             \<and> accept_recipient p b (e\<lparr>e_world := w\<rparr>) = (resp, e'))"
      using assms by (auto simp: handleRCPT_def Inr Some m Let_def split: if_splits option.splits)
    with same asked [OF Some, of p] added [OF Some, of _ p] m show thesis by auto
  qed
qed

locale session_world =
  fixes rt :: "'w Runtime"
    and cfg :: "('b, 'w) SessionConfig"
    and P :: "'w \<Rightarrow> bool"
    and okS :: "MailPath \<Rightarrow> bool"
    and okR :: "MailPath \<Rightarrow> bool"
  assumes runtime: "runtime_keeps P rt"
    and hooks: "Hooks cfg = Some h \<Longrightarrow> hooks_keep P h"
    and provider: "cf_TLSProvider cfg = Some g \<Longrightarrow> P w \<Longrightarrow> P (snd (g w))"
    and sender: "cf_SenderPolicy cfg = Some s \<Longrightarrow> P w \<Longrightarrow> P (snd (s p i w))"
    and senders: "cf_SenderPolicy cfg = Some s \<Longrightarrow> P w \<Longrightarrow> sr_Accepted (fst (s p i w)) \<Longrightarrow> okS p"
    and any_sender: "cf_SenderPolicy cfg = None \<Longrightarrow> okS p"
    and mailbox: "cf_Mailbox cfg = Some m \<Longrightarrow> P w \<Longrightarrow> P (snd (m p i w))"
    and accepts: "cf_Mailbox cfg = Some m \<Longrightarrow> P w \<Longrightarrow> rr_Status (fst (m p i w)) = RecipientAccepted \<Longrightarrow> okR p"
    and no_factory: "cf_EnvelopeFactory cfg = None"
    and storage: "cf_Storage cfg = Some st \<Longrightarrow> P w \<Longrightarrow> good_envelope (Limits cfg) (cf_TLSPolicy cfg) okS okR env \<Longrightarrow> P (snd (st env w))"
begin

lemma rt_now: "P w \<Longrightarrow> P (snd (rt_Now rt w))"
  and rt_rand: "P w \<Longrightarrow> P (snd (rt_Rand rt n w))"
  and rt_ctx: "P w \<Longrightarrow> P (snd (rt_CtxDone rt w))"
  using runtime by (simp_all add: runtime_keeps_def)

lemma world_now: "P (e_world e) \<Longrightarrow> P (e_world (snd (engine_now rt e)))"
  by (simp add: engine_now_def case_prod_beta rt_now)

lemma world_ctx: "P (e_world e) \<Longrightarrow> P (e_world (snd (ctx_done rt e)))"
  by (simp add: ctx_done_def case_prod_beta rt_ctx)

lemma world_hooks:
  assumes "e_config e = cfg" and "P (e_world e)"
  shows "P (e_world (run_hook OnConnect e))" "P (e_world (run_hook (\<lambda>h i. OnDisconnect h i r) e))"
    "P (e_world (run_hook (\<lambda>h i. OnMailFrom h p i) e))" "P (e_world (run_hook (\<lambda>h i. OnRcptTo h p i) e))"
    "P (e_world (run_hook OnDataStart e))" "P (e_world (run_hook (\<lambda>h i. OnDataEnd h env i) e))"
    "P (e_world (run_hook (\<lambda>h i. OnTLSUpgrade h ts i) e))" "P (e_world (snd (command_hook cmd e)))"
  using assms hooks
  by (auto simp: run_hook_def command_hook_def hooks_keep_def case_prod_beta split: option.split)

lemma world_Conn_Read: "P w \<Longrightarrow> P (snd (Conn_Read rt c w))"
  by (cases c) (auto simp: Pipe_Read_def case_prod_beta Let_def rt_now split: option.split)

lemma world_fill_loop: "P w \<Longrightarrow> P (snd (fill_loop rt n b w))"
proof (induction n arbitrary: b w)
  case (Suc n)
  obtain d x c w' where rd: "Conn_Read rt (bc_conn b) w = (((d, x), c), w')" by (metis prod.exhaust)
  with world_Conn_Read [OF Suc.prems, of "bc_conn b"] have "P w'" by simp
  with Suc.IH rd show ?case by (auto simp: Let_def split: option.split)
qed simp

lemma world_ReadBytes: "P w \<Longrightarrow> P (snd (ReadBytes rt b w))"
proof -
  have "rt' = rt \<Longrightarrow> P w \<Longrightarrow> P (snd (ReadBytes rt' b w))" for rt'
  proof (induction rt' b w rule: ReadBytes.induct)
    case (1 rt' b w)
    have "P (snd (fill rt b w))" using world_fill_loop [OF "1.prems"(2)] by (simp add: fill_def)
    with 1 show ?case by (simp add: ReadBytes.simps [of rt b w] split: option.split)
  qed
  then show "P w \<Longrightarrow> P (snd (ReadBytes rt b w))" by simp
qed

lemma world_readLine:
  assumes "P (e_world e)"
  shows "P (e_world (snd (readLine rt t e)))"
proof -
  have "P (snd (ReadLine rt t (e_conn e) (e_world e)))"
    using assms by (simp add: ReadLine_def case_prod_beta rt_now world_ReadBytes)
  then show ?thesis by (simp add: readLine_def Let_def case_prod_beta split: option.split)
qed

lemma world_read_data_line:
  assumes "P (e_world e)"
  shows "P (e_world (snd (read_data_line rt t e)))"
proof -
  have "P (snd (ReadBytes rt (e_conn (snd (ctx_done rt e))) (e_world (snd (ctx_done rt e)))))"
    by (rule world_ReadBytes) (rule world_ctx [OF assms])
  with world_ctx [OF assms] show ?thesis
    by (auto simp: read_data_line_def case_prod_beta engine_now_def rt_now split: option.split)
qed

lemma world_stream_loop:
  assumes "P (e_world e)"
  shows "P (e_world (snd (snd (stream_loop rt wr t n (StdB b) e))))
    \<and> (\<exists>d. fst (snd (stream_loop rt wr t n (StdB b) e)) = StdB d)"
proof -
  have "rt' = rt \<Longrightarrow> bb = StdB b \<Longrightarrow> P (e_world e) \<Longrightarrow>
      P (e_world (snd (snd (stream_loop rt' wr t n bb e)))) \<and> (\<exists>d. fst (snd (stream_loop rt' wr t n bb e)) = StdB d)"
    for rt' bb
  proof (induction rt' wr t n bb e arbitrary: b rule: stream_loop.induct)
    case (1 rt' wr t n bb e)
    note loop = stream_loop.simps [of rt wr t n "StdB b" e]
    obtain r e1 where r: "read_data_line rt t e = (r, e1)" by fastforce
    then have e1: "P (e_world e1)" using world_read_data_line [OF "1.prems"(3), of t] by simp
    show ?case
    proof (cases r)
      case (Inl err)
      with r e1 "1.prems" show ?thesis by (simp add: loop)
    next
      case (Inr line)
      obtain k x b1 where wr: "writer_Write wr (UnstuffLine line) b = ((k, x), b1)" by (metis prod.exhaust)
      then have "eb_Write wr (UnstuffLine line) bb (e_world e1) = (((k, x), StdB b1), e_world e1)"
        using "1.prems"(2) by simp
      note IH = "1.IH" [OF r [folded "1.prems"(1), symmetric] Inr _ _ _ this [symmetric] refl refl _ "1.prems"(1) refl]
      show ?thesis
        using r Inr wr IH e1 "1.prems"(1,2) by (auto simp: loop split: option.split)
    qed
  qed
  with assms show ?thesis by simp
qed

lemma world_streamData:
  assumes "P (e_world e)"
  shows "P (e_world (snd (snd (streamData rt wr t (StdB b) e))))
    \<and> (\<exists>d. fst (snd (streamData rt wr t (StdB b) e)) = StdB d)"
proof -
  obtain now e1 where n: "engine_now rt e = (now, e1)" by fastforce
  with world_now [OF assms] have "P (e_world (set_read_deadline (Some (now + t)) e1))" by simp
  from world_stream_loop [OF this, of wr t 0 b] n show ?thesis
    by (simp add: streamData_def case_prod_beta)
qed

lemma tame_builder:
  assumes "tame okS okR cfg e" and "e_envelope e = Some x"
  obtains b where "x = StdB b" "list_all okR (b_recipients b)" "pred_option okS (b_mailFrom b)"
  using assms that by (cases x) (auto simp: tame_def)

lemma world_reset:
  assumes "served P okS okR cfg e"
  shows "P (e_world (resetTransaction rt e))"
proof (cases "e_envelope e")
  case (Some x)
  with assms obtain b where "x = StdB b" by (auto simp: served_def elim: tame_builder)
  with Some assms show ?thesis
    by (simp add: resetTransaction_def served_def Builder_Reset_def generateEnvelopeID_def case_prod_beta rt_rand)
qed (use assms in \<open>simp add: resetTransaction_def served_def\<close>)

lemma served_cfg: "served P okS okR cfg e \<Longrightarrow> e_config e = cfg"
  by (simp add: served_def tame_def)

lemma served_reset: "served P okS okR cfg e \<Longrightarrow> served P okS okR cfg (resetTransaction rt e)"
  using world_reset served_cfg by (auto simp: served_def)

lemma served_identify: "served P okS okR cfg e \<Longrightarrow> served P okS okR cfg (identify rt v h e)"
  unfolding identify_def by (rule served_reset) (simp add: served_def)

lemma new_draft:
  assumes "NewBuilder rt None md w = (b, w1)" and "eb_SetMailFrom rt p params b w1 = ((err, b'), w')" and "P w"
  shows "P w'" and "\<exists>d. b' = StdB d \<and> b_recipients d = [] \<and> b_mailFrom d = Some p"
proof -
  obtain d where d: "b = StdB d" "b_recipients d = []" "\<not> b_finalized d"
    and w1: "w1 = snd (rt_Now rt (snd (rt_Rand rt 12 w)))"
    using assms(1) by (auto simp: NewBuilder_def NewStandardEnvelopeBuilder_def generateEnvelopeID_def
        split: prod.splits)
  with assms(2) show "P w'" and "\<exists>d. b' = StdB d \<and> b_recipients d = [] \<and> b_mailFrom d = Some p"
    using rt_now [OF rt_now [OF rt_rand [OF assms(3), of 12]]]
    by (auto simp: SetMailFrom_def split: prod.splits)
qed

lemma served_handleMAIL:
  assumes "served P okS okR cfg e"
  shows "served P okS okR cfg (snd (handleMAIL rt cmd e))"
proof -
  have validated: "served P okS okR cfg (snd (validate_sender p e))" for p
    using assms sender served_cfg [OF assms]
    by (auto simp: served_def validate_sender_def case_prod_beta split: option.split)
  show ?thesis
  proof (cases rule: handleMAIL_shape [of rt cmd e])
    case (built p f b w1 err b' w')
    have f: "served P okS okR cfg f" using built(1) validated [of p] by simp
    have p: "okS p"
      using built(1) senders any_sender assms served_cfg [OF assms]
      by (auto simp: validate_sender_def served_def case_prod_beta split: option.splits if_splits)
    note draft = new_draft [OF built(2) [unfolded served_cfg [OF f] no_factory] built(3)]
    have "served P okS okR cfg (f\<lparr>e_envelope := Some b', e_world := w'\<rparr>)" (is "served P okS okR cfg ?g")
      using f draft p by (auto simp: served_def tame_def)
    moreover from this have "served P okS okR cfg (run_hook (\<lambda>h i. OnMailFrom h p i) (set_state StateMailFrom (sm_command CmdMAIL ?g)))"
      using world_hooks(3) served_cfg [of ?g] by (simp add: served_def)
    ultimately show ?thesis using built(4) by auto
  qed (use assms validated in simp_all)
qed

lemma served_handleRCPT:
  assumes "served P okS okR cfg e" and "handleRCPT rt cmd e = Inr (resp, e')"
  shows "served P okS okR cfg e'"
  using assms(2)
proof (cases rule: handleRCPT_shape)
  case (asked p m)
  with assms(1) mailbox [of m] served_cfg [OF assms(1)] show ?thesis by (simp add: served_def)
next
  case (added p m b)
  note cfg = served_cfg [OF assms(1)]
  let ?w = "snd (m p (session_info e) (e_world e))"
  have "P (e_world e)" using assms(1) by (simp add: served_def)
  then have w: "P ?w" "okR p"
    using mailbox [of m] accepts [of m _ p "session_info e"] added(1,3) cfg by simp_all
  obtain d where "b = StdB d" "list_all okR (b_recipients d)" "pred_option okS (b_mailFrom d)"
    using assms(1) added(2) by (auto simp: served_def elim: tame_builder)
  with w cfg world_hooks(4) added(4) show ?thesis
    by (auto simp: served_def accept_recipient_def AddRecipient_def tame_def)
qed (use assms(1) in simp)

lemma served_abandon: "served P okS okR cfg e \<Longrightarrow> served P okS okR cfg (snd (abandon_data resp e))"
  using served_cfg by (auto simp: served_def abandon_data_def)

lemma served_accepted: "served P okS okR cfg e \<Longrightarrow> served P okS okR cfg (snd (message_accepted env e))"
  using world_hooks(6) served_cfg by (auto simp: served_def message_accepted_def Let_def)

lemma served_finish:
  assumes "served P okS okR cfg e" and "ready b" and "good_envelope (Limits cfg) (cf_TLSPolicy cfg) okS okR (sealed b body)"
  shows "served P okS okR cfg (snd (finish_data 0 (StdB (opened b body)) e))"
proof -
  have "served P okS okR cfg (snd (store_message (sealed b body) e))"
    using assms(1,3) storage served_cfg [OF assms(1)]
    by (auto simp: served_def store_message_def case_prod_beta split: option.split sum.split)
  then show ?thesis
    unfolding finish_data_opened [OF assms(2)]
    by (auto simp: case_prod_beta served_abandon served_accepted split: option.split)
qed

lemma served_receive:
  assumes "served P okS okR cfg e" and "ready b" and "\<And>body. good_envelope (Limits cfg) (cf_TLSPolicy cfg) okS okR (sealed b body)"
  shows "served P okS okR cfg (snd (receive_data rt (StdB b) e))"
proof -
  obtain n x b2 e2 where sd: "streamData rt 0 (data_timeout (Limits (e_config e))) (StdB (opened b [])) e
      = ((n, x), b2, e2)" by (metis prod.exhaust)
  have "core e2 = core e"
    using core_streamData [of rt 0 "data_timeout (Limits (e_config e))" "StdB (opened b [])" e, unfolded sd] by simp
  moreover have "P (e_world e2)" and d: "\<exists>d. b2 = StdB d"
    using world_streamData [of e 0 "data_timeout (Limits (e_config e))" "opened b []"] sd assms(1)
    by (simp_all add: served_def)
  ultimately have e2: "served P okS okR cfg e2" using assms(1) tame_core [of e2 e] by (simp add: served_def)
  show ?thesis
  proof (cases x)
    case None
    obtain f e3 where "stream_loop rt 0 (data_timeout (Limits (e_config e))) 0 (StdB (opened b [])) f = ((n, None), b2, e3)"
      using streamData_loop [OF sd] None by metis
    from stream_loop_sound [OF this refl] obtain ls where "b2 = StdB (opened b (unstuffed ls))"
      by (auto simp: opened_def)
    with None sd served_finish [OF e2 assms(2,3)] show ?thesis by (simp add: receive_data_ready [OF assms(2)])
  next
    case (Some err)
    from d have "served P okS okR cfg (e2\<lparr>e_world := snd (eb_Close 0 b2 (e_world e2))\<rparr>)"
      using e2 by (auto simp: served_def writer_Close_def)
    with Some sd served_abandon show ?thesis by (simp add: receive_data_ready [OF assms(2)])
  qed
qed

lemma served_handleDATA:
  assumes "served P okS okR cfg e" and "engine_inv e" and "sm_state (e_sm e) = StateRcptTo"
    and "handleDATA rt cmd e = Inr (resp, e')"
  shows "served P okS okR cfg e'"
proof -
  note cfg = served_cfg [OF assms(1)]
  obtain x where x: "e_envelope e = Some x"
    using assms(2,3) by (cases "e_envelope e") (auto simp: engine_inv_def envelope_ok_def)
  with assms(1) obtain b where b: "x = StdB b" "list_all okR (b_recipients b)" "pred_option okS (b_mailFrom b)"
    by (auto simp: served_def elim: tame_builder)
  have rdy: "ready b" using engine_inv_ready [OF assms(2,3)] x b(1) by simp
  have good: "good_envelope (Limits cfg) (cf_TLSPolicy cfg) okS okR (sealed b body)" for body
    using assms(2,3) x b cfg
    by (auto simp: good_envelope_def sealed_def Build_def RecipientCount_def engine_inv_def envelope_ok_def draft_ok_def)
  have started: "served P okS okR cfg (data_started e)"
    using assms(1) cfg world_hooks(5) by (auto simp: served_def data_started_def)
  let ?w = "writeResponse ResponseStartMailInput
    (run_hook OnDataStart (set_state StateData (sm_command CmdDATA e)))"
  have w: "snd ?w = data_started e" by (simp add: data_started_def)
  show ?thesis
  proof (cases "fst ?w")
    case None
    then have "?w = (None, data_started e)" using w by (metis prod.collapse)
    with assms(4) x b(1) have "e' = snd (receive_data rt (StdB b) (data_started e))"
      by (simp add: handleDATA_def)
    with served_receive [OF started rdy good] show ?thesis by simp
  next
    case (Some err)
    then have "?w = (Some err, data_started e)" using w by (metis prod.collapse)
    with assms(4) started show ?thesis by (auto simp: handleDATA_def served_def)
  qed
qed

lemma served_handleCommand:
  assumes "served P okS okR cfg e" and "engine_inv e" and "sm_IsCommandAllowed (cmd_Verb cmd) (e_sm e)"
    and "handleCommand rt cmd e = Inr (resp, e')"
  shows "served P okS okR cfg e'"
proof -
  have hello: "served P okS okR cfg (snd (handleHELO rt cmd e))" "served P okS okR cfg (snd (handleEHLO rt cmd e))"
    using assms(1) served_identify [OF assms(1)]
    by (auto simp: handleHELO_def handleEHLO_def Let_def split: sum.split)
  have rset: "served P okS okR cfg (snd (handleRSET rt cmd e))"
    using served_reset [OF assms(1)] by (auto simp: handleRSET_def Let_def served_def)
  have others: "served P okS okR cfg (snd (handleQUIT cmd e))" "served P okS okR cfg (snd (handleSTARTTLS cmd e))"
    "served P okS okR cfg (snd (handleNOOP cmd e))" "served P okS okR cfg (snd (handleVRFY cmd e))"
    "served P okS okR cfg (snd (handleHELP cmd e))"
    using assms(1) by (auto simp: handleQUIT_def handleSTARTTLS_def handleNOOP_def handleVRFY_def handleHELP_def served_def)
  show ?thesis
    using assms hello rset others served_handleMAIL [OF assms(1), of cmd]
      served_handleRCPT [OF assms(1), of cmd resp e'] served_handleDATA [OF assms(1,2), of cmd resp e']
    by (auto simp: handleCommand_def allowed_states split: CommandVerb.splits)
qed

lemma served_send_reply: "served P okS okR cfg e \<Longrightarrow> served P okS okR cfg (snd (send_reply resp e))"
  by (auto simp: served_def send_reply_def case_prod_beta split: option.split)

lemma served_reject: "served P okS okR cfg e \<Longrightarrow> served P okS okR cfg (snd (reject_line err e))"
  by (auto simp: served_def reject_line_def Let_def split: option.split)

lemma served_command_hook: "served P okS okR cfg e \<Longrightarrow> served P okS okR cfg (snd (command_hook cmd e))"
  using world_hooks(8) served_cfg by (auto simp: served_def)

lemma served_dispatch:
  assumes "served P okS okR cfg e" and "engine_inv e" and "dispatch rt cmd e = Inr (r, e')"
  shows "served P okS okR cfg e'"
  using assms(3)
proof (cases rule: dispatch_cases)
  case (handled resp e2)
  then have "served P okS okR cfg e2"
    using served_handleCommand [OF served_command_hook [OF assms(1)], of cmd cmd resp e2] assms(2) by simp
  moreover have "e' = snd (send_reply resp e2)" using handled(4) by (metis Inr_inject snd_conv)
  ultimately show ?thesis by (simp add: served_send_reply)
qed (use served_command_hook [OF assms(1), of cmd] in \<open>auto simp: served_def\<close>)

lemma served_processOneCommand:
  assumes "served P okS okR cfg e" and "engine_inv e" and "processOneCommand rt e = Inr (r, e')"
  shows "served P okS okR cfg e'"
proof -
  have rd: "served P okS okR cfg e1" "engine_inv e1" if "readLine rt t e = (x, e1)" for t x e1
    using that assms(1,2) world_readLine [of e t] engine_inv_ops(3) [of rt t e] tame_ops(14) [of okS okR cfg rt t e]
    by (simp_all add: served_def)
  from assms(3) show ?thesis
  proof (cases rule: processOneCommand_cases)
    case (failed err e1)
    with rd show ?thesis by blast
  next
    case (rejected line e1 err)
    let ?e1 = "e1\<lparr>e_stats := (e_stats e1)\<lparr>CommandCount := i64 (CommandCount (e_stats e1) + 1)\<rparr>\<rparr>"
    have "e' = snd (reject_line err ?e1)" using rejected(3) by (metis Inr_inject snd_conv)
    with rd(1) [OF rejected(1)] served_reject [of ?e1] show ?thesis by (simp add: served_def)
  next
    case (parsed line e1 cmd)
    with rd [OF parsed(1)] show ?thesis
      using served_dispatch [OF _ _ parsed(3) [symmetric]] by (simp add: served_def)
  qed
qed

lemma served_handshake: "served P okS okR cfg e \<Longrightarrow> served P okS okR cfg (snd (tls_handshake rt c e))"
  using world_now [of e] tame_core [OF core_tls_handshake, of okS okR cfg rt c e]
  by (auto simp: served_def tls_handshake_def Let_def case_prod_beta)

lemma served_restart:
  assumes "served P okS okR cfg e"
  shows "served P okS okR cfg (tls_restart rt ts e)"
proof -
  have "served P okS okR cfg (resetTransaction rt (set_state StateGreeted (on_sm g (tls_active ts e))))" for g
    by (rule served_reset) (use assms in \<open>simp add: served_def tls_active_def\<close>)
  then show ?thesis
    using world_hooks(7) served_cfg by (auto simp: served_def tls_restart_def Let_def)
qed

lemma served_upgrade:
  assumes "served P okS okR cfg e" and "performTLSUpgrade rt e = Inr (r, e')"
  shows "served P okS okR cfg e'"
proof -
  have "cf_TLSProvider cfg = Some g \<Longrightarrow> served P okS okR cfg (e\<lparr>e_world := snd (g (e_world e))\<rparr>)" for g
    using provider [of g "e_world e"] assms(1) by (simp add: served_def)
  with assms(2) served_cfg [OF assms(1)] served_handshake served_restart show ?thesis
    by (auto simp: performTLSUpgrade_def split: option.splits prod.splits sum.splits)
      (metis snd_conv)+
qed

lemma served_leave:
  assumes "served P okS okR cfg e" and "leave rt reason err e = Return r e'"
  shows "served P okS okR cfg e'"
proof -
  let ?f = "snd (engine_now rt (e\<lparr>e_closed := True\<rparr>))"
  have "served P okS okR cfg ?f" using assms(1) world_now [of "e\<lparr>e_closed := True\<rparr>"] by (simp add: served_def)
  then have "served P okS okR cfg (run_hook (\<lambda>h i. OnDisconnect h i reason) (?f\<lparr>e_stats := st\<rparr>))" for st
    using world_hooks(2) served_cfg [of ?f] by (simp add: served_def)
  with assms show ?thesis
    by (auto simp: leave_def handleDisconnect_def case_prod_beta split: if_splits)
qed

lemma served_run_step:
  assumes "served P okS okR cfg e" and "engine_inv e"
  shows "run_step rt e = Continue e' \<Longrightarrow> served P okS okR cfg e'"
    and "run_step rt e = Return r e' \<Longrightarrow> served P okS okR cfg e'"
proof -
  obtain x e1 where c: "ctx_done rt e = (x, e1)" by fastforce
  then have e1: "served P okS okR cfg e1" "engine_inv e1"
    using assms world_ctx [of e] tame_ops(9) [of okS okR cfg rt e] engine_inv_ops(4) [of rt e]
    by (simp_all add: served_def)
  have err: "after_error rt err e2 = Continue f \<Longrightarrow> served P okS okR cfg e2 \<Longrightarrow> served P okS okR cfg f"
    "after_error rt err e2 = Return r f \<Longrightarrow> served P okS okR cfg e2 \<Longrightarrow> served P okS okR cfg f" for err e2 r f
    using served_leave by (auto simp: after_error_def leave_def case_prod_beta split: if_splits)
  note parts = served_leave [OF e1(1)] served_upgrade [OF e1(1)] served_processOneCommand [OF e1]
  show "run_step rt e = Continue e' \<Longrightarrow> served P okS okR cfg e'"
    and "run_step rt e = Return r e' \<Longrightarrow> served P okS okR cfg e'"
    using c parts served_leave
    by (auto simp: run_step_def leave_def case_prod_beta split: option.splits if_splits sum.splits prod.splits
        dest: err)
qed

lemma served_run_loop:
  assumes "served P okS okR cfg e" and "engine_inv e" and "run_loop rt e = Some (Inr (r, e'))"
  shows "served P okS okR cfg e'"
  using assms
proof (induction e rule: wf_induct_rule [OF wf_measures [of "[tls_rank, \<lambda>e. conn_size (e_conn e)]"]])
  case (1 e)
  show ?case
  proof (cases "run_step rt e")
    case (Continue f)
    from run_step_Continue [OF this] have "(f, e) \<in> measures [tls_rank, \<lambda>e. conn_size (e_conn e)]" by auto
    from "1.IH" [OF this served_run_step(1) [OF "1.prems"(1,2) Continue] inv_run_step [OF "1.prems"(2) Continue]]
      "1.prems"(3) Continue show ?thesis by (simp add: run_loop.simps [of rt e])
  next
    case (Return r f)
    with "1.prems"(3) served_run_step(2) [OF "1.prems"(1,2) Return] show ?thesis
      by (simp add: run_loop.simps [of rt e])
  qed (use "1.prems"(3) in \<open>simp add: run_loop.simps [of rt e]\<close>)
qed

lemma served_handleDisconnect:
  "served P okS okR cfg e \<Longrightarrow> handleDisconnect rt reason err e = (r, e') \<Longrightarrow> served P okS okR cfg e'"
  using served_leave [of e reason err r e'] by (simp add: leave_def)

lemma served_Run:
  assumes "served P okS okR cfg e" and "e_sm e = NewStateMachine" and "Run rt e = Some (Inr (r, e'))"
  shows "served P okS okR cfg e'"
proof -
  obtain m where conn: "Connect (e_sm e) = (None, m)" "sm_state m = StateConnected"
    by (simp add: assms(2) sm_defs)
  define e1 where "e1 = run_hook OnConnect (e\<lparr>e_sm := m\<rparr>)"
  obtain x e2 where w: "writeResponse (buildGreeting e1) e1 = (x, e2)" by fastforce
  have "served P okS okR cfg e1"
    using assms(1) world_hooks(1) [of "e\<lparr>e_sm := m\<rparr>"] served_cfg [OF assms(1)] by (simp add: e1_def served_def)
  then have e2: "served P okS okR cfg e2"
    using w tame_ops(13) [of okS okR cfg "buildGreeting e1" e1] e_world_ops(4) [of "buildGreeting e1" e1]
    by (simp add: served_def)
  have "sm_state (e_sm e2) = StateConnected"
    using w core_fields(7) [of "buildGreeting e1" e1] conn(2) by (simp add: e1_def)
  then obtain m2 where greet: "Greet (e_sm e2) = (None, m2)" "sm_state m2 = StateGreeted"
    by (simp add: sm_defs)
  let ?e3 = "set_state StateGreeted (e2\<lparr>e_sm := m2\<rparr>)"
  have e3: "served P okS okR cfg ?e3" "engine_inv ?e3"
    using e2 greet(2) session.init_inv [of ?e3] by (simp_all add: served_def greeted_def)
  from assms(3) have "(case x of
      Some err \<Rightarrow> Some (Inr (handleDisconnect rt DisconnectError (Some err) e2))
    | None \<Rightarrow> run_loop rt ?e3) = Some (Inr (r, e'))"
    unfolding Run_def conn(1) prod.case option.case Let_def e1_def [symmetric] w
    by (simp add: greet split: option.splits)
  then show ?thesis
    using served_run_loop [OF e3] served_handleDisconnect [OF e2] by (auto split: option.splits)
qed

lemma served_NewEngine: "P w \<Longrightarrow> served P okS okR cfg (NewEngineWithConn rt conn cfg opts w)"
proof -
  assume "P w"
  define e where "e = NewEngineWithConn rt conn cfg opts w"
  have "e_world (fold apply_option opts f) = e_world f" for f :: "('b, 'w) Engine"
  proof (induction opts arbitrary: f)
    case (Cons opt opts)
    show ?case using Cons.IH [of "apply_option opt f"] by (cases opt) simp_all
  qed simp
  then have "e_world e = snd (rt_Rand rt 16 (snd (rt_Now rt w)))"
    by (simp add: e_def NewEngineWithConn_def generateSessionID_def Let_def case_prod_beta)
  with \<open>P w\<close> have "P (e_world e)" by (simp add: rt_now rt_rand)
  with NewEngine_fields(1,4) [OF e_def] have "served P okS okR cfg e" by (simp add: served_def tame_def)
  then show "served P okS okR cfg (NewEngineWithConn rt conn cfg opts w)" by (simp add: e_def)
qed

text \<open>What the locale is for: whatever the client sends, a session keeps \<open>P\<close>.\<close>

lemma session_keeps:
  assumes "P w" and "Run rt (NewEngineWithConn rt conn cfg opts w) = Some (Inr (r, e'))"
  shows "P (e_world e')"
  using served_Run [OF served_NewEngine [OF assms(1)] NewEngine_fields(2) [OF refl] assms(2)]
  by (simp add: served_def)

end

end
