(* ===== verification/Go_Map.thy ===== *)
theory Go_Map
  imports Prelude "HOL-Library.AList" "HOL-Library.Multiset"
begin

text \<open>
  Go maps. A map is the list of its entries, one for each key; Go iterates over it in an
  unspecified order, so the functions that list a map take the order as an argument, a
  rearrangement of the entries.

  The locale \<open>dictionary\<close> states what the in-memory mailbox and storage rely on, and derives
  what a history of updates and deletions leaves behind.
\<close>

section \<open>Operations\<close>

type_synonym ('k, 'v) gomap = "('k \<times> 'v) list"

definition map_get :: "('k, 'v) gomap \<Rightarrow> 'k \<Rightarrow> 'v option" where
  "map_get m k = map_of m k"

definition map_put :: "'k \<Rightarrow> 'v \<Rightarrow> ('k, 'v) gomap \<Rightarrow> ('k, 'v) gomap" where
  "map_put k v m = AList.update k v m"

definition map_del :: "'k \<Rightarrow> ('k, 'v) gomap \<Rightarrow> ('k, 'v) gomap" where
  "map_del k m = AList.delete k m"

definition map_keys :: "('k, 'v) gomap \<Rightarrow> 'k list" where
  "map_keys m = map fst m"

definition map_values :: "('k, 'v) gomap \<Rightarrow> 'v list" where
  "map_values m = map snd m"

definition map_wf :: "('k, 'v) gomap \<Rightarrow> bool" where
  "map_wf m \<longleftrightarrow> distinct (map_keys m)"

text \<open>What is known of an iteration order.\<close>

definition rearrangement :: "('a list \<Rightarrow> 'a list) \<Rightarrow> bool" where
  "rearrangement order \<longleftrightarrow> (\<forall>xs. mset (order xs) = mset xs)"

section \<open>The contract of a dictionary\<close>

locale dictionary =
  fixes get :: "'m \<Rightarrow> 'k \<Rightarrow> 'v option"
    and put :: "'k \<Rightarrow> 'v \<Rightarrow> 'm \<Rightarrow> 'm"
    and del :: "'k \<Rightarrow> 'm \<Rightarrow> 'm"
    and len :: "'m \<Rightarrow> nat"
    and wf :: "'m \<Rightarrow> bool"
  assumes get_put: "wf m \<Longrightarrow> get (put k v m) = (get m)(k \<mapsto> v)"
    and get_del: "wf m \<Longrightarrow> get (del k m) = (get m)(k := None)"
    and wf_put: "wf m \<Longrightarrow> wf (put k v m)"
    and wf_del: "wf m \<Longrightarrow> wf (del k m)"
    and dom_finite: "wf m \<Longrightarrow> finite (dom (get m))"
    and len_dom: "wf m \<Longrightarrow> len m = card (dom (get m))"
begin

lemma len_put: "wf m \<Longrightarrow> len (put k v m) = (if get m k = None then Suc (len m) else len m)"
  by (auto simp: len_dom get_put wf_put dom_finite card_insert_if domIff insert_absorb)

lemma len_del: "wf m \<Longrightarrow> len (del k m) = (if get m k = None then len m else len m - 1)"
  by (auto simp: len_dom get_del wf_del dom_finite card_Diff_singleton_if domIff)

lemma fold_put:
  "wf m \<Longrightarrow> wf (fold (\<lambda>k. put (f k) (g k)) ks m)
     \<and> dom (get (fold (\<lambda>k. put (f k) (g k)) ks m)) = dom (get m) \<union> f ` set ks"
  by (induction ks arbitrary: m) (auto simp: wf_put get_put)

end

interpretation go_map: dictionary map_get map_put map_del length map_wf
proof
  fix m :: "('k, 'v) gomap" and k :: 'k and v :: 'v
  assume wf: "map_wf m"
  show "map_get (map_put k v m) = (map_get m)(k \<mapsto> v)"
    by (simp add: map_get_def map_put_def update_conv' fun_eq_iff)
  show "map_get (map_del k m) = (map_get m)(k := None)"
    by (simp add: map_get_def map_del_def delete_conv' fun_eq_iff)
  show "map_wf (map_put k v m)" "map_wf (map_del k m)"
    using wf by (simp_all add: map_wf_def map_keys_def map_put_def map_del_def distinct_update distinct_delete)
  have dom: "dom (map_get m) = set (map fst m)"
    by (simp add: map_get_def [abs_def] dom_map_of_conv_image_fst)
  then show "finite (dom (map_get m))" by simp
  from wf show "length m = card (dom (map_get m))"
    unfolding dom by (metis map_wf_def map_keys_def distinct_card length_map)
qed

section \<open>Listing\<close>

lemma rearrangement_set: "rearrangement order \<Longrightarrow> set (order xs) = set xs"
  unfolding rearrangement_def by (metis set_mset_mset)

lemma rearrangement_length: "rearrangement order \<Longrightarrow> length (order xs) = length xs"
  unfolding rearrangement_def by (metis size_mset)

lemma rearrangement_distinct: "rearrangement order \<Longrightarrow> distinct (order xs) = distinct xs"
  unfolding rearrangement_def by (metis mset_eq_imp_distinct_iff)

lemma set_map_keys: "set (map_keys m) = dom (map_get m)"
  by (simp add: map_keys_def map_get_def [abs_def] dom_map_of_conv_image_fst)

lemma set_map_values: "map_wf m \<Longrightarrow> set (map_values m) = ran (map_get m)"
  by (simp add: map_values_def map_wf_def map_keys_def map_get_def [abs_def] ran_distinct)

lemma map_get_empty [simp]: "map_get [] k = None"
  by (simp add: map_get_def)

lemma map_wf_empty [simp]: "map_wf []"
  by (simp add: map_wf_def map_keys_def)

end
