(* ===== verification/Mailbox.thy ===== *)
theory Mailbox
  imports Session Go_Map
begin

text \<open>
  Recipient and sender policies: the statuses, results and trivial policies of \<open>mailbox.go\<close>, and
  the in-memory mailbox registry and domain policy of \<open>mem/mailbox.go\<close>.

  The registry is checked against an abstract one, a set of addresses, a set of domains and a
  flag: whatever sequence of calls built it, it accepts the recipients the abstract registry
  accepts. The maps of the code are Go maps; their locks are not modelled, each method is one
  atomic step.
\<close>

section \<open>Statuses and trivial policies\<close>

text \<open>\<open>MailboxStatusOther\<close> stands for the integers that are none of the five constants.\<close>

datatype MailboxStatus =
    MailboxStatusOK | MailboxStatusNotFound | MailboxStatusDisabled | MailboxStatusOverQuota
  | MailboxStatusTemporarilyUnavailable | MailboxStatusOther int

fun MailboxStatus_String :: "MailboxStatus \<Rightarrow> string" where
  "MailboxStatus_String MailboxStatusOK = ''OK''"
| "MailboxStatus_String MailboxStatusNotFound = ''NotFound''"
| "MailboxStatus_String MailboxStatusDisabled = ''Disabled''"
| "MailboxStatus_String MailboxStatusOverQuota = ''OverQuota''"
| "MailboxStatus_String MailboxStatusTemporarilyUnavailable = ''TemporarilyUnavailable''"
| "MailboxStatus_String (MailboxStatusOther _) = ''Unknown''"

fun ToReplyCode :: "MailboxStatus \<Rightarrow> ReplyCode" where
  "ToReplyCode MailboxStatusOK = Reply250OK"
| "ToReplyCode MailboxStatusNotFound = Reply550MailboxUnavailable"
| "ToReplyCode MailboxStatusDisabled = Reply550MailboxUnavailable"
| "ToReplyCode MailboxStatusOverQuota = Reply552ExceededStorage"
| "ToReplyCode MailboxStatusTemporarilyUnavailable = Reply450MailboxUnavailable"
| "ToReplyCode (MailboxStatusOther _) = Reply451LocalError"

definition SenderResultAccepted :: SenderResult where
  "SenderResultAccepted = \<lparr>sr_Accepted = True, sr_Response = ResponseOK, sr_RequireAuth = False\<rparr>"

definition SenderResultRejected :: "Response \<Rightarrow> SenderResult" where
  "SenderResultRejected response =
     \<lparr>sr_Accepted = False, sr_Response = response, sr_RequireAuth = False\<rparr>"

definition recipient_accepted :: "MailPath \<Rightarrow> RecipientResult" where
  "recipient_accepted recipient =
     \<lparr>rr_Path = recipient, rr_Status = RecipientAccepted, rr_Response = ResponseOK\<rparr>"

definition recipient_rejected :: "MailPath \<Rightarrow> Response \<Rightarrow> RecipientResult" where
  "recipient_rejected recipient response =
     \<lparr>rr_Path = recipient, rr_Status = RecipientRejected, rr_Response = response\<rparr>"

definition AcceptAllMailbox :: "'w Mailbox" where
  "AcceptAllMailbox recipient session w = (recipient_accepted recipient, w)"

definition RejectAllMailbox :: "'w Mailbox" where
  "RejectAllMailbox recipient session w = (recipient_rejected recipient ResponseMailboxUnavailable, w)"

definition AcceptAllSenderPolicy :: "'w SenderPolicy" where
  "AcceptAllSenderPolicy sender session w = (SenderResultAccepted, w)"

section \<open>The in-memory registry\<close>

record MailboxEntry =
  me_Address :: string
  me_Enabled :: bool
  me_Aliases :: "string list"

record Registry =
  mb_addresses :: "(string, MailboxEntry) gomap"
  mb_domains :: "(string, bool) gomap"
  mb_catchAll :: bool

definition NewMailbox :: Registry where
  "NewMailbox = \<lparr>mb_addresses = [], mb_domains = [], mb_catchAll = False\<rparr>"

definition AddDomain :: "unicode \<Rightarrow> string \<Rightarrow> Registry \<Rightarrow> Registry" where
  "AddDomain U domain m = m\<lparr>mb_domains := map_put (ToLower U domain) True (mb_domains m)\<rparr>"

definition NewMailboxWithDomains :: "unicode \<Rightarrow> string list \<Rightarrow> Registry" where
  "NewMailboxWithDomains U domains = fold (AddDomain U) domains NewMailbox"

definition AddAddress :: "unicode \<Rightarrow> string \<Rightarrow> Registry \<Rightarrow> Registry" where
  "AddAddress U address m =
     (let addr = ToLower U address;
          m1 = m\<lparr>mb_addresses := map_put addr
                  \<lparr>me_Address = addr, me_Enabled = True, me_Aliases = []\<rparr> (mb_addresses m)\<rparr>
      in case last_index_of CHR ''@'' addr of
           None \<Rightarrow> m1
         | Some idx \<Rightarrow> m1\<lparr>mb_domains := map_put (drop (idx + 1) addr) True (mb_domains m1)\<rparr>)"

definition AddAddresses :: "unicode \<Rightarrow> string list \<Rightarrow> Registry \<Rightarrow> Registry" where
  "AddAddresses U addresses m = fold (AddAddress U) addresses m"

definition RemoveAddress :: "unicode \<Rightarrow> string \<Rightarrow> Registry \<Rightarrow> Registry" where
  "RemoveAddress U address m = m\<lparr>mb_addresses := map_del (ToLower U address) (mb_addresses m)\<rparr>"

definition RemoveDomain :: "unicode \<Rightarrow> string \<Rightarrow> Registry \<Rightarrow> Registry" where
  "RemoveDomain U domain m = m\<lparr>mb_domains := map_del (ToLower U domain) (mb_domains m)\<rparr>"

definition SetCatchAll :: "bool \<Rightarrow> Registry \<Rightarrow> Registry" where
  "SetCatchAll enabled m = m\<lparr>mb_catchAll := enabled\<rparr>"

text \<open>\<open>m.domains[domain]\<close>: the zero value for a key that is missing.\<close>

definition domain_flag :: "Registry \<Rightarrow> string \<Rightarrow> bool" where
  "domain_flag m domain = (case map_get (mb_domains m) domain of None \<Rightarrow> False | Some v \<Rightarrow> v)"

definition ValidateRecipient :: "unicode \<Rightarrow> Registry \<Rightarrow> MailPath \<Rightarrow> RecipientResult" where
  "ValidateRecipient U m recipient =
     (let addr = ToLower U (mp_Address recipient) in
      case map_get (mb_addresses m) addr of
        Some entry \<Rightarrow>
          if \<not> me_Enabled entry then
            recipient_rejected recipient (NewResponse Reply550MailboxUnavailable ''Mailbox disabled'')
          else recipient_accepted recipient
      | None \<Rightarrow>
          if mb_catchAll m
            \<and> (case last_index_of CHR ''@'' addr of
                 None \<Rightarrow> False | Some idx \<Rightarrow> domain_flag m (drop (idx + 1) addr))
          then recipient_accepted recipient
          else if (case last_index_of CHR ''@'' addr of
                     None \<Rightarrow> False | Some idx \<Rightarrow> \<not> domain_flag m (drop (idx + 1) addr))
          then recipient_rejected recipient
                 (NewResponse Reply550MailboxUnavailable ''Domain not handled by this server'')
          else recipient_rejected recipient (NewResponse Reply550MailboxUnavailable ''No such user''))"

definition Exists :: "unicode \<Rightarrow> Registry \<Rightarrow> string \<Rightarrow> bool" where
  "Exists U m address \<longleftrightarrow> map_get (mb_addresses m) (ToLower U address) \<noteq> None"

definition CanReceive :: "unicode \<Rightarrow> Registry \<Rightarrow> string \<Rightarrow> bool \<times> MailboxStatus" where
  "CanReceive U m address =
     (case map_get (mb_addresses m) (ToLower U address) of
        None \<Rightarrow> (False, MailboxStatusNotFound)
      | Some entry \<Rightarrow>
          if \<not> me_Enabled entry then (False, MailboxStatusDisabled) else (True, MailboxStatusOK))"

definition ListAddresses :: "(string list \<Rightarrow> string list) \<Rightarrow> Registry \<Rightarrow> string list" where
  "ListAddresses order m = order (map_keys (mb_addresses m))"

definition ListDomains :: "(string list \<Rightarrow> string list) \<Rightarrow> Registry \<Rightarrow> string list" where
  "ListDomains order m = order (map_keys (mb_domains m))"

section \<open>The domain policy\<close>

text \<open>A \<open>DomainPolicy\<close> is a pointer to a mailbox. Its methods read the registry as it is when
  they are called, which is their argument here.\<close>

definition NewDomainPolicy :: "Registry \<Rightarrow> Registry" where
  "NewDomainPolicy mailbox = mailbox"

definition IsLocalDomain :: "unicode \<Rightarrow> Registry \<Rightarrow> string \<Rightarrow> bool" where
  "IsLocalDomain U m domain \<longleftrightarrow> map_get (mb_domains m) (ToLower U domain) \<noteq> None"

definition AcceptedDomains :: "(string list \<Rightarrow> string list) \<Rightarrow> Registry \<Rightarrow> string list" where
  "AcceptedDomains order m = ListDomains order m"

definition RelayAllowed :: "unicode \<Rightarrow> Registry \<Rightarrow> string \<Rightarrow> SessionInfo \<Rightarrow> bool" where
  "RelayAllowed U m domain session \<longleftrightarrow> si_Authenticated session \<or> IsLocalDomain U m domain"

section \<open>Refinement of an abstract registry\<close>

record registry_spec =
  s_addresses :: "string set"
  s_domains :: "string set"
  s_catchAll :: bool

text \<open>The calls that change a registry, what they do to the code's registry and what they mean.\<close>

datatype registry_call =
    Call_AddAddress string | Call_RemoveAddress string | Call_AddDomain string
  | Call_RemoveDomain string | Call_SetCatchAll bool

fun run_call :: "unicode \<Rightarrow> registry_call \<Rightarrow> Registry \<Rightarrow> Registry" where
  "run_call U (Call_AddAddress a) = AddAddress U a"
| "run_call U (Call_RemoveAddress a) = RemoveAddress U a"
| "run_call U (Call_AddDomain d) = AddDomain U d"
| "run_call U (Call_RemoveDomain d) = RemoveDomain U d"
| "run_call U (Call_SetCatchAll b) = SetCatchAll b"

definition domain_of :: "string \<Rightarrow> string set" where
  "domain_of addr = {d. \<exists>l. addr = l @ CHR ''@'' # d \<and> CHR ''@'' \<notin> set d}"

fun spec_call :: "unicode \<Rightarrow> registry_call \<Rightarrow> registry_spec \<Rightarrow> registry_spec" where
  "spec_call U (Call_AddAddress a) s =
     s\<lparr>s_addresses := insert (ToLower U a) (s_addresses s),
       s_domains := domain_of (ToLower U a) \<union> s_domains s\<rparr>"
| "spec_call U (Call_RemoveAddress a) s = s\<lparr>s_addresses := s_addresses s - {ToLower U a}\<rparr>"
| "spec_call U (Call_AddDomain d) s = s\<lparr>s_domains := insert (ToLower U d) (s_domains s)\<rparr>"
| "spec_call U (Call_RemoveDomain d) s = s\<lparr>s_domains := s_domains s - {ToLower U d}\<rparr>"
| "spec_call U (Call_SetCatchAll b) s = s\<lparr>s_catchAll := b\<rparr>"

definition empty_registry :: registry_spec where
  "empty_registry = \<lparr>s_addresses = {}, s_domains = {}, s_catchAll = False\<rparr>"

definition spec_accepts :: "unicode \<Rightarrow> registry_spec \<Rightarrow> string \<Rightarrow> bool" where
  "spec_accepts U s a \<longleftrightarrow>
     ToLower U a \<in> s_addresses s
     \<or> s_catchAll s \<and> domain_of (ToLower U a) \<inter> s_domains s \<noteq> {}"

definition abs_registry :: "Registry \<Rightarrow> registry_spec" where
  "abs_registry m = \<lparr>s_addresses = dom (map_get (mb_addresses m)),
     s_domains = dom (map_get (mb_domains m)), s_catchAll = mb_catchAll m\<rparr>"

text \<open>No method disables an entry or stores \<open>false\<close> for a domain.\<close>

definition registry_wf :: "Registry \<Rightarrow> bool" where
  "registry_wf m \<longleftrightarrow> map_wf (mb_addresses m) \<and> map_wf (mb_domains m)
     \<and> (\<forall>k entry. map_get (mb_addresses m) k = Some entry \<longrightarrow> me_Enabled entry \<and> me_Address entry = k)
     \<and> (\<forall>k v. map_get (mb_domains m) k = Some v \<longrightarrow> v)"

lemma domain_of_last:
  "domain_of addr = (case last_index_of CHR ''@'' addr of None \<Rightarrow> {} | Some i \<Rightarrow> {drop (i + 1) addr})"
proof (cases "last_index_of CHR ''@'' addr")
  case None
  then show ?thesis by (auto simp: domain_of_def)
next
  case (Some i)
  have "d = drop (i + 1) addr" if "addr = l @ CHR ''@'' # d" "CHR ''@'' \<notin> set d" for l d
    using that Some by auto
  moreover have "drop (i + 1) addr \<in> domain_of addr"
    using last_index_of_split [OF Some] last_index_of_Some(3) [OF Some] by (auto simp: domain_of_def)
  ultimately show ?thesis using Some by (auto simp: domain_of_def)
qed

lemma registry_wf_NewMailbox [simp]: "registry_wf NewMailbox"
  by (simp add: registry_wf_def NewMailbox_def)

lemma abs_NewMailbox [simp]: "abs_registry NewMailbox = empty_registry"
  by (simp add: abs_registry_def NewMailbox_def empty_registry_def fun_eq_iff)

lemma registry_wf_AddAddress: "registry_wf m \<Longrightarrow> registry_wf (AddAddress U a m)"
  by (auto simp: registry_wf_def AddAddress_def Let_def go_map.get_put go_map.wf_put split: option.splits if_splits)

lemma abs_AddAddress:
  "registry_wf m \<Longrightarrow> abs_registry (AddAddress U a m) = spec_call U (Call_AddAddress a) (abs_registry m)"
  by (auto simp: registry_wf_def abs_registry_def AddAddress_def Let_def domain_of_last go_map.get_put
      split: option.splits)

lemma run_call_refines:
  assumes "registry_wf m"
  shows "registry_wf (run_call U c m) \<and> abs_registry (run_call U c m) = spec_call U c (abs_registry m)"
proof (cases c)
  case (Call_AddAddress a)
  with assms show ?thesis by (simp add: registry_wf_AddAddress abs_AddAddress)
qed (use assms in \<open>auto simp: registry_wf_def abs_registry_def RemoveAddress_def AddDomain_def RemoveDomain_def
    SetCatchAll_def go_map.get_put go_map.get_del go_map.wf_put go_map.wf_del split: if_splits\<close>)

lemma run_calls_refine:
  "registry_wf m \<Longrightarrow> registry_wf (fold (run_call U) cs m)
     \<and> abs_registry (fold (run_call U) cs m) = fold (spec_call U) cs (abs_registry m)"
  by (induction cs arbitrary: m) (simp_all add: run_call_refines)

lemma domain_flag_iff:
  "registry_wf m \<Longrightarrow> domain_flag m d \<longleftrightarrow> d \<in> s_domains (abs_registry m)"
  by (auto simp: registry_wf_def domain_flag_def abs_registry_def split: option.split)

lemma domain_check:
  assumes "registry_wf m"
  shows "(case last_index_of CHR ''@'' a of None \<Rightarrow> False | Some i \<Rightarrow> domain_flag m (drop (i + 1) a))
      \<longleftrightarrow> domain_of a \<inter> s_domains (abs_registry m) \<noteq> {}"
    and "(case last_index_of CHR ''@'' a of None \<Rightarrow> False | Some i \<Rightarrow> \<not> domain_flag m (drop (i + 1) a))
      \<longleftrightarrow> \<not> domain_of a \<subseteq> s_domains (abs_registry m)"
  by (auto simp: domain_of_last domain_flag_iff [OF assms] split: option.split)

lemma address_lookup:
  assumes "registry_wf m"
  shows "map_get (mb_addresses m) a = None \<longleftrightarrow> a \<notin> s_addresses (abs_registry m)"
    and "map_get (mb_addresses m) a = Some entry \<Longrightarrow> me_Enabled entry"
  using assms by (auto simp: registry_wf_def abs_registry_def)

lemma ValidateRecipient_spec:
  assumes "registry_wf m"
  shows "ValidateRecipient U m p =
    (let s = abs_registry m; a = mp_Address p in
     if spec_accepts U s a then recipient_accepted p
     else recipient_rejected p (NewResponse Reply550MailboxUnavailable
       (if domain_of (ToLower U a) \<subseteq> s_domains s then ''No such user''
        else ''Domain not handled by this server'')))"
  unfolding ValidateRecipient_def Let_def domain_check [OF assms] spec_accepts_def
  using address_lookup [OF assms, of "ToLower U (mp_Address p)"]
  by (auto simp: abs_registry_def split: option.split)

text \<open>
  (C14) The in-memory mailbox is the registry it stands for. Whatever sequence of additions,
  removals and catch-all changes built it, it accepts exactly the addresses registered and not
  removed since, compared in lower case, and, in catch-all mode, every address whose domain is
  registered; it rejects everything else with 550, naming the domain when that is what is
  missing. A registered mailbox can always receive: the status \<open>Disabled\<close> is never reported.
\<close>

theorem mailbox_refines_registry:
  "let m = fold (run_call U) calls NewMailbox; s = fold (spec_call U) calls empty_registry in
     abs_registry m = s
     \<and> ValidateRecipient U m p =
         (if spec_accepts U s (mp_Address p) then recipient_accepted p
          else recipient_rejected p (NewResponse Reply550MailboxUnavailable
            (if domain_of (ToLower U (mp_Address p)) \<subseteq> s_domains s then ''No such user''
             else ''Domain not handled by this server'')))
     \<and> CanReceive U m a =
         (if ToLower U a \<in> s_addresses s then (True, MailboxStatusOK) else (False, MailboxStatusNotFound))
     \<and> (Exists U m a \<longleftrightarrow> ToLower U a \<in> s_addresses s)
     \<and> (IsLocalDomain U m d \<longleftrightarrow> ToLower U d \<in> s_domains s)"
proof -
  let ?m = "fold (run_call U) calls NewMailbox"
  have wf: "registry_wf ?m" and abs: "abs_registry ?m = fold (spec_call U) calls empty_registry"
    using run_calls_refine [of NewMailbox U calls] by simp_all
  note lookup = address_lookup [OF wf, of "ToLower U a", unfolded abs]
  have "CanReceive U ?m a = (if ToLower U a \<in> s_addresses (abs_registry ?m) then (True, MailboxStatusOK)
      else (False, MailboxStatusNotFound))" and "Exists U ?m a \<longleftrightarrow> ToLower U a \<in> s_addresses (abs_registry ?m)"
    using lookup abs by (auto simp: CanReceive_def Exists_def split: option.split)
  moreover have "IsLocalDomain U ?m d \<longleftrightarrow> ToLower U d \<in> s_domains (abs_registry ?m)"
    by (auto simp: IsLocalDomain_def abs_registry_def)
  ultimately show ?thesis
    using ValidateRecipient_spec [OF wf, of U p] by (simp add: Let_def abs)
qed

end
