(* ===== verification/Storage.thy ===== *)
theory Storage
  imports Session Go_Map
begin

text \<open>
  Message storage: \<open>NullStorage\<close> and the records of \<open>storage.go\<close>, and the in-memory storage of
  \<open>mem/storage.go\<close>. Counters are \<open>uint64\<close>, 64-bit words that wrap around. The reader given to
  \<open>StoreStream\<close> is the list of the results its \<open>Read\<close> calls return, as for a transport. The
  locks are not modelled, each method is one atomic step; the clock is the runtime's.

  The locale \<open>message_store\<close> states what a user of a storage relies on; the in-memory storage
  meets it, and a history of calls leaves exactly the messages one expects.
\<close>

section \<open>Records\<close>

record StoredMessage =
  msg_Envelope :: Envelope
  msg_StoredAt :: int
  msg_Data :: bytes

record StorageMetrics =
  MessagesStored :: "64 word"
  BytesStored :: "64 word"
  StoreErrors :: "64 word"
  StoreLatencyNs :: int

record MemStorage =
  st_messages :: "(string, StoredMessage) gomap"
  st_metrics :: StorageMetrics

abbreviation StorageOpStore :: string where
  "StorageOpStore \<equiv> ''Store''"

abbreviation StorageOpStoreStream :: string where
  "StorageOpStoreStream \<equiv> ''StoreStream''"

section \<open>Library functions\<close>

text \<open>\<open>io.ReadAll\<close>: the bytes up to the end of file or the first other error.\<close>

fun ReadAll :: "(bytes \<times> goerror option) list \<Rightarrow> bytes \<times> goerror option" where
  "ReadAll [] = ([], None)"
| "ReadAll ((d, None) # evs) = (case ReadAll evs of (ds, e) \<Rightarrow> (d @ ds, e))"
| "ReadAll ((d, Some e) # evs) = (d, if e = EOF then None else Some e)"

text \<open>\<open>Time.Sub\<close> saturates at the range of a duration; \<open>Time.Unix\<close> counts whole seconds.\<close>

definition time_Sub :: "int \<Rightarrow> int \<Rightarrow> int" where
  "time_Sub t u = max (- (2 ^ 63)) (min (2 ^ 63 - 1) (t - u))"

definition time_Unix :: "int \<Rightarrow> int" where
  "time_Unix t = t div Second"

section \<open>The null storage\<close>

definition Null_Store :: "Envelope \<Rightarrow> goerror + StorageReceipt" where
  "Null_Store env = Inr \<lparr>rc_MessageID = ''null'', rc_EnvelopeID = env_id env, rc_StoredAt = 0,
     rc_BytesWritten = DataSize env, rc_Backend = None\<rparr>"

definition Null_StoreStream :: "Envelope \<Rightarrow> (bytes \<times> goerror option) list \<Rightarrow> goerror + StorageReceipt" where
  "Null_StoreStream env reader = Inr \<lparr>rc_MessageID = ''null'', rc_EnvelopeID = env_id env, rc_StoredAt = 0,
     rc_BytesWritten = int (length (fst (ReadAll reader))),
     rc_Backend = None\<rparr>"

section \<open>The in-memory storage\<close>

definition NewStorage :: MemStorage where
  "NewStorage = \<lparr>st_messages = [],
     st_metrics = \<lparr>MessagesStored = 0, BytesStored = 0, StoreErrors = 0, StoreLatencyNs = 0\<rparr>\<rparr>"

text \<open>The critical section of \<open>Store\<close> and \<open>StoreStream\<close>: four readings of the clock, one entry
  in the map, the metrics, the receipt.\<close>

definition put_message ::
    "'w Runtime \<Rightarrow> Envelope \<Rightarrow> bytes \<Rightarrow> MemStorage \<Rightarrow> 'w \<Rightarrow> (StorageReceipt \<times> MemStorage) \<times> 'w" where
  "put_message rt env data s w =
     (let (start, w1) = rt_Now rt w;
          (now, w2) = rt_Now rt w1;
          msg = \<lparr>msg_Envelope = env, msg_StoredAt = now, msg_Data = data\<rparr>;
          (finish, w3) = rt_Now rt w2;
          (stamp, w4) = rt_Now rt w3;
          mx = st_metrics s
      in ((\<lparr>rc_MessageID = env_id env, rc_EnvelopeID = env_id env, rc_StoredAt = time_Unix stamp,
            rc_BytesWritten = int (length data), rc_Backend = None\<rparr>,
           \<lparr>st_messages = map_put (env_id env) msg (st_messages s),
            st_metrics = mx\<lparr>MessagesStored := MessagesStored mx + 1,
                            BytesStored := BytesStored mx + of_nat (length data),
                            StoreLatencyNs := time_Sub finish start\<rparr>\<rparr>), w4))"

definition Store ::
    "'w Runtime \<Rightarrow> Envelope \<Rightarrow> MemStorage \<Rightarrow> 'w \<Rightarrow> ((goerror + StorageReceipt) \<times> MemStorage) \<times> 'w" where
  "Store rt env s w =
     (case put_message rt env (Data env) s w of ((receipt, s'), w') \<Rightarrow> ((Inr receipt, s'), w'))"

definition StoreStream ::
    "'w Runtime \<Rightarrow> Envelope \<Rightarrow> (bytes \<times> goerror option) list \<Rightarrow> MemStorage \<Rightarrow> 'w
      \<Rightarrow> ((goerror + StorageReceipt) \<times> MemStorage) \<times> 'w" where
  "StoreStream rt env reader s w =
     (case ReadAll reader of
        (buf, Some err) \<Rightarrow>
          ((Inl (StorageError StorageOpStoreStream (env_id env) (Some err) False ''failed to read message data''),
            s\<lparr>st_metrics := (st_metrics s)\<lparr>StoreErrors := StoreErrors (st_metrics s) + 1\<rparr>\<rparr>), w)
      | (buf, None) \<Rightarrow>
          (case put_message rt env buf s w of ((receipt, s'), w') \<Rightarrow> ((Inr receipt, s'), w')))"

definition Get :: "MemStorage \<Rightarrow> string \<Rightarrow> StoredMessage option" where
  "Get s i = map_get (st_messages s) i"

definition ListMessages :: "(StoredMessage list \<Rightarrow> StoredMessage list) \<Rightarrow> MemStorage \<Rightarrow> StoredMessage list" where
  "ListMessages order s = order (map_values (st_messages s))"

definition Count :: "MemStorage \<Rightarrow> nat" where
  "Count s = length (st_messages s)"

definition Delete :: "string \<Rightarrow> MemStorage \<Rightarrow> bool \<times> MemStorage" where
  "Delete i s =
     (case map_get (st_messages s) i of
        Some _ \<Rightarrow> (True, s\<lparr>st_messages := map_del i (st_messages s)\<rparr>)
      | None \<Rightarrow> (False, s))"

definition Clear :: "MemStorage \<Rightarrow> MemStorage" where
  "Clear s = s\<lparr>st_messages := []\<rparr>"

definition Metrics :: "MemStorage \<Rightarrow> StorageMetrics" where
  "Metrics s = st_metrics s"

definition Healthy :: "MemStorage \<Rightarrow> goerror option" where
  "Healthy s = None"

section \<open>The contract of a message store\<close>

definition other_change ::
    "('s \<Rightarrow> Envelope \<Rightarrow> bytes \<Rightarrow> 's \<Rightarrow> bool) \<Rightarrow> ('s \<Rightarrow> string \<Rightarrow> 's \<Rightarrow> bool) \<Rightarrow> string \<Rightarrow> 's \<Rightarrow> 's \<Rightarrow> bool" where
  "other_change stores removes i s t \<longleftrightarrow>
     (\<exists>env body. stores s env body t \<and> env_id env \<noteq> i) \<or> (\<exists>j. removes s j t \<and> j \<noteq> i)"

text \<open>\<open>stores s env body s'\<close>: a store of \<open>env\<close> with the content \<open>body\<close> succeeded. The laws say what
  can be looked up afterwards, under which name and with which content.\<close>

locale message_store =
  fixes lookup :: "'s \<Rightarrow> string \<Rightarrow> (Envelope \<times> bytes) option"
    and stores :: "'s \<Rightarrow> Envelope \<Rightarrow> bytes \<Rightarrow> 's \<Rightarrow> bool"
    and removes :: "'s \<Rightarrow> string \<Rightarrow> 's \<Rightarrow> bool"
    and wf :: "'s \<Rightarrow> bool"
  assumes stored: "wf s \<Longrightarrow> stores s env body s' \<Longrightarrow> lookup s' = (lookup s)(env_id env \<mapsto> (env, body)) \<and> wf s'"
    and removed: "wf s \<Longrightarrow> removes s i s' \<Longrightarrow> lookup s' = (lookup s)(i := None) \<and> wf s'"
begin

text \<open>A message stays until its name is stored again or removed.\<close>

lemma other_change_lookup:
  "(other_change stores removes i)\<^sup>*\<^sup>* s t \<Longrightarrow> wf s \<Longrightarrow> lookup t i = lookup s i \<and> wf t"
proof (induction rule: rtranclp_induct)
  case (step t u)
  then have t: "wf t" "lookup t i = lookup s i" by simp_all
  from step.hyps(2) consider (store) env body where "stores t env body u" "env_id env \<noteq> i"
    | (remove) j where "removes t j u" "j \<noteq> i" by (auto simp: other_change_def)
  then show ?case
  proof cases
    case store
    with stored [OF t(1) store(1)] t(2) show ?thesis by simp
  next
    case remove
    with removed [OF t(1) remove(1)] t(2) show ?thesis by simp
  qed
qed simp

lemma durable:
  assumes "wf s" and "stores s env body s'" and "(other_change stores removes (env_id env))\<^sup>*\<^sup>* s' t"
  shows "lookup t (env_id env) = Some (env, body)"
  using stored [OF assms(1,2)] other_change_lookup [OF assms(3)] by simp

end

section \<open>The in-memory storage is one\<close>

definition mem_lookup :: "MemStorage \<Rightarrow> string \<Rightarrow> (Envelope \<times> bytes) option" where
  "mem_lookup s i = map_option (\<lambda>m. (msg_Envelope m, msg_Data m)) (Get s i)"

definition mem_stores :: "'w Runtime \<Rightarrow> MemStorage \<Rightarrow> Envelope \<Rightarrow> bytes \<Rightarrow> MemStorage \<Rightarrow> bool" where
  "mem_stores rt s env body s' \<longleftrightarrow>
     (\<exists>w receipt w'. Store rt env s w = ((Inr receipt, s'), w') \<and> body = Data env)
     \<or> (\<exists>reader w receipt w'. StoreStream rt env reader s w = ((Inr receipt, s'), w')
          \<and> body = fst (ReadAll reader))"

definition mem_removes :: "MemStorage \<Rightarrow> string \<Rightarrow> MemStorage \<Rightarrow> bool" where
  "mem_removes s i s' \<longleftrightarrow> (\<exists>b. Delete i s = (b, s'))"

definition storage_wf :: "MemStorage \<Rightarrow> bool" where
  "storage_wf s \<longleftrightarrow> map_wf (st_messages s)"

lemma put_message_result:
  assumes "storage_wf s" and "put_message rt env data s w = ((receipt, s'), w')"
  shows "storage_wf s'" and "mem_lookup s' = (mem_lookup s)(env_id env \<mapsto> (env, data))"
    and "Count s' = (if mem_lookup s (env_id env) = None then Suc (Count s) else Count s)"
    and "MessagesStored (st_metrics s') = MessagesStored (st_metrics s) + 1"
    and "BytesStored (st_metrics s') = BytesStored (st_metrics s) + of_nat (length data)"
    and "StoreErrors (st_metrics s') = StoreErrors (st_metrics s)"
  using assms
  by (auto simp: put_message_def Let_def storage_wf_def go_map.wf_put mem_lookup_def Get_def Count_def
      go_map.get_put go_map.len_put fun_eq_iff split: prod.splits)

lemma Delete_result:
  assumes "storage_wf s" and "Delete i s = (b, s')"
  shows "storage_wf s'" and "mem_lookup s' = (mem_lookup s)(i := None)"
    and "b \<longleftrightarrow> mem_lookup s i \<noteq> None" and "st_metrics s' = st_metrics s"
  using assms
  by (auto simp: Delete_def storage_wf_def go_map.wf_del mem_lookup_def Get_def go_map.get_del fun_eq_iff
      split: option.splits)

lemma Count_lookup: "storage_wf s \<Longrightarrow> Count s = card (dom (mem_lookup s))"
  by (auto simp: storage_wf_def Count_def go_map.len_dom mem_lookup_def Get_def dom_def intro: arg_cong [where f = card])

lemma Store_put:
  "Store rt env s w = ((Inr receipt, s'), w') \<Longrightarrow> put_message rt env (Data env) s w = ((receipt, s'), w')"
  by (auto simp: Store_def split: prod.splits)

lemma StoreStream_put:
  "StoreStream rt env reader s w = ((Inr receipt, s'), w') \<Longrightarrow>
     put_message rt env (fst (ReadAll reader)) s w = ((receipt, s'), w')"
  by (auto simp: StoreStream_def split: prod.splits option.splits)

interpretation mem_store: message_store mem_lookup "mem_stores rt" mem_removes storage_wf for rt
proof
  fix s env body s'
  assume "storage_wf s" and "mem_stores rt s env body s'"
  then show "mem_lookup s' = (mem_lookup s)(env_id env \<mapsto> (env, body)) \<and> storage_wf s'"
    by (auto simp: mem_stores_def dest!: Store_put StoreStream_put dest: put_message_result)
next
  fix s i s'
  assume "storage_wf s" and "mem_removes s i s'"
  then show "mem_lookup s' = (mem_lookup s)(i := None) \<and> storage_wf s'"
    by (auto simp: mem_removes_def dest: Delete_result)
qed

section \<open>Histories\<close>

datatype storage_call =
    Call_Store Envelope | Call_StoreStream Envelope "(bytes \<times> goerror option) list"
  | Call_Delete string | Call_Clear

fun run_storage :: "'w Runtime \<Rightarrow> storage_call \<Rightarrow> MemStorage \<times> 'w \<Rightarrow> MemStorage \<times> 'w" where
  "run_storage rt (Call_Store env) (s, w) = (case Store rt env s w of ((_, s'), w') \<Rightarrow> (s', w'))"
| "run_storage rt (Call_StoreStream env r) (s, w) = (case StoreStream rt env r s w of ((_, s'), w') \<Rightarrow> (s', w'))"
| "run_storage rt (Call_Delete i) (s, w) = (snd (Delete i s), w)"
| "run_storage rt Call_Clear (s, w) = (Clear s, w)"

record ledger =
  l_messages :: "string \<rightharpoonup> Envelope \<times> bytes"
  l_stored :: nat
  l_bytes :: nat
  l_errors :: nat

definition ledger_add :: "Envelope \<Rightarrow> bytes \<Rightarrow> ledger \<Rightarrow> ledger" where
  "ledger_add env body l =
     l\<lparr>l_messages := (l_messages l)(env_id env \<mapsto> (env, body)), l_stored := l_stored l + 1,
       l_bytes := l_bytes l + length body\<rparr>"

fun ledger_call :: "storage_call \<Rightarrow> ledger \<Rightarrow> ledger" where
  "ledger_call (Call_Store env) l = ledger_add env (env_data env) l"
| "ledger_call (Call_StoreStream env r) l =
     (case ReadAll r of
        (buf, None) \<Rightarrow> ledger_add env buf l
      | (_, Some _) \<Rightarrow> l\<lparr>l_errors := l_errors l + 1\<rparr>)"
| "ledger_call (Call_Delete i) l = l\<lparr>l_messages := (l_messages l)(i := None)\<rparr>"
| "ledger_call Call_Clear l = l\<lparr>l_messages := Map.empty\<rparr>"

definition empty_ledger :: ledger where
  "empty_ledger = \<lparr>l_messages = Map.empty, l_stored = 0, l_bytes = 0, l_errors = 0\<rparr>"

definition represents :: "MemStorage \<Rightarrow> ledger \<Rightarrow> bool" where
  "represents s l \<longleftrightarrow> storage_wf s \<and> mem_lookup s = l_messages l
     \<and> MessagesStored (st_metrics s) = of_nat (l_stored l)
     \<and> BytesStored (st_metrics s) = of_nat (l_bytes l)
     \<and> StoreErrors (st_metrics s) = of_nat (l_errors l)"

lemma represents_put:
  assumes "represents s l" and "put_message rt env data s w = ((receipt, s'), w')"
  shows "represents s' (ledger_add env data l)"
proof -
  have "storage_wf s" using assms(1) by (simp add: represents_def)
  from put_message_result [OF this assms(2)] assms(1) show ?thesis
    by (simp add: represents_def ledger_add_def)
qed

lemma run_storage_represents:
  assumes "represents s l"
  shows "represents (fst (run_storage rt c (s, w))) (ledger_call c l)"
proof (cases c)
  case (Call_Store env)
  with assms represents_put [of s l rt env "env_data env" w] show ?thesis
    by (simp add: Store_def Data_def split: prod.split)
next
  case (Call_StoreStream env r)
  show ?thesis
  proof (cases "ReadAll r")
    case (Pair buf e)
    with assms Call_StoreStream represents_put [of s l rt env buf w] show ?thesis
      by (auto simp: StoreStream_def represents_def storage_wf_def mem_lookup_def Get_def fun_eq_iff
          split: prod.split option.split)
  qed
next
  case (Call_Delete i)
  obtain b s' where "Delete i s = (b, s')" by fastforce
  with assms Call_Delete Delete_result [of s i b s'] show ?thesis by (simp add: represents_def)
next
  case Call_Clear
  with assms show ?thesis by (simp add: represents_def Clear_def storage_wf_def mem_lookup_def Get_def fun_eq_iff)
qed

lemma run_storages_represent:
  "represents s l \<Longrightarrow> represents (fst (fold (run_storage rt) cs (s, w))) (fold ledger_call cs l)"
proof (induction cs arbitrary: s l w)
  case (Cons c cs)
  obtain s1 w1 where run: "run_storage rt c (s, w) = (s1, w1)" by fastforce
  with run_storage_represents [OF Cons.prems, of rt c w] have "represents s1 (ledger_call c l)" by simp
  from Cons.IH [OF this, of w1] run show ?case by simp
qed simp

text \<open>
  (C15) The in-memory storage holds what a ledger of its calls says. After any history of \<open>Store\<close>,
  \<open>StoreStream\<close>, \<open>Delete\<close> and \<open>Clear\<close>, every envelope identifier gives the envelope and the
  content stored last under it, unless it was deleted or everything cleared since; the number
  of messages is the number of such identifiers; and the counters are the numbers of successful
  stores, of stored bytes and of failed reads, modulo \<open>2 ^ 64\<close>, whatever was deleted.
\<close>

theorem storage_refines_ledger:
  "let s = fst (fold (run_storage rt) calls (NewStorage, w)); l = fold ledger_call calls empty_ledger in
     (\<forall>i. map_option (\<lambda>m. (msg_Envelope m, msg_Data m)) (Get s i) = l_messages l i)
     \<and> Count s = card (dom (l_messages l))
     \<and> MessagesStored (Metrics s) = of_nat (l_stored l) \<and> BytesStored (Metrics s) = of_nat (l_bytes l)
     \<and> StoreErrors (Metrics s) = of_nat (l_errors l)"
proof -
  have "represents NewStorage empty_ledger"
    by (simp add: represents_def NewStorage_def empty_ledger_def storage_wf_def mem_lookup_def Get_def fun_eq_iff)
  from run_storages_represent [OF this, of rt calls w]
  show ?thesis
    using Count_lookup by (simp add: Let_def represents_def Metrics_def mem_lookup_def [symmetric])
qed

text \<open>
  A stored message stays: what \<open>Store\<close> or \<open>StoreStream\<close> has acknowledged can be looked up
  under its envelope identifier, with its envelope and its content, after any further stores
  under other identifiers and deletions of other identifiers.
\<close>

theorem stored_message_stays:
  assumes "storage_wf s" and "mem_stores rt s env body s'"
    and "(other_change (mem_stores rt) mem_removes (env_id env))\<^sup>*\<^sup>* s' t"
  shows "\<exists>m. Get t (env_id env) = Some m \<and> msg_Envelope m = env \<and> msg_Data m = body"
  using mem_store.durable [OF assms] by (auto simp: mem_lookup_def)

definition sample_message :: Envelope where
  "sample_message = (Build sample_builder)\<lparr>env_id := ''m1'', env_data := ''text''\<rparr>"

theorem stored_message_stays_witness:
  "\<exists>m. Get (snd (Delete ''m2'' (snd (fst (Store rt_const sample_message NewStorage ()))))) ''m1'' = Some m
     \<and> msg_Data m = ''text''"
proof -
  let ?s = "snd (fst (Store rt_const sample_message NewStorage ()))"
  have "\<exists>r. Store rt_const sample_message NewStorage () = ((Inr r, ?s), ())"
    by (simp add: Store_def case_prod_beta)
  moreover have "Data sample_message = ''text''" by (simp add: Data_def sample_message_def)
  ultimately have "mem_stores rt_const NewStorage sample_message ''text'' ?s"
    unfolding mem_stores_def by metis
  moreover have "other_change (mem_stores rt_const) mem_removes (env_id sample_message) ?s (snd (Delete ''m2'' ?s))"
    unfolding other_change_def mem_removes_def
    by (intro disjI2 exI [of _ "''m2''"]) (auto simp: sample_message_def intro: prod.collapse [symmetric])
  moreover have "storage_wf NewStorage" by (simp add: storage_wf_def NewStorage_def)
  ultimately show ?thesis
    using stored_message_stays [of NewStorage rt_const sample_message "''text''" ?s "snd (Delete ''m2'' ?s)"]
    by (auto simp: sample_message_def)
qed

end
