(* ===== verification/Mem_World.thy ===== *)
theory Mem_World
  imports Engine_World Mailbox Storage
begin

text \<open>
  The in-memory mailbox and storage as the services of a session. The world of such a session
  holds the storage and the mailbox; the other services of the runtime work on the rest of the
  world. The invariant \<open>sound_store\<close> says what the storage may hold: it is what the contract
  \<open>session_world\<close> asks the storage to keep, and what the theorems about whole servers read off in
  the end.
\<close>

section \<open>The services\<close>

record 'v MemWorld =
  mw_Storage :: MemStorage
  mw_Mailbox :: Registry
  mw_env :: 'v

definition lift_rt :: "'v Runtime \<Rightarrow> 'v MemWorld Runtime" where
  "lift_rt rt =
     \<lparr>rt_Unicode = rt_Unicode rt,
      rt_Now = (\<lambda>w. case rt_Now rt (mw_env w) of (t, v) \<Rightarrow> (t, w\<lparr>mw_env := v\<rparr>)),
      rt_Rand = (\<lambda>n w. case rt_Rand rt n (mw_env w) of (b, v) \<Rightarrow> (b, w\<lparr>mw_env := v\<rparr>)),
      rt_CtxDone = (\<lambda>w. case rt_CtxDone rt (mw_env w) of (x, v) \<Rightarrow> (x, w\<lparr>mw_env := v\<rparr>)),
      rt_CipherSuiteName = rt_CipherSuiteName rt, rt_Handshake = rt_Handshake rt\<rparr>"

definition mem_mailbox :: "'v Runtime \<Rightarrow> 'v MemWorld Mailbox" where
  "mem_mailbox rt p i w = (ValidateRecipient (rt_Unicode rt) (mw_Mailbox w) p, w)"

definition mem_storage :: "'v Runtime \<Rightarrow> 'v MemWorld Storage" where
  "mem_storage rt env w =
     (case Store (lift_rt rt) env (mw_Storage w) w of ((r, s), w') \<Rightarrow> (r, w'\<lparr>mw_Storage := s\<rparr>))"

section \<open>What the storage may hold\<close>

definition registered :: "'v Runtime \<Rightarrow> Registry \<Rightarrow> MailPath \<Rightarrow> bool" where
  "registered rt m p \<longleftrightarrow> rr_Status (ValidateRecipient (rt_Unicode rt) m p) = RecipientAccepted"

text \<open>The mailbox is \<open>m\<close>, and every stored message came from a good envelope under its own name.\<close>

definition sound_store ::
    "SessionLimits \<Rightarrow> TLSPolicy \<Rightarrow> (MailPath \<Rightarrow> bool) \<Rightarrow> (MailPath \<Rightarrow> bool) \<Rightarrow> Registry \<Rightarrow> 'v MemWorld \<Rightarrow> bool" where
  "sound_store limits policy okS okR m w \<longleftrightarrow>
     mw_Mailbox w = m \<and> storage_wf (mw_Storage w)
     \<and> (\<forall>i env body. mem_lookup (mw_Storage w) i = Some (env, body) \<longrightarrow>
          good_envelope limits policy okS okR env \<and> body = env_data env \<and> env_id env = i)"

lemma sound_store_env [simp]:
  "sound_store limits policy okS okR m (w\<lparr>mw_env := v\<rparr>) = sound_store limits policy okS okR m w"
  by (simp add: sound_store_def)

lemma sound_store_empty: "mw_Storage w = NewStorage \<Longrightarrow> sound_store limits policy okS okR (mw_Mailbox w) w"
  by (simp add: sound_store_def NewStorage_def storage_wf_def mem_lookup_def Get_def)

lemma sound_store_Get:
  assumes "sound_store limits policy okS okR m w" and "Get (mw_Storage w) i = Some msg"
  shows "good_envelope limits policy okS okR (msg_Envelope msg)"
    and "msg_Data msg = env_data (msg_Envelope msg)" and "env_id (msg_Envelope msg) = i"
proof -
  have "mem_lookup (mw_Storage w) i = Some (msg_Envelope msg, msg_Data msg)"
    using assms(2) by (simp add: mem_lookup_def)
  with assms(1) show "good_envelope limits policy okS okR (msg_Envelope msg)"
    and "msg_Data msg = env_data (msg_Envelope msg)" and "env_id (msg_Envelope msg) = i"
    unfolding sound_store_def by blast+
qed

lemma lift_rt_keeps: "runtime_keeps (sound_store limits policy okS okR m) (lift_rt rt)"
  by (simp add: runtime_keeps_def lift_rt_def case_prod_beta)

text \<open>Storing touches the storage; its clock touches only the rest of the world.\<close>

lemma put_message_mailbox:
  "put_message (lift_rt rt) env d s w = ((r, s'), w') \<Longrightarrow> mw_Mailbox w' = mw_Mailbox w"
  by (auto simp: put_message_def Let_def case_prod_beta lift_rt_def)

lemma sound_store_storage:
  assumes "sound_store limits policy okS okR m w" and "good_envelope limits policy okS okR env"
  shows "sound_store limits policy okS okR m (snd (mem_storage rt env w))"
proof -
  obtain r s' w' where put: "put_message (lift_rt rt) env (Data env) (mw_Storage w) w = ((r, s'), w')"
    by (metis prod.exhaust)
  have wf: "storage_wf (mw_Storage w)" using assms(1) by (simp add: sound_store_def)
  have "snd (mem_storage rt env w) = w'\<lparr>mw_Storage := s'\<rparr>"
    by (simp add: mem_storage_def Store_def put)
  with put_message_result [OF wf put] put_message_mailbox [OF put] assms show ?thesis
    by (auto simp: sound_store_def Data_def)
qed

lemma mem_mailbox_registered:
  "sound_store limits policy okS okR m w \<Longrightarrow> rr_Status (fst (mem_mailbox rt p i w)) = RecipientAccepted \<Longrightarrow> registered rt m p"
  by (simp add: sound_store_def mem_mailbox_def registered_def)

lemma mem_mailbox_world [simp]: "snd (mem_mailbox rt p i w) = w"
  by (simp add: mem_mailbox_def)

end
