(* ===== verification/Errors.thy ===== *)
theory Errors
  imports Protocol "HOL-Library.Sublist"
begin

text \<open>
  The texts of errors: what the \<open>Error\<close> methods of the package return, and the messages of the
  sentinels of the package and of the standard library it passes on. What \<open>errors.Is\<close> finds in an
  error is always named in its text, so a log line that prints an error says what went wrong.
\<close>

section \<open>Texts\<close>

text \<open>The \<open>Error\<close> methods; a cause comes as the text of its own.\<close>

definition TLSError_Error :: "string \<Rightarrow> string option \<Rightarrow> string" where
  "TLSError_Error message cause = (case cause of Some t \<Rightarrow> message @ '': '' @ t | None \<Rightarrow> message)"

definition StorageError_Error :: "string \<Rightarrow> string option \<Rightarrow> string" where
  "StorageError_Error message cause = (case cause of Some t \<Rightarrow> message @ '': '' @ t | None \<Rightarrow> message)"

definition StateTransitionError_Error :: "State \<Rightarrow> State \<Rightarrow> string \<Rightarrow> string" where
  "StateTransitionError_Error current attempted message =
     (if message \<noteq> [] then message
      else ''invalid state transition from '' @ State_String current @ '' to '' @ State_String attempted)"

definition ParseError_Error :: "string \<Rightarrow> string \<Rightarrow> string" where
  "ParseError_Error err ctx = (if ctx \<noteq> [] then err @ '': '' @ ctx else err)"

text \<open>The sentinels, by the file that declares them.\<close>

definition limit_errors :: "(goerror \<times> string) list" where
  "limit_errors =
     [(ErrMessageTooLarge, ''message exceeds maximum size''),
      (ErrTooManyRecipients, ''too many recipients''),
      (ErrCommandTooLong, ''command line too long''),
      (ErrLineTooLong, ''line too long''),
      (ErrTooManyErrors, ''too many errors''),
      (ErrTooManyTransactions, ''too many transactions''),
      (ErrTimeout, ''timeout''),
      (ErrConnectionClosed, ''connection closed'')]"

definition parser_errors :: "(goerror \<times> string) list" where
  "parser_errors =
     [(ErrEmptyCommand, ''empty command''),
      (ErrInvalidCommand, ''invalid command''),
      (ErrMissingArgument, ''missing required argument''),
      (ErrUnexpectedArgument, ''unexpected argument''),
      (ErrInvalidPath, ''invalid mail path''),
      (ErrInvalidAddress, ''invalid email address''),
      (ErrMissingColon, ''missing colon after FROM or TO''),
      (ErrInvalidSyntax, ''syntax error'')]"

definition builder_errors :: "(goerror \<times> string) list" where
  "builder_errors =
     [(ErrEnvelopeFinalized, ''envelope already finalized''),
      (ErrNoMailFrom, ''no MAIL FROM set''),
      (ErrNoRecipients, ''no recipients''),
      (ErrNoData, ''no message data''),
      (ErrDataWriterOpen, ''data writer still open'')]"

definition conn_errors :: "(goerror \<times> string) list" where
  "conn_errors = [(ErrDeadlineExceeded, ''deadline exceeded'')]"

text \<open>Those of the standard library.\<close>

definition library_errors :: "(goerror \<times> string) list" where
  "library_errors =
     [(EOF, ''EOF''),
      (ErrUnexpectedEOF, ''unexpected EOF''),
      (ErrClosedPipe, ''io: read/write on closed pipe''),
      (ErrNoProgress, ''multiple Read calls return no data or error''),
      (CtxDeadlineExceeded, ''context deadline exceeded''),
      (CtxCanceled, ''context canceled'')]"

definition sentinels :: "(goerror \<times> string) list" where
  "sentinels = limit_errors @ parser_errors @ builder_errors @ conn_errors @ library_errors"

fun Error :: "goerror \<Rightarrow> string" where
  "Error (ParseError e position ctx input) = ParseError_Error (Error e) ctx"
| "Error (StateTransitionError current attempted cmd message) =
     StateTransitionError_Error current attempted message"
| "Error (TLSError phase cause message) = TLSError_Error message (map_option Error cause)"
| "Error (StorageError operation i cause retryable message) = StorageError_Error message (map_option Error cause)"
| "Error (NetError timeout message) = message"
| "Error (ErrNew message) = message"
| "Error (ErrWrap before e) = before @ Error e"
| "Error e = (case map_of sentinels e of Some text \<Rightarrow> text | None \<Rightarrow> [])"

lemmas sentinel_defs = sentinels_def limit_errors_def parser_errors_def builder_errors_def conn_errors_def
  library_errors_def

text \<open>No two sentinels share a text, and every one has one: a log tells them apart.\<close>

lemma sentinel_texts:
  assumes "(e, t) \<in> set sentinels" and "(e', t') \<in> set sentinels"
  shows "Error e = t" and "Error e = Error e' \<longleftrightarrow> e = e'"
proof -
  have *: "list_all (\<lambda>(e, t). Error e = t) sentinels" by code_simp
  then have said: "(e, t) \<in> set sentinels \<Longrightarrow> Error e = t" for e t by (auto simp: list_all_iff)
  then show "Error e = t" using assms(1) .
  have "distinct (map fst sentinels)" "distinct (map snd sentinels)" by code_simp+
  then have "t = t' \<longleftrightarrow> e = e'"
    using assms by (metis (no_types, lifting) distinct_map fst_conv inj_on_def snd_conv)
  with said assms show "Error e = Error e' \<longleftrightarrow> e = e'" by metis
qed

section \<open>Causes\<close>

lemma cause_in_text: "sublist t (TLSError_Error message (Some t))" "sublist t (StorageError_Error message (Some t))"
  using sublist_append_leftI [of t "message @ '': ''"] by (simp_all add: TLSError_Error_def StorageError_Error_def)

lemma Unwrap_in_text: "Unwrap e = Some c \<Longrightarrow> sublist (Error c) (Error e)"
  by (cases e) (auto simp: ParseError_Error_def cause_in_text)

text \<open>
  (C34) The text of an error names everything \<open>errors.Is\<close> finds in it: wrapping with a context, a
  message or a prefix, however often, only adds to the text of the cause.
\<close>

theorem error_names_its_causes:
  assumes "errors_Is e cause"
  shows "\<exists>before after. Error e = before @ Error cause @ after"
proof -
  have "sublist (Error cause) (Error e)"
    using assms
  proof (induction e cause rule: errors_Is.induct)
    case (1 e t)
    show ?case
    proof (cases "e = t")
      case False
      with 1(2) obtain c where c: "Unwrap e = Some c" "errors_Is c t"
        by (auto simp: errors_Is.simps [of e t] split: option.splits)
      with 1(1) Unwrap_in_text [OF c(1)] show ?thesis by (blast intro: sublist_order.order.trans)
    qed simp
  qed
  then show ?thesis by (auto simp: sublist_def)
qed

theorem error_names_its_causes_witness:
  "\<exists>before after. Error (ErrWrap ''TLS handshake failed: '' (TLSError ''Handshake'' (Some EOF) ''TLS handshake failed''))
     = before @ ''EOF'' @ after"
  using error_names_its_causes [of "ErrWrap ''TLS handshake failed: '' (TLSError ''Handshake'' (Some EOF) ''TLS handshake failed'')" EOF]
  by (simp add: errors_Is.simps sentinel_defs)

end
