(* ===== verification/Examples.thy ===== *)
theory Examples
  imports Mem_World Errors
begin

text \<open>
  The example servers under \<open>examples/\<close>: their policies, hooks and configurations, and what a
  connection does after its session. They are clients of the whole library, and instances of the
  contract \<open>session_world\<close>; \<open>Server.thy\<close> runs them. \<open>log.Printf\<close> appends a line to the log.
\<close>

section \<open>The world of a server\<close>

text \<open>The environment of a server: its log and its TLS provider, which a signal may reload at any
  time. A signal that arrives is one of the things the runtime may do to the environment.\<close>

record 'v ServerEnv =
  sv_log :: "string list"
  sv_tls :: ReloadableTLSProvider
  sv_env :: 'v

text \<open>A runtime that leaves the log and the provider alone.\<close>

definition env_rt :: "'v Runtime \<Rightarrow> 'v ServerEnv Runtime" where
  "env_rt rt =
     \<lparr>rt_Unicode = rt_Unicode rt,
      rt_Now = (\<lambda>s. case rt_Now rt (sv_env s) of (t, v) \<Rightarrow> (t, s\<lparr>sv_env := v\<rparr>)),
      rt_Rand = (\<lambda>n s. case rt_Rand rt n (sv_env s) of (b, v) \<Rightarrow> (b, s\<lparr>sv_env := v\<rparr>)),
      rt_CtxDone = (\<lambda>s. case rt_CtxDone rt (sv_env s) of (x, v) \<Rightarrow> (x, s\<lparr>sv_env := v\<rparr>)),
      rt_CipherSuiteName = rt_CipherSuiteName rt, rt_Handshake = rt_Handshake rt\<rparr>"

type_synonym 'v ServerWorld = "'v ServerEnv MemWorld"

definition log_Printf :: "string \<Rightarrow> 'v ServerWorld \<Rightarrow> 'v ServerWorld" where
  "log_Printf line w = w\<lparr>mw_env := (mw_env w)\<lparr>sv_log := sv_log (mw_env w) @ [line]\<rparr>\<rparr>"

text \<open>\<open>"[%s] ..."\<close> with the first eight characters of the session identifier, which has 32.\<close>

definition session_line :: "SessionInfo \<Rightarrow> string \<Rightarrow> string" where
  "session_line session line = ''['' @ take 8 (si_ID session) @ ''] '' @ line"

definition log_session :: "SessionInfo \<Rightarrow> string \<Rightarrow> 'v ServerWorld \<Rightarrow> 'v ServerWorld" where
  "log_session session line = log_Printf (session_line session line)"

section \<open>Policies of its own\<close>

record AliasedMailbox =
  al_addresses :: "(string, bool) gomap"
  al_aliases :: "(string, string) gomap"
  al_domains :: "(string, bool) gomap"

definition flag :: "(string, bool) gomap \<Rightarrow> string \<Rightarrow> bool" where
  "flag m k = (case map_get m k of None \<Rightarrow> False | Some b \<Rightarrow> b)"

definition Aliased_ValidateRecipient :: "unicode \<Rightarrow> AliasedMailbox \<Rightarrow> 'v ServerWorld Mailbox" where
  "Aliased_ValidateRecipient U m recipient session w =
     (let addr = ToLower U (mp_Address recipient) in
      if flag (al_addresses m) addr then (recipient_accepted recipient, w)
      else
       (case map_get (al_aliases m) addr of
          Some target \<Rightarrow>
            (recipient_accepted recipient, log_Printf (''Alias '' @ addr @ '' -> '' @ target) w)
        | None \<Rightarrow>
            if (case last_index_of CHR ''@'' addr of
                  None \<Rightarrow> False | Some idx \<Rightarrow> \<not> flag (al_domains m) (drop (idx + 1) addr))
            then (recipient_rejected recipient (NewResponse Reply550MailboxUnavailable ''Domain not handled''), w)
            else (recipient_rejected recipient (NewResponse Reply550MailboxUnavailable ''No such user''), w)))"

text \<open>The loop over the blocked domains of \<open>RestrictedSenderPolicy\<close>: the first that matches.\<close>

fun find_blocked :: "string \<Rightarrow> string list \<Rightarrow> string option" where
  "find_blocked addr [] = None"
| "find_blocked addr (blocked # ds) =
     (if HasSuffix addr (''@'' @ blocked) then Some blocked else find_blocked addr ds)"

definition Restricted_ValidateSender :: "unicode \<Rightarrow> string list \<Rightarrow> 'w SenderPolicy" where
  "Restricted_ValidateSender U blockedDomains sender session w =
     (if mp_IsNull sender then (SenderResultAccepted, w)
      else
       (case find_blocked (ToLower U (mp_Address sender)) blockedDomains of
          Some blocked \<Rightarrow>
            (SenderResultRejected (NewResponse Reply550MailboxUnavailable
               (''Sender domain '' @ blocked @ '' is blocked'')), w)
        | None \<Rightarrow> (SenderResultAccepted, w)))"

section \<open>Hooks\<close>

definition LoggingHooks :: "'v ServerWorld SessionHooks" where
  "LoggingHooks =
     \<lparr>OnConnect = (\<lambda>s. log_session s (''Connection from '' @ si_ClientIP s)),
      OnDisconnect = (\<lambda>s reason. log_session s (''Disconnected: '' @ DisconnectReason_String reason)),
      OnCommand = (\<lambda>cmd s w.
        (None, log_session s (''Command: '' @ CommandVerb_String (cmd_Verb cmd) @ '' '' @ cmd_Argument cmd) w)),
      OnMailFrom = (\<lambda>sender s. log_session s (''MAIL FROM: '' @ mp_Address sender)),
      OnRcptTo = (\<lambda>recipient s. log_session s (''RCPT TO: '' @ mp_Address recipient)),
      OnDataStart = (\<lambda>s. log_session s ''DATA started''),
      OnDataEnd = (\<lambda>env s. log_session s (''DATA completed: '' @ env_id env @ '' ('' @ itoa (DataSize env)
        @ '' bytes, '' @ itoa (RecipientCount env) @ '' recipients)'')),
      OnTLSUpgrade = (\<lambda>ts s. log_session s (''TLS: '' @ VersionString ts)),
      OnError = (\<lambda>err s. log_session s (''Error: '' @ Error err))\<rparr>"

definition tls_status :: "bool \<Rightarrow> string" where
  "tls_status active = (if active then ''TLS'' else ''plain'')"

definition TLSLoggingHooks :: "(TLSCipherSuiteID \<Rightarrow> string) \<Rightarrow> 'v ServerWorld SessionHooks" where
  "TLSLoggingHooks cipher_name =
     NullSessionHooks
       \<lparr>OnConnect := (\<lambda>s. log_session s (''Connection from '' @ si_ClientIP s)),
        OnTLSUpgrade := (\<lambda>ts s. log_session s
          (''TLS upgraded: '' @ VersionString ts @ '', cipher: '' @ CipherSuiteString cipher_name ts)),
        OnDisconnect := (\<lambda>s reason. log_session s
          (''Disconnected ('' @ tls_status (si_TLSActive s) @ ''): '' @ DisconnectReason_String reason)),
        OnDataEnd := (\<lambda>env s. log_session s
          (''Message received over '' @ tls_status (md_TLSActive (env_metadata env)) @ '': '' @ env_id env
           @ '' ('' @ itoa (DataSize env) @ '' bytes)''))\<rparr>"

section \<open>Configurations\<close>

definition custom_mailbox :: AliasedMailbox where
  "custom_mailbox =
     \<lparr>al_addresses = [(''admin@example.com'', True), (''support@example.com'', True), (''user@example.com'', True)],
      al_aliases = [(''postmaster@example.com'', ''admin@example.com''),
        (''webmaster@example.com'', ''admin@example.com''), (''help@example.com'', ''support@example.com'')],
      al_domains = [(''example.com'', True)]\<rparr>"

definition custom_limits :: SessionLimits where
  "custom_limits =
     \<lparr>MaxMessageSize = 10 * 1024 * 1024, MaxRecipients = 50, MaxCommandLength = 512, MaxLineLength = 998,
      CommandTimeout = 2 * Minute, DataTimeout = 5 * Minute, IdleTimeout = 2 * Minute, MaxErrors = 5,
      MaxTransactions = 20, MaxAuthAttempts = 0\<rparr>"

definition blocked_domains :: "string list" where
  "blocked_domains = [''spam.example'', ''blocked.org'']"

definition custom_config ::
    "'v ServerEnv Runtime \<Rightarrow> (unit, 'v ServerWorld) SessionConfig" where
  "custom_config rt =
     \<lparr>ServerHostname = ''mail.example.com'', Limits = custom_limits, cf_TLSPolicy = TLSDisabled,
      cf_TLSProvider = None, cf_Mailbox = Some (Aliased_ValidateRecipient (rt_Unicode rt) custom_mailbox),
      cf_SenderPolicy = Some (Restricted_ValidateSender (rt_Unicode rt) blocked_domains),
      cf_Storage = Some (mem_storage rt), cf_EnvelopeFactory = None,
      Extensions = \<lparr>x_STARTTLS = False, x_SIZE = True, x_EightBitMIME = True, x_PIPELINING = True,
        x_ENHANCEDSTATUSCODES = True, x_SMTPUTF8 = False, x_AUTH = False, x_VRFY = False,
        x_EXPN = False, x_HELP = True\<rparr>,
      Hooks = Some LoggingHooks\<rparr>"

definition minimal_mailbox :: "unicode \<Rightarrow> Registry" where
  "minimal_mailbox U = SetCatchAll True (NewMailboxWithDomains U [''example.com''])"

definition minimal_config :: "'v ServerEnv Runtime \<Rightarrow> (unit, 'v ServerWorld) SessionConfig" where
  "minimal_config rt =
     \<lparr>ServerHostname = ''mail.example.com'', Limits = DefaultSessionLimits, cf_TLSPolicy = TLSDisabled,
      cf_TLSProvider = None, cf_Mailbox = Some (mem_mailbox rt), cf_SenderPolicy = None,
      cf_Storage = Some (mem_storage rt), cf_EnvelopeFactory = None, Extensions = DefaultExtensions, Hooks = None\<rparr>"

text \<open>A constructed reloadable provider always has a configuration; a provider without one, which
  no program can obtain, is an error here.\<close>

definition server_tls :: "'v ServerWorld TLSProvider" where
  "server_tls w =
     ((case Reloadable_GetConfig (sv_tls (mw_env w)) of
         Some c \<Rightarrow> Inr c | None \<Rightarrow> Inl (ErrNew ''no configuration'')), w)"

definition tls_mailbox :: "unicode \<Rightarrow> Registry" where
  "tls_mailbox U = SetCatchAll True (NewMailboxWithDomains U [''localhost'', ''example.com''])"

definition tls_config :: "'v ServerEnv Runtime \<Rightarrow> (unit, 'v ServerWorld) SessionConfig" where
  "tls_config rt =
     \<lparr>ServerHostname = ''mail.localhost'', Limits = DefaultSessionLimits, cf_TLSPolicy = TLSOptional,
      cf_TLSProvider = Some server_tls, cf_Mailbox = Some (mem_mailbox rt), cf_SenderPolicy = None,
      cf_Storage = Some (mem_storage rt), cf_EnvelopeFactory = None,
      Extensions = \<lparr>x_STARTTLS = True, x_SIZE = True, x_EightBitMIME = True, x_PIPELINING = True,
        x_ENHANCEDSTATUSCODES = True, x_SMTPUTF8 = False, x_AUTH = False, x_VRFY = False,
        x_EXPN = False, x_HELP = True\<rparr>,
      Hooks = Some (TLSLoggingHooks (rt_CipherSuiteName rt))\<rparr>"

definition plain_config :: "'v ServerEnv Runtime \<Rightarrow> (unit, 'v ServerWorld) SessionConfig" where
  "plain_config rt =
     \<lparr>ServerHostname = ''mail.localhost'', Limits = DefaultSessionLimits, cf_TLSPolicy = TLSDisabled,
      cf_TLSProvider = None, cf_Mailbox = Some (mem_mailbox rt), cf_SenderPolicy = None,
      cf_Storage = Some (mem_storage rt), cf_EnvelopeFactory = None, Extensions = DefaultExtensions, Hooks = None\<rparr>"

text \<open>A SIGHUP: the provider is reloaded, and the outcome logged.\<close>

definition on_sighup ::
    "key_loader \<Rightarrow> 'v ServerEnv \<Rightarrow> 'v ServerEnv" where
  "on_sighup load s =
     (case Reload load (sv_tls s) of
        (err, p) \<Rightarrow>
          s\<lparr>sv_tls := p, sv_log := sv_log s @ [''Reloading TLS certificates...'',
             (case err of
                Some x \<Rightarrow> ''Failed to reload certificates: '' @ Error x
              | None \<Rightarrow> ''Certificates reloaded successfully'')]\<rparr>)"

section \<open>Connections\<close>

definition session_error :: "goerror \<Rightarrow> 'v ServerWorld \<Rightarrow> 'v ServerWorld" where
  "session_error err = log_Printf (''Session error: '' @ Error err)"

text \<open>What \<open>handleConnection\<close> of the minimal and the TLS server does with the error of a session.\<close>

definition after_session :: "goerror option \<Rightarrow> 'v ServerWorld \<Rightarrow> 'v ServerWorld" where
  "after_session err w =
     (case err of
        Some x \<Rightarrow> if x \<noteq> CtxCanceled then session_error x w else w
      | None \<Rightarrow> w)"

text \<open>The whole of it. \<^const>\<open>None\<close> would be a session that never ends, \<^const>\<open>Inl\<close> one that panics; the
  connection is closed at the end and dropped.\<close>

definition handleConnection ::
    "'v ServerEnv Runtime \<Rightarrow> (unit, 'v ServerWorld) SessionConfig
      \<Rightarrow> EngineOption list \<times> Transport \<Rightarrow> 'v ServerWorld \<Rightarrow> (go_panic + 'v ServerWorld) option" where
  "handleConnection rt config conn w =
     (case Run (lift_rt rt) (NewEngine (lift_rt rt) (NetEndpoint (snd conn)) config (fst conn) w) of
        None \<Rightarrow> None
      | Some (Inl p) \<Rightarrow> Some (Inl p)
      | Some (Inr (err, e)) \<Rightarrow> Some (Inr (after_session err (e_world e))))"

text \<open>The server with its own policies also logs what the storage holds. \<open>%v\<close> prints a slice of structs as \<open>[{a b c} {d e f}]\<close>.\<close>

definition show_path :: "MailPath \<Rightarrow> string" where
  "show_path p = ''{'' @ mp_Address p @ '' '' @ mp_SourceRoute p @ '' '' @ (if mp_IsNull p then ''true'' else ''false'') @ ''}''"

definition show_paths :: "MailPath list \<Rightarrow> string" where
  "show_paths ps = ''['' @ join CHR '' '' (map show_path ps) @ '']''"

definition stored_line :: "StoredMessage \<Rightarrow> string" where
  "stored_line msg =
     ''Stored message '' @ env_id (msg_Envelope msg) @ '' from '' @ mp_Address (env_mailFrom (msg_Envelope msg))
       @ '' to '' @ show_paths (Recipients (msg_Envelope msg)) @ '' ('' @ itoa (int (length (msg_Data msg))) @ '' bytes)''"

definition after_custom_session ::
    "(StoredMessage list \<Rightarrow> StoredMessage list) \<Rightarrow> goerror option \<Rightarrow> 'v ServerWorld \<Rightarrow> 'v ServerWorld" where
  "after_custom_session order err w =
     (let w1 = (case err of Some x \<Rightarrow> session_error x w | None \<Rightarrow> w) in
      fold (\<lambda>msg. log_Printf (stored_line msg)) (ListMessages order (mw_Storage w1)) w1)"

section \<open>The contract holds\<close>

lemma sound_store_log [simp]:
  "sound_store limits policy okS okR m (log_Printf l w) = sound_store limits policy okS okR m w"
  "sound_store limits policy okS okR m (log_session s l w) = sound_store limits policy okS okR m w"
  "sound_store limits policy okS okR m (session_error x w) = sound_store limits policy okS okR m w"
  by (simp_all add: log_session_def session_error_def log_Printf_def)

lemma sound_store_logs [simp]:
  "sound_store limits policy okS okR m (fold (\<lambda>x. log_Printf (f x)) xs w) = sound_store limits policy okS okR m w"
  by (induction xs arbitrary: w) simp_all

lemma LoggingHooks_keep: "hooks_keep (sound_store limits policy okS okR m) LoggingHooks"
  by (simp add: hooks_keep_def LoggingHooks_def)

lemma TLSLoggingHooks_keep: "hooks_keep (sound_store limits policy okS okR m) (TLSLoggingHooks name)"
  by (simp add: hooks_keep_def TLSLoggingHooks_def NullSessionHooks_def)

definition permitted_sender :: "'v ServerEnv Runtime \<Rightarrow> MailPath \<Rightarrow> bool" where
  "permitted_sender rt p \<longleftrightarrow> mp_IsNull p
     \<or> list_all (\<lambda>d. \<not> HasSuffix (ToLower (rt_Unicode rt) (mp_Address p)) (''@'' @ d)) blocked_domains"

definition custom_recipient :: "'v ServerEnv Runtime \<Rightarrow> MailPath \<Rightarrow> bool" where
  "custom_recipient rt p \<longleftrightarrow> ToLower (rt_Unicode rt) (mp_Address p) \<in>
     fst ` set (al_addresses custom_mailbox) \<union> fst ` set (al_aliases custom_mailbox)"

lemma find_blocked_None: "find_blocked a ds = None \<longleftrightarrow> list_all (\<lambda>d. \<not> HasSuffix a (''@'' @ d)) ds"
  by (induction ds) simp_all

lemma Restricted_accepts:
  "sr_Accepted (fst (Restricted_ValidateSender (rt_Unicode rt) blocked_domains p i w)) \<Longrightarrow> permitted_sender rt p"
  by (auto simp: Restricted_ValidateSender_def permitted_sender_def find_blocked_None
      SenderResultRejected_def split: if_splits option.splits)

lemma Restricted_world [simp]: "snd (Restricted_ValidateSender U ds p i w) = w"
  by (simp add: Restricted_ValidateSender_def split: option.split)

lemma map_get_fst: "map_get m k = Some v \<Longrightarrow> k \<in> fst ` set m"
  using map_of_SomeD [of m k v] by (force simp: map_get_def)

lemma Aliased_accepts:
  "rr_Status (fst (Aliased_ValidateRecipient (rt_Unicode rt) custom_mailbox p i w)) = RecipientAccepted \<Longrightarrow> custom_recipient rt p"
  by (auto simp: Aliased_ValidateRecipient_def custom_recipient_def flag_def Let_def recipient_rejected_def
      split: if_splits option.splits dest!: map_get_fst)

lemma sound_store_Aliased [simp]:
  "sound_store limits policy okS okR m (snd (Aliased_ValidateRecipient U mb p i w)) = sound_store limits policy okS okR m w"
  by (simp add: Aliased_ValidateRecipient_def Let_def split: option.split)

interpretation custom: session_world "lift_rt rt" "custom_config rt"
  "sound_store custom_limits TLSDisabled (permitted_sender rt) (custom_recipient rt) m"
  "permitted_sender rt" "custom_recipient rt" for rt m
  by unfold_locales
    (auto simp: custom_config_def lift_rt_keeps LoggingHooks_keep sound_store_storage
      intro: Restricted_accepts Aliased_accepts)

text \<open>The catch-all servers: a recipient they accept is at one of their domains.\<close>

definition at_domains :: "unicode \<Rightarrow> string list \<Rightarrow> MailPath \<Rightarrow> bool" where
  "at_domains U domains p \<longleftrightarrow> (\<exists>l d. ToLower U (mp_Address p) = l @ ''@'' @ d \<and> d \<in> set domains)"

lemma catch_all_registry:
  "SetCatchAll True (NewMailboxWithDomains U domains) =
     fold (run_call U) (map Call_AddDomain domains @ [Call_SetCatchAll True]) NewMailbox"
  by (simp add: NewMailboxWithDomains_def fold_map comp_def)

lemma abs_domains:
  "fold (spec_call U) (map Call_AddDomain domains) s = s\<lparr>s_domains := ToLower U ` set domains \<union> s_domains s\<rparr>"
  by (induction domains arbitrary: s) auto

lemma catch_all_accepts:
  assumes "registered rt (SetCatchAll True (NewMailboxWithDomains (rt_Unicode rt) domains)) p"
    and "list_all (\<lambda>d. ToLower (rt_Unicode rt) d = d) domains"
  shows "at_domains (rt_Unicode rt) domains p"
proof -
  let ?U = "rt_Unicode rt"
  let ?m = "SetCatchAll True (NewMailboxWithDomains ?U domains)"
  let ?calls = "map Call_AddDomain domains @ [Call_SetCatchAll True]"
  have wf: "registry_wf ?m" and abs: "abs_registry ?m = fold (spec_call ?U) ?calls empty_registry"
    using run_calls_refine [OF registry_wf_NewMailbox, of ?U ?calls] unfolding catch_all_registry by simp_all
  have "ToLower ?U ` set domains = set domains" using assms(2) by (auto simp: list_all_iff image_iff)
  then have "abs_registry ?m = \<lparr>s_addresses = {}, s_domains = set domains, s_catchAll = True\<rparr>"
    unfolding abs by (simp add: abs_domains empty_registry_def)
  moreover have "spec_accepts ?U (abs_registry ?m) (mp_Address p)"
    using assms(1) unfolding registered_def ValidateRecipient_spec [OF wf]
    by (simp add: Let_def recipient_rejected_def split: if_splits)
  ultimately show ?thesis by (auto simp: spec_accepts_def domain_of_def at_domains_def)
qed

lemma example_domains:
  "list_all (\<lambda>d. ToLower U d = d) [''localhost'', ''example.com'']" "list_all (\<lambda>d. ToLower U d = d) [''example.com'']"
  by (simp_all add: lower_byte_def)

abbreviation minimal_store :: "'v ServerEnv Runtime \<Rightarrow> 'v ServerWorld \<Rightarrow> bool" where
  "minimal_store rt \<equiv> sound_store DefaultSessionLimits TLSDisabled (\<lambda>_. True)
     (registered rt (minimal_mailbox (rt_Unicode rt))) (minimal_mailbox (rt_Unicode rt))"

abbreviation tls_store :: "TLSPolicy \<Rightarrow> 'v ServerEnv Runtime \<Rightarrow> 'v ServerWorld \<Rightarrow> bool" where
  "tls_store policy rt \<equiv> sound_store DefaultSessionLimits policy (\<lambda>_. True)
     (registered rt (tls_mailbox (rt_Unicode rt))) (tls_mailbox (rt_Unicode rt))"

interpretation minimal: session_world "lift_rt rt" "minimal_config rt" "minimal_store rt" "\<lambda>_. True"
  "registered rt (minimal_mailbox (rt_Unicode rt))" for rt
  by unfold_locales (auto simp: minimal_config_def lift_rt_keeps sound_store_storage intro: mem_mailbox_registered)

interpretation tls: session_world "lift_rt rt" "tls_config rt" "tls_store TLSOptional rt" "\<lambda>_. True"
  "registered rt (tls_mailbox (rt_Unicode rt))" for rt
  by unfold_locales
    (auto simp: tls_config_def lift_rt_keeps sound_store_storage TLSLoggingHooks_keep server_tls_def
      intro: mem_mailbox_registered)

interpretation plain: session_world "lift_rt rt" "plain_config rt" "tls_store TLSDisabled rt" "\<lambda>_. True"
  "registered rt (tls_mailbox (rt_Unicode rt))" for rt
  by unfold_locales (auto simp: plain_config_def lift_rt_keeps sound_store_storage intro: mem_mailbox_registered)

end
