(* ===== verification/Server.thy ===== *)
theory Server
  imports Examples
begin

text \<open>
  Servers that run many sessions at a time. The programs under \<open>examples/\<close> accept connections in
  a loop and give each a goroutine; a signal cancels the context of the sessions and closes the
  listener. Here such a program is a step relation: the main loop accepts or fails, the signal
  arrives, the listener is closed, and the goroutines advance, in any order. A goroutine advances
  by one iteration of the session loop, on the world as the others left it.

  A session touches the shared world only through the services it was configured with, and the
  contract \<open>session_world\<close> speaks about one session on a world anyone may have changed. So what it
  promises carries over to every interleaving, and the measure by which one session ends adds up
  to one by which all of them do.
\<close>

section \<open>Goroutines\<close>

text \<open>The part of \<open>Run\<close> before its loop.\<close>

definition Run_start :: "'w Runtime \<Rightarrow> ('b, 'w) Engine \<Rightarrow> ('b, 'w) iteration" where
  "Run_start rt e =
     (case Connect (e_sm e) of
        (Some err, m) \<Rightarrow> Return (Some err) (e\<lparr>e_sm := m\<rparr>)
      | (None, m) \<Rightarrow>
          (let e1 = run_hook OnConnect (e\<lparr>e_sm := m\<rparr>) in
           case writeResponse (buildGreeting e1) e1 of
             (Some err, e2) \<Rightarrow> leave rt DisconnectError (Some err) e2
           | (None, e2) \<Rightarrow>
               (case Greet (e_sm e2) of
                  (Some err, m2) \<Rightarrow> Return (Some err) (e2\<lparr>e_sm := m2\<rparr>)
                | (None, m2) \<Rightarrow> Continue (set_state StateGreeted (e2\<lparr>e_sm := m2\<rparr>)))))"

lemma Run_by_steps:
  "Run rt e =
     (case Run_start rt e of
        Continue e' \<Rightarrow> run_loop rt e' | Return r e' \<Rightarrow> Some (Inr (r, e')) | Panicked p \<Rightarrow> Some (Inl p))"
  by (simp add: Run_def Run_start_def leave_def Let_def case_prod_beta split: option.split)

text \<open>A connection is what the listener hands over: the options made of its addresses, and its
  transport. A goroutine has yet to run, is in a session, has returned, or has panicked.\<close>

type_synonym connection = "EngineOption list \<times> Transport"

datatype (dead 'b, dead 'w) goroutine =
  Spawned connection | Serving "('b, 'w) Engine" | Finished "goerror option" | Crashed go_panic

text \<open>A program: the runtime, the configuration of its sessions, what a goroutine does after a
  session, what the main loop does about a failed \<open>Accept\<close>, and, if it handles signals, what it
  does when it is told to stop or to reload.\<close>

record ('b, 'w) Program =
  pg_rt :: "'w Runtime"
  pg_config :: "('b, 'w) SessionConfig"
  pg_after :: "goerror option \<Rightarrow> 'w \<Rightarrow> 'w"
  pg_accept_error :: "goerror \<Rightarrow> 'w \<Rightarrow> 'w"
  pg_signal :: "('w \<Rightarrow> 'w) option"
  pg_sighup :: "(key_loader \<Rightarrow> 'w \<Rightarrow> 'w) option"

text \<open>\<open>s_accepts\<close> are the results the listener will hand over until it is closed, and \<open>s_hups\<close> the
  hangup signals to come, each with what the certificate files hold then.\<close>

record ('b, 'w) Server =
  s_accepts :: "(goerror + connection) list"
  s_hups :: "key_loader list"
  s_routines :: "('b, 'w) goroutine list"
  s_world :: 'w
  s_cancelled :: bool
  s_listening :: bool
  s_main :: bool

definition boot :: "(goerror + connection) list \<Rightarrow> key_loader list \<Rightarrow> 'w \<Rightarrow> ('b, 'w) Server" where
  "boot accepts hups w = \<lparr>s_accepts = accepts, s_hups = hups, s_routines = [], s_world = w, s_cancelled = False,
     s_listening = True, s_main = True\<rparr>"

text \<open>The runtime of a session whose context is done exactly if the program cancelled it.\<close>

definition ctx_rt :: "bool \<Rightarrow> 'w Runtime \<Rightarrow> 'w Runtime" where
  "ctx_rt cancelled rt = rt\<lparr>rt_CtxDone := (\<lambda>w. (if cancelled then Some CtxCanceled else None, w))\<rparr>"

text \<open>What becomes of a goroutine, and of the world, after an iteration.\<close>

fun settle ::
    "(goerror option \<Rightarrow> 'w \<Rightarrow> 'w) \<Rightarrow> 'w \<Rightarrow> ('b, 'w) iteration \<Rightarrow> ('b, 'w) goroutine \<times> 'w" where
  "settle after w (Continue e) = (Serving e, e_world e)"
| "settle after w (Return r e) = (Finished r, after r (e_world e))"
| "settle after w (Panicked p) = (Crashed p, w)"

fun advance_routine ::
    "('b, 'w) Program \<Rightarrow> bool \<Rightarrow> 'w \<Rightarrow> ('b, 'w) goroutine \<Rightarrow> (('b, 'w) goroutine \<times> 'w) option" where
  "advance_routine prog cancelled w (Spawned (opts, t)) =
     (let rt = ctx_rt cancelled (pg_rt prog) in
      Some (settle (pg_after prog) w (Run_start rt (NewEngine rt (NetEndpoint t) (pg_config prog) opts w))))"
| "advance_routine prog cancelled w (Serving e) =
     Some (settle (pg_after prog) w (run_step (ctx_rt cancelled (pg_rt prog)) (e\<lparr>e_world := w\<rparr>)))"
| "advance_routine prog cancelled w (Finished r) = None"
| "advance_routine prog cancelled w (Crashed p) = None"

fun crashed :: "('b, 'w) goroutine \<Rightarrow> bool" where
  "crashed (Crashed p) = True"
| "crashed _ = False"

text \<open>The process is up until main returns or a goroutine panics.\<close>

definition up :: "('b, 'w) Server \<Rightarrow> bool" where
  "up s \<longleftrightarrow> s_main s \<and> \<not> list_ex crashed (s_routines s)"

section \<open>The program\<close>

inductive server_step :: "('b, 'w) Program \<Rightarrow> ('b, 'w) Server \<Rightarrow> ('b, 'w) Server \<Rightarrow> bool" for prog where
  accept: "up s \<Longrightarrow> s_listening s \<Longrightarrow> s_accepts s = Inr conn # rest \<Longrightarrow>
    server_step prog s (s\<lparr>s_accepts := rest, s_routines := s_routines s @ [Spawned conn]\<rparr>)"
| accept_error: "up s \<Longrightarrow> s_listening s \<Longrightarrow> s_accepts s = Inl err # rest \<Longrightarrow> \<not> s_cancelled s \<Longrightarrow>
    server_step prog s (s\<lparr>s_accepts := rest, s_world := pg_accept_error prog err (s_world s)\<rparr>)"
| accept_shutdown: "up s \<Longrightarrow> s_cancelled s \<Longrightarrow> \<not> s_listening s \<or> s_accepts s = Inl err # rest \<Longrightarrow>
    server_step prog s (s\<lparr>s_main := False\<rparr>)"
| signal: "up s \<Longrightarrow> pg_signal prog = Some f \<Longrightarrow> \<not> s_cancelled s \<Longrightarrow>
    server_step prog s (s\<lparr>s_cancelled := True, s_world := f (s_world s)\<rparr>)"
| close_listener: "up s \<Longrightarrow> s_cancelled s \<Longrightarrow> s_listening s \<Longrightarrow> server_step prog s (s\<lparr>s_listening := False\<rparr>)"
| sighup: "up s \<Longrightarrow> pg_sighup prog = Some f \<Longrightarrow> s_hups s = load # hups \<Longrightarrow>
    server_step prog s (s\<lparr>s_hups := hups, s_world := f load (s_world s)\<rparr>)"
| advance: "up s \<Longrightarrow> i < length (s_routines s) \<Longrightarrow>
    advance_routine prog (s_cancelled s) (s_world s) (s_routines s ! i) = Some (g, w) \<Longrightarrow>
    server_step prog s (s\<lparr>s_routines := (s_routines s)[i := g], s_world := w\<rparr>)"

section \<open>Every interleaving keeps the contract\<close>

fun routine_ok ::
    "(MailPath \<Rightarrow> bool) \<Rightarrow> (MailPath \<Rightarrow> bool) \<Rightarrow> ('b, 'w) SessionConfig \<Rightarrow> ('b, 'w) goroutine \<Rightarrow> bool" where
  "routine_ok okS okR cfg (Serving e) \<longleftrightarrow> tame okS okR cfg e \<and> engine_inv e"
| "routine_ok okS okR cfg (Crashed p) \<longleftrightarrow> False"
| "routine_ok okS okR cfg _ \<longleftrightarrow> True"

definition server_ok ::
    "('w \<Rightarrow> bool) \<Rightarrow> (MailPath \<Rightarrow> bool) \<Rightarrow> (MailPath \<Rightarrow> bool) \<Rightarrow> ('b, 'w) SessionConfig \<Rightarrow> ('b, 'w) Server \<Rightarrow> bool" where
  "server_ok P okS okR cfg s \<longleftrightarrow> P (s_world s) \<and> list_all (routine_ok okS okR cfg) (s_routines s)"

lemma session_world_ctx:
  assumes "session_world rt cfg P okS okR"
  shows "session_world (ctx_rt c rt) cfg P okS okR"
  using assms by (simp add: session_world_def ctx_rt_def runtime_keeps_def)

lemma list_all_update: "list_all Q xs \<Longrightarrow> Q x \<Longrightarrow> list_all Q (xs[i := x])"
  by (auto simp: list_all_iff dest: set_update_subset_insert [THEN subsetD])

context session_world
begin

text \<open>A further property of the world that every service keeps can be added to the contract.\<close>

lemma with_property:
  assumes "runtime_keeps Q rt"
    and "\<And>h. Hooks cfg = Some h \<Longrightarrow> hooks_keep Q h"
    and "\<And>g w. cf_TLSProvider cfg = Some g \<Longrightarrow> Q w \<Longrightarrow> Q (snd (g w))"
    and "\<And>s p i w. cf_SenderPolicy cfg = Some s \<Longrightarrow> Q w \<Longrightarrow> Q (snd (s p i w))"
    and "\<And>m p i w. cf_Mailbox cfg = Some m \<Longrightarrow> Q w \<Longrightarrow> Q (snd (m p i w))"
    and "\<And>st env w. cf_Storage cfg = Some st \<Longrightarrow> Q w \<Longrightarrow> Q (snd (st env w))"
  shows "session_world rt cfg (\<lambda>w. P w \<and> Q w) okS okR"
proof (rule session_world.intro)
  show "runtime_keeps (\<lambda>w. P w \<and> Q w) rt"
    using runtime assms(1) by (simp add: runtime_keeps_def)
  show "hooks_keep (\<lambda>w. P w \<and> Q w) h" if "Hooks cfg = Some h" for h
    using hooks [OF that] assms(2) [OF that] by (simp add: hooks_keep_def)
qed (blast intro: provider sender senders any_sender mailbox accepts no_factory storage assms)+

text \<open>What a new session does before its loop keeps the contract of one session.\<close>

lemma served_Run_start:
  assumes "served P okS okR cfg e" and "e_sm e = NewStateMachine"
  shows "Run_start rt e = Continue e' \<Longrightarrow> served P okS okR cfg e' \<and> engine_inv e'"
    and "Run_start rt e = Return r e' \<Longrightarrow> served P okS okR cfg e'"
    and "Run_start rt e \<noteq> Panicked p"
proof -
  obtain m where conn: "Connect (e_sm e) = (None, m)" "sm_state m = StateConnected"
    by (simp add: assms(2) sm_defs)
  define e1 where "e1 = run_hook OnConnect (e\<lparr>e_sm := m\<rparr>)"
  obtain x e2 where w: "writeResponse (buildGreeting e1) e1 = (x, e2)" by fastforce
  have "served P okS okR cfg e1"
    using assms(1) world_hooks(1) [of "e\<lparr>e_sm := m\<rparr>"] served_cfg [OF assms(1)] by (simp add: e1_def served_def)
  then have e2: "served P okS okR cfg e2"
    using w tame_ops(13) [of okS okR cfg "buildGreeting e1" e1] e_world_ops(4) [of "buildGreeting e1" e1]
    by (simp add: served_def)
  have "sm_state (e_sm e2) = StateConnected"
    using w core_fields(7) [of "buildGreeting e1" e1] conn(2) by (simp add: e1_def)
  then obtain m2 where greet: "Greet (e_sm e2) = (None, m2)" "sm_state m2 = StateGreeted"
    by (simp add: sm_defs)
  let ?e3 = "set_state StateGreeted (e2\<lparr>e_sm := m2\<rparr>)"
  have e3: "served P okS okR cfg ?e3" "engine_inv ?e3"
    using e2 greet(2) session.init_inv [of ?e3] by (simp_all add: served_def greeted_def)
  have start: "Run_start rt e = (case x of Some err \<Rightarrow> leave rt DisconnectError (Some err) e2 | None \<Rightarrow> Continue ?e3)"
    unfolding Run_start_def conn(1) prod.case option.case Let_def e1_def [symmetric] w
    by (simp add: greet split: option.splits)
  show "Run_start rt e = Continue e' \<Longrightarrow> served P okS okR cfg e' \<and> engine_inv e'"
    and "Run_start rt e = Return r e' \<Longrightarrow> served P okS okR cfg e'"
    and "Run_start rt e \<noteq> Panicked p"
    using start e3 served_leave [OF e2] by (auto simp: leave_def split: option.splits prod.splits)
qed

end

text \<open>The contract of a program: that of its sessions, and that what it does around them keeps
  the property of the world too.\<close>

locale server_world = session_world "pg_rt prog" "pg_config prog" P okS okR
  for prog :: "('b, 'w) Program"
    and P :: "'w \<Rightarrow> bool"
    and okS :: "MailPath \<Rightarrow> bool"
    and okR :: "MailPath \<Rightarrow> bool" +
  assumes after: "P w \<Longrightarrow> P (pg_after prog r w)"
    and accept_error: "P w \<Longrightarrow> P (pg_accept_error prog err w)"
    and signal: "pg_signal prog = Some f \<Longrightarrow> P w \<Longrightarrow> P (f w)"
    and sighup: "pg_sighup prog = Some f' \<Longrightarrow> P w \<Longrightarrow> P (f' load w)"
    and mailbox_set: "cf_Mailbox (pg_config prog) \<noteq> None"
begin

lemmas ctx_world = session_world_ctx [OF session_world_axioms]

lemma advance_routine_ok:
  assumes "routine_ok okS okR (pg_config prog) g" and "P w"
    and "advance_routine prog c w g = Some (g', w')"
  shows "routine_ok okS okR (pg_config prog) g' \<and> P w'"
proof (cases g)
  case (Spawned conn)
  obtain opts t where conn: "conn = (opts, t)" by fastforce
  let ?rt = "ctx_rt c (pg_rt prog)"
  let ?e = "NewEngineWithConn ?rt (Net (WrapNetConn t)) (pg_config prog) opts w"
  have e: "served P okS okR (pg_config prog) ?e" "e_sm ?e = NewStateMachine"
    using session_world.served_NewEngine [OF ctx_world assms(2)] NewEngine_fields(2) [OF refl] by auto
  have "settle (pg_after prog) w (Run_start ?rt ?e) = (g', w')"
    using assms(3) Spawned conn by (simp add: NewEngine_def NewEngineFromNetConn_def Let_def)
  then show ?thesis
    using session_world.served_Run_start [OF ctx_world e] after
    by (cases "Run_start ?rt ?e") (auto simp: served_def)
next
  case (Serving e)
  let ?rt = "ctx_rt c (pg_rt prog)"
  let ?e = "e\<lparr>e_world := w\<rparr>"
  have e: "served P okS okR (pg_config prog) ?e" "engine_inv ?e"
    using assms(1,2) Serving by (simp_all add: served_def)
  have "settle (pg_after prog) w (run_step ?rt ?e) = (g', w')" using assms(3) Serving by simp
  moreover have "run_step ?rt ?e \<noteq> Panicked p" for p
    using no_panic_run_step [OF e(2)] mailbox_set e(1) by (simp add: served_def tame_def)
  ultimately show ?thesis
    using session_world.served_run_step [OF ctx_world e] inv_run_step [OF e(2)] after
    by (cases "run_step ?rt ?e") (auto simp: served_def)
qed (use assms(3) in simp_all)

lemma server_step_ok:
  assumes "server_step prog s s'" and "server_ok P okS okR (pg_config prog) s"
  shows "server_ok P okS okR (pg_config prog) s'"
  using assms
proof (induction rule: server_step.induct)
  case (advance s i g w)
  then have "routine_ok okS okR (pg_config prog) (s_routines s ! i)" "P (s_world s)"
    by (simp_all add: server_ok_def list_all_length)
  from advance_routine_ok [OF this advance(3)] advance(4) show ?case
    by (simp add: server_ok_def list_all_update)
qed (auto simp: server_ok_def accept_error signal sighup)

end

sublocale server_world \<subseteq> serving:
  invariant_system "\<lambda>s. \<exists>accepts hups w. s = boot accepts hups w \<and> P w" "server_step prog" "server_ok P okS okR (pg_config prog)"
proof
  show "\<exists>accepts hups w. s = boot accepts hups w \<and> P w \<Longrightarrow> server_ok P okS okR (pg_config prog) s" for s
    by (auto simp: server_ok_def boot_def)
qed (rule server_step_ok)

context server_world
begin

text \<open>What every reachable state of a program has: the property of the world, and no crash.\<close>

lemma always:
  assumes "(server_step prog)\<^sup>*\<^sup>* (boot accepts hups w) s" and "P w"
  shows "P (s_world s)" and "\<not> list_ex crashed (s_routines s)"
proof -
  have "server_ok P okS okR (pg_config prog) s" using serving.reachable_inv [OF _ assms(1)] assms(2) by blast
  moreover have "routine_ok okS okR (pg_config prog) g \<Longrightarrow> \<not> crashed g" for g by (cases g) simp_all
  ultimately show "P (s_world s)" and "\<not> list_ex crashed (s_routines s)"
    by (auto simp: server_ok_def list_all_iff list_ex_iff)
qed

end

section \<open>Every interleaving ends\<close>

fun routine_rank :: "('b, 'w) goroutine \<Rightarrow> nat" where
  "routine_rank (Spawned _) = 4"
| "routine_rank (Serving e) = tls_rank e"
| "routine_rank _ = 0"

fun routine_size :: "('b, 'w) goroutine \<Rightarrow> nat" where
  "routine_size (Serving e) = Suc (conn_size (e_conn e))"
| "routine_size _ = 0"

definition events_left :: "('b, 'w) Server \<Rightarrow> nat" where
  "events_left s = length (s_accepts s) + length (s_hups s) + (if s_cancelled s then 0 else 1)
     + (if s_listening s then 1 else 0) + (if s_main s then 1 else 0)"

definition server_order :: "(('b, 'w) Server \<times> ('b, 'w) Server) set" where
  "server_order = measures [events_left, \<lambda>s. sum_list (map routine_rank (s_routines s)),
     \<lambda>s. sum_list (map routine_size (s_routines s))]"

lemma tls_rank_bound: "tls_rank e < 4"
  by (simp add: tls_rank_def)

lemma advance_routine_less:
  assumes "advance_routine prog c w g = Some (g', w')"
  shows "routine_rank g' < routine_rank g \<or> routine_rank g' = routine_rank g \<and> routine_size g' < routine_size g"
proof (cases g)
  case (Spawned conn)
  then have "\<exists>it. settle (pg_after prog) w it = (g', w')"
    using assms by (cases conn) (auto simp: Let_def)
  then obtain it where it: "settle (pg_after prog) w it = (g', w')" ..
  with tls_rank_bound Spawned show ?thesis by (cases it) auto
next
  case (Serving e)
  let ?e = "e\<lparr>e_world := w\<rparr>"
  let ?it = "run_step (ctx_rt c (pg_rt prog)) ?e"
  have it: "settle (pg_after prog) w ?it = (g', w')" using assms Serving by simp
  show ?thesis
  proof (cases ?it)
    case (Continue e')
    have "tls_rank ?e = tls_rank e" by (simp add: tls_rank_def)
    with run_step_Continue [OF Continue] it Continue Serving show ?thesis by auto
  qed (use it Serving in auto)
qed (use assms in simp_all)

lemma sum_update:
  fixes f :: "'a \<Rightarrow> nat"
  assumes "i < length xs"
  shows "sum_list (map f (xs[i := x])) + f (xs ! i) = sum_list (map f xs) + f x"
proof -
  have "f (xs ! i) \<le> sum_list (map f xs)" using assms by (intro member_le_sum_list) simp_all
  with assms show ?thesis by (simp add: map_update sum_list_update)
qed

lemma server_step_less: "server_step prog s s' \<Longrightarrow> (s', s) \<in> server_order"
proof (induction rule: server_step.induct)
  case (advance s i g w)
  from advance_routine_less [OF advance(3)] sum_update [OF advance(2), of routine_rank g]
    sum_update [OF advance(2), of routine_size g]
  show ?case by (auto simp: server_order_def events_left_def)
qed (auto simp: server_order_def events_left_def up_def)

text \<open>A goroutine that can still run.\<close>

fun live :: "('b, 'w) goroutine \<Rightarrow> bool" where
  "live (Spawned _) = True"
| "live (Serving _) = True"
| "live _ = False"

lemma live_advances: "live g \<Longrightarrow> \<exists>g' w'. advance_routine prog c w g = Some (g', w')"
  by (cases g) (auto simp: Let_def)

lemma server_steps_wf: "wf {(s', s). server_step prog s s'}"
proof -
  have "wf (server_order :: (('a, 'b) Server \<times> ('a, 'b) Server) set)" by (simp add: server_order_def)
  then show ?thesis by (rule wf_subset) (auto intro: server_step_less)
qed

section \<open>Every connection is served\<close>

text \<open>The connections among the results of a listener.\<close>

fun connections :: "(goerror + connection) list \<Rightarrow> connection list" where
  "connections [] = []"
| "connections (Inr conn # rest) = conn # connections rest"
| "connections (Inl err # rest) = connections rest"

text \<open>Every connection is still to come or has its goroutine, and the server listens until it is told
  to stop.\<close>

definition accounted :: "nat \<Rightarrow> ('b, 'w) Server \<Rightarrow> bool" where
  "accounted n s \<longleftrightarrow> length (s_routines s) + length (connections (s_accepts s)) = n
     \<and> (s_cancelled s \<or> s_main s \<and> s_listening s)"

lemma accounted_step: "server_step prog s s' \<Longrightarrow> accounted n s \<Longrightarrow> accounted n s'"
  by (induction rule: server_step.induct) (auto simp: accounted_def)

lemma accounted_run: "(server_step prog)\<^sup>*\<^sup>* (boot accepts hups w) s \<Longrightarrow> accounted (length (connections accepts)) s"
proof (induction rule: rtranclp_induct)
  case base
  show ?case by (simp add: boot_def accounted_def)
qed (rule accounted_step)

fun returned :: "('b, 'w) goroutine \<Rightarrow> bool" where
  "returned (Finished r) = True"
| "returned _ = False"

text \<open>The server runs on, as long as nobody tells it to stop.\<close>

definition runs_on :: "('b, 'w) Program \<Rightarrow> ('b, 'w) Server \<Rightarrow> ('b, 'w) Server \<Rightarrow> bool" where
  "runs_on prog s s' \<longleftrightarrow> server_step prog s s' \<and> \<not> s_cancelled s'"

lemma idle_has_served:
  assumes "(server_step prog)\<^sup>*\<^sup>* (boot accepts hups w) s" and "\<not> list_ex crashed (s_routines s)"
    and "\<not> s_cancelled s" and "\<nexists>s'. runs_on prog s s'"
  shows "list_all returned (s_routines s)" and "length (s_routines s) = length (connections accepts)"
proof -
  have acc: "accounted (length (connections accepts)) s" by (rule accounted_run [OF assms(1)])
  with assms(2,3) have up: "up s" "s_listening s" by (auto simp: accounted_def up_def)
  have "returned (s_routines s ! i)" if i: "i < length (s_routines s)" for i
  proof (rule ccontr)
    assume "\<not> returned (s_routines s ! i)"
    moreover have "\<not> crashed (s_routines s ! i)" using assms(2) i by (auto simp: list_ex_length)
    ultimately have "live (s_routines s ! i)" by (cases "s_routines s ! i") simp_all
    then obtain g w' where "advance_routine prog (s_cancelled s) (s_world s) (s_routines s ! i) = Some (g, w')"
      using live_advances [of "s_routines s ! i" prog "s_cancelled s" "s_world s"] by blast
    from server_step.advance [OF up(1) i this] assms(3)
    have "runs_on prog s (s\<lparr>s_routines := (s_routines s)[i := g], s_world := w'\<rparr>)" by (simp add: runs_on_def)
    with assms(4) show False by blast
  qed
  then show "list_all returned (s_routines s)" by (simp add: list_all_length)
  have "s_accepts s = []"
  proof (cases "s_accepts s")
    case (Cons a rest)
    have "\<exists>s'. runs_on prog s s'"
    proof (cases a)
      case (Inl err)
      with server_step.accept_error [OF up _ assms(3), of err rest prog] Cons assms(3) show ?thesis
        unfolding runs_on_def by (intro exI [of _ "s\<lparr>s_accepts := rest, s_world := pg_accept_error prog err (s_world s)\<rparr>"]) simp
    next
      case (Inr conn)
      with server_step.accept [OF up, of conn rest prog] Cons assms(3) show ?thesis
        unfolding runs_on_def by (intro exI [of _ "s\<lparr>s_accepts := rest, s_routines := s_routines s @ [Spawned conn]\<rparr>"]) simp
    qed
    with assms(4) show ?thesis by blast
  qed simp
  with acc show "length (s_routines s) = length (connections accepts)" by (simp add: accounted_def)
qed

lemma comes_to_idle: "\<exists>t. (runs_on prog)\<^sup>*\<^sup>* s t \<and> (\<nexists>t'. runs_on prog t t')"
proof (induction s rule: wf_induct_rule [OF server_steps_wf [of prog]])
  case (1 s)
  show ?case
  proof (cases "\<exists>u. runs_on prog s u")
    case True
    then obtain u where u: "runs_on prog s u" by blast
    with 1 [of u] show ?thesis by (auto simp: runs_on_def intro: converse_rtranclp_into_rtranclp)
  qed blast
qed

lemma runs_on_steps: "(runs_on prog)\<^sup>*\<^sup>* s t \<Longrightarrow> (server_step prog)\<^sup>*\<^sup>* s t \<and> (s_cancelled t \<longrightarrow> s_cancelled s)"
  by (induction rule: rtranclp_induct) (auto simp: runs_on_def intro: rtranclp.rtrancl_into_rtrancl)

text \<open>A listener that fails again and again is called again and again: the loop of the examples has no
  way out but a signal, and no pause.\<close>

lemma accept_errors_spin:
  assumes "up s" and "s_listening s" and "\<not> s_cancelled s" and "s_accepts s = replicate n (Inl err) @ rest"
  shows "\<exists>w. (server_step prog ^^ n) s (s\<lparr>s_accepts := rest, s_world := w\<rparr>)"
  using assms
proof (induction n arbitrary: s)
  case 0
  then have "s\<lparr>s_accepts := rest, s_world := s_world s\<rparr> = s" by simp
  then show ?case by (intro exI [of _ "s_world s"]) simp
next
  case (Suc n)
  let ?s = "s\<lparr>s_accepts := replicate n (Inl err) @ rest, s_world := pg_accept_error prog err (s_world s)\<rparr>"
  have "server_step prog s ?s" using Suc.prems by (intro server_step.accept_error) simp_all
  moreover obtain w where "(server_step prog ^^ n) ?s (?s\<lparr>s_accepts := rest, s_world := w\<rparr>)"
    using Suc.IH [of ?s] Suc.prems by (auto simp: up_def)
  ultimately have "(server_step prog ^^ Suc n) s (?s\<lparr>s_accepts := rest, s_world := w\<rparr>)" by (rule relpowp_Suc_I2)
  then show ?case by (intro exI [of _ w]) simp
qed

section \<open>Stopping\<close>

text \<open>
  Cancelling the context ends sessions promptly: once it is cancelled, the next iteration of
  any session, whatever state it is in, is its last, and it returns \<open>context.Canceled\<close>, which the
  servers do not report as an error.
\<close>

theorem cancelled_session_stops:
  assumes "advance_routine prog True w (Serving e) = Some (g, w')"
  shows "g = Finished (if e_closed e then None else Some CtxCanceled)"
  using assms
  by (auto simp: run_step_def ctx_done_def ctx_rt_def leave_def handleDisconnect_def case_prod_beta split: if_splits)

text \<open>
  (C23) The shutdown of the examples is not graceful, although a comment calls it so: from any state
  in which sessions are running, the process can be told to stop and exit with every one of them
  in the state it was in. Main does not wait for its goroutines; cancelling their context only
  helps those that happen to run before main returns.
\<close>

theorem shutdown_does_not_wait:
  assumes "up s" and "pg_signal prog = Some f"
  shows "\<exists>s'. (server_step prog)\<^sup>*\<^sup>* s s' \<and> \<not> s_main s' \<and> s_routines s' = s_routines s"
proof -
  have exits: "\<exists>s'. (server_step prog)\<^sup>*\<^sup>* t s' \<and> \<not> s_main s' \<and> s_routines s' = s_routines t"
    if t: "up t" "s_cancelled t" for t
  proof -
    let ?t = "t\<lparr>s_listening := False\<rparr>"
    have closed: "(server_step prog)\<^sup>*\<^sup>* t ?t"
    proof (cases "s_listening t")
      case True
      with t show ?thesis by (blast intro: server_step.close_listener)
    next
      case False
      then have "?t = t" by simp
      then show ?thesis by simp
    qed
    have "up ?t" "s_cancelled ?t" using t by (simp_all add: up_def)
    then have "server_step prog ?t (?t\<lparr>s_main := False\<rparr>)" by (intro server_step.accept_shutdown) simp_all
    with closed show ?thesis by (intro exI [of _ "?t\<lparr>s_main := False\<rparr>"]) auto
  qed
  show ?thesis
  proof (cases "s_cancelled s")
    case True
    with exits assms(1) show ?thesis by blast
  next
    case False
    let ?t = "s\<lparr>s_cancelled := True, s_world := f (s_world s)\<rparr>"
    have "server_step prog s ?t" using assms False by (intro server_step.signal)
    moreover have "up ?t" using assms(1) by (simp add: up_def)
    ultimately show ?thesis using exits [of ?t] by (auto intro: converse_rtranclp_into_rtranclp)
  qed
qed

section \<open>The example programs\<close>

text \<open>The main loops differ in their signals: the minimal and the TLS server can be stopped, the TLS
  server reloads its certificate, the other two run until they are killed.\<close>

definition accept_error_line :: "goerror \<Rightarrow> 'v ServerWorld \<Rightarrow> 'v ServerWorld" where
  "accept_error_line err = log_Printf (''Accept error: '' @ Error err)"

definition minimal_program :: "'v ServerEnv Runtime \<Rightarrow> (unit, 'v ServerWorld) Program" where
  "minimal_program rt =
     \<lparr>pg_rt = lift_rt rt, pg_config = minimal_config rt, pg_after = after_session,
      pg_accept_error = accept_error_line, pg_signal = Some (log_Printf ''Shutting down...''), pg_sighup = None\<rparr>"

definition tls_program :: "'v ServerEnv Runtime \<Rightarrow> (unit, 'v ServerWorld) Program" where
  "tls_program rt =
     \<lparr>pg_rt = lift_rt rt, pg_config = tls_config rt, pg_after = after_session,
      pg_accept_error = accept_error_line, pg_signal = Some (log_Printf ''Shutting down...''),
      pg_sighup = Some (\<lambda>load w. w\<lparr>mw_env := on_sighup load (mw_env w)\<rparr>)\<rparr>"

definition plain_program :: "'v ServerEnv Runtime \<Rightarrow> (unit, 'v ServerWorld) Program" where
  "plain_program rt =
     \<lparr>pg_rt = lift_rt rt, pg_config = plain_config rt, pg_after = after_session,
      pg_accept_error = accept_error_line, pg_signal = None, pg_sighup = None\<rparr>"

definition custom_program ::
    "(StoredMessage list \<Rightarrow> StoredMessage list) \<Rightarrow> 'v ServerEnv Runtime \<Rightarrow> (unit, 'v ServerWorld) Program" where
  "custom_program order rt =
     \<lparr>pg_rt = lift_rt rt, pg_config = custom_config rt, pg_after = after_custom_session order,
      pg_accept_error = accept_error_line, pg_signal = None, pg_sighup = None\<rparr>"

text \<open>The start of a program: \<open>listen\<close> is the error of \<open>net.Listen\<close>. \<^const>\<open>Inl\<close> is the message of a
  fatal error, \<^const>\<open>Inr\<close> the loop to run and its first state.\<close>

type_synonym 'v launch = "string + (unit, 'v ServerWorld) Program \<times> (unit, 'v ServerWorld) Server"

definition fresh_world :: "Registry \<Rightarrow> 'v ServerEnv \<Rightarrow> 'v ServerWorld" where
  "fresh_world mailbox env = \<lparr>mw_Storage = NewStorage, mw_Mailbox = mailbox, mw_env = env\<rparr>"

definition launch ::
    "goerror option \<Rightarrow> (unit, 'v ServerWorld) Program \<Rightarrow> string list \<Rightarrow> (goerror + connection) list
      \<Rightarrow> key_loader list \<Rightarrow> 'v ServerWorld \<Rightarrow> 'v launch" where
  "launch listen prog greeting accepts hups w =
     (case listen of
        Some err \<Rightarrow> Inl (''Failed to listen: '' @ Error err)
      | None \<Rightarrow> Inr (prog, boot accepts hups (fold log_Printf greeting w)))"

definition minimal_main ::
    "'v Runtime \<Rightarrow> goerror option \<Rightarrow> (goerror + connection) list \<Rightarrow> 'v ServerEnv \<Rightarrow> 'v launch" where
  "minimal_main rt listen accepts env =
     launch listen (minimal_program (env_rt rt)) [''SMTP server listening on :2525'', ''Press Ctrl+C to stop'']
       accepts [] (fresh_world (minimal_mailbox (rt_Unicode rt)) env)"

text \<open>The server with its own policies has its own mailbox and leaves the registry of the world
  empty.\<close>

definition custom_main ::
    "(StoredMessage list \<Rightarrow> StoredMessage list) \<Rightarrow> 'v Runtime \<Rightarrow> goerror option
      \<Rightarrow> (goerror + connection) list \<Rightarrow> 'v ServerEnv \<Rightarrow> 'v launch" where
  "custom_main order rt listen accepts env =
     launch listen (custom_program order (env_rt rt)) [''SMTP server with custom policies listening on :2525'']
       accepts [] (fresh_world NewMailbox env)"

definition startWithoutTLS ::
    "'v Runtime \<Rightarrow> goerror option \<Rightarrow> (goerror + connection) list \<Rightarrow> 'v ServerEnv \<Rightarrow> 'v launch" where
  "startWithoutTLS rt listen accepts env =
     launch listen (plain_program (env_rt rt)) [''SMTP server (no TLS) listening on :2525'']
       accepts [] (fresh_world (tls_mailbox (rt_Unicode rt)) env)"

definition no_certificate_lines :: "string list" where
  "no_certificate_lines =
     [''Certificate not found. Generate with:'',
      ''  openssl req -x509 -newkey rsa:2048 -keyout key.pem -out cert.pem -days 365 -nodes -subj \"/CN=localhost\"'',
      [], ''Starting without TLS...'']"

definition tls_main ::
    "'v Runtime \<Rightarrow> bool \<Rightarrow> key_loader \<Rightarrow> goerror option \<Rightarrow> (goerror + connection) list \<Rightarrow> key_loader list
      \<Rightarrow> 'v ServerEnv \<Rightarrow> 'v launch" where
  "tls_main rt missing load listen accepts hups env =
     (if missing then
        startWithoutTLS rt listen accepts (env\<lparr>sv_log := sv_log env @ no_certificate_lines\<rparr>)
      else
       (case NewReloadableTLSProvider load ''cert.pem'' ''key.pem'' TLSOptional of
          Inl err \<Rightarrow> Inl (''Failed to load TLS: '' @ Error err)
        | Inr provider \<Rightarrow>
            launch listen (tls_program (env_rt rt))
              [''SMTP server with STARTTLS listening on :2525'', ''Send SIGHUP to reload certificates'', [],
               ''Test with:'', ''  openssl s_client -starttls smtp -connect localhost:2525'']
              accepts hups (fresh_world (tls_mailbox (rt_Unicode rt)) (env\<lparr>sv_tls := provider\<rparr>))))"

section \<open>What the programs promise\<close>

lemma sound_store_after [simp]:
  "sound_store limits policy okS okR m (after_session r w) = sound_store limits policy okS okR m w"
  "sound_store limits policy okS okR m (after_custom_session order r w) = sound_store limits policy okS okR m w"
  "sound_store limits policy okS okR m (accept_error_line err w) = sound_store limits policy okS okR m w"
  by (simp_all add: after_session_def after_custom_session_def accept_error_line_def Let_def split: option.split)

interpretation minimal_server: server_world "minimal_program rt" "minimal_store rt" "\<lambda>_. True"
  "registered rt (minimal_mailbox (rt_Unicode rt))" for rt
  using minimal.session_world_axioms [of rt]
  by (intro server_world.intro server_world_axioms.intro) (auto simp: minimal_program_def minimal_config_def)

interpretation plain_server: server_world "plain_program rt" "tls_store TLSDisabled rt" "\<lambda>_. True"
  "registered rt (tls_mailbox (rt_Unicode rt))" for rt
  using plain.session_world_axioms [of rt]
  by (intro server_world.intro server_world_axioms.intro) (auto simp: plain_program_def plain_config_def)

interpretation custom_server: server_world "custom_program order rt"
  "sound_store custom_limits TLSDisabled (permitted_sender rt) (custom_recipient rt) m"
  "permitted_sender rt" "custom_recipient rt" for order rt m
  using custom.session_world_axioms [of rt m]
  by (intro server_world.intro server_world_axioms.intro) (auto simp: custom_program_def custom_config_def)

text \<open>The TLS server keeps two promises: what it stores, and that it has a certificate to show.\<close>

definition has_certificate :: "'v ServerWorld \<Rightarrow> bool" where
  "has_certificate w \<longleftrightarrow> reloadable_ok (sv_tls (mw_env w))"

lemma has_certificate_log [simp]:
  "has_certificate (log_Printf l w) = has_certificate w" "has_certificate (log_session i l w) = has_certificate w"
  "has_certificate (after_session r w) = has_certificate w" "has_certificate (accept_error_line err w) = has_certificate w"
  by (simp_all add: has_certificate_def log_Printf_def log_session_def after_session_def accept_error_line_def
      session_error_def split: option.split)

lemma has_certificate_rt: "runtime_keeps has_certificate (lift_rt (env_rt rt))"
  by (simp add: runtime_keeps_def has_certificate_def lift_rt_def env_rt_def case_prod_beta)

lemma has_certificate_storage: "has_certificate (snd (mem_storage (env_rt rt) env w)) = has_certificate w"
  by (simp add: mem_storage_def Store_def put_message_def has_certificate_def lift_rt_def env_rt_def
      case_prod_beta Let_def)

lemma has_certificate_sighup: "has_certificate w \<Longrightarrow> has_certificate (w\<lparr>mw_env := on_sighup load (mw_env w)\<rparr>)"
  using Reload_ok [of "sv_tls (mw_env w)" load]
  by (auto simp: has_certificate_def on_sighup_def case_prod_beta)

abbreviation tls_promise :: "'v Runtime \<Rightarrow> 'v ServerWorld \<Rightarrow> bool" where
  "tls_promise rt w \<equiv> tls_store TLSOptional (env_rt rt) w \<and> has_certificate w"

lemma has_certificate_hooks: "Hooks (tls_config rt) = Some h \<Longrightarrow> hooks_keep has_certificate h"
  by (auto simp: tls_config_def hooks_keep_def TLSLoggingHooks_def NullSessionHooks_def)

interpretation tls_server: server_world "tls_program (env_rt rt)" "tls_promise rt" "\<lambda>_. True"
  "registered (env_rt rt) (tls_mailbox (rt_Unicode (env_rt rt)))" for rt
proof (intro server_world.intro server_world_axioms.intro)
  have "session_world (lift_rt (env_rt rt)) (tls_config (env_rt rt)) (tls_promise rt) (\<lambda>_. True)
      (registered (env_rt rt) (tls_mailbox (rt_Unicode (env_rt rt))))"
    using has_certificate_rt has_certificate_hooks
    by (rule tls.with_property) (auto simp: tls_config_def server_tls_def has_certificate_storage)
  then show "session_world (pg_rt (tls_program (env_rt rt))) (pg_config (tls_program (env_rt rt))) (tls_promise rt)
      (\<lambda>_. True) (registered (env_rt rt) (tls_mailbox (rt_Unicode (env_rt rt))))"
    by (simp add: tls_program_def)
qed (auto simp: tls_program_def tls_config_def has_certificate_sighup)

lemma env_rt_Unicode [simp]: "rt_Unicode (env_rt rt) = rt_Unicode rt"
  by (simp add: env_rt_def)

lemma sound_store_fresh:
  "sound_store limits policy okS okR m (fresh_world m env)"
  using sound_store_empty [of "fresh_world m env"] by (simp add: fresh_world_def)

lemma sound_store_greeting [simp]:
  "sound_store limits policy okS okR m (fold log_Printf ls w) = sound_store limits policy okS okR m w"
  using sound_store_logs [of limits policy okS okR m "\<lambda>x. x" ls w] by simp

lemma has_certificate_greeting [simp]: "has_certificate (fold log_Printf ls w) = has_certificate w"
  by (induction ls arbitrary: w) simp_all

lemma launch_cases:
  assumes "launch listen prog greeting accepts hups w = Inr (prog', s0)"
  shows "prog' = prog" and "s0 = boot accepts hups (fold log_Printf greeting w)"
  using assms by (auto simp: launch_def split: option.splits)

text \<open>
  (C3) The example with its own policies does what it is meant to show. However many clients
  connect, whatever they send and however their sessions interleave, the server survives, and
  at every moment each message it has stored comes from the null sender or from an address
  outside the two blocked domains, and goes to at least one and at most 50 recipients, each of
  them one of the three addresses or the three aliases, compared in lower case; the text stored
  is the envelope's.
\<close>

theorem custom_policy_enforced:
  assumes "custom_main order rt listen accepts env = Inr (prog, s0)" and "(server_step prog)\<^sup>*\<^sup>* s0 s"
  shows "\<not> list_ex crashed (s_routines s)
    \<and> (\<forall>i msg. Get (mw_Storage (s_world s)) i = Some msg \<longrightarrow>
        (let env = msg_Envelope msg; low = ToLower (rt_Unicode rt) in
         (mp_IsNull (env_mailFrom env)
           \<or> \<not> HasSuffix (low (mp_Address (env_mailFrom env))) ''@spam.example''
             \<and> \<not> HasSuffix (low (mp_Address (env_mailFrom env))) ''@blocked.org'')
         \<and> 1 \<le> RecipientCount env \<and> RecipientCount env \<le> 50
         \<and> list_all (\<lambda>p. low (mp_Address p) \<in> {''admin@example.com'', ''support@example.com'', ''user@example.com'',
               ''postmaster@example.com'', ''webmaster@example.com'', ''help@example.com''}) (env_recipients env)
         \<and> msg_Data msg = env_data env))"
proof -
  let ?rt = "env_rt rt"
  have U: "rt_Unicode ?rt = rt_Unicode rt" by (simp add: env_rt_def)
  note start = launch_cases [OF assms(1) [unfolded custom_main_def]]
  note run = assms(2) [unfolded start]
  have "sound_store custom_limits TLSDisabled (permitted_sender ?rt) (custom_recipient ?rt) NewMailbox (fresh_world NewMailbox env)"
    by (rule sound_store_fresh)
  then have P: "sound_store custom_limits TLSDisabled (permitted_sender ?rt) (custom_recipient ?rt) NewMailbox (s_world s)"
    and up: "\<not> list_ex crashed (s_routines s)"
    using custom_server.always [OF run] by simp_all
  have sender: "permitted_sender ?rt p \<longleftrightarrow> mp_IsNull p
      \<or> \<not> HasSuffix (ToLower (rt_Unicode rt) (mp_Address p)) ''@spam.example''
        \<and> \<not> HasSuffix (ToLower (rt_Unicode rt) (mp_Address p)) ''@blocked.org''" for p
    by (simp add: permitted_sender_def blocked_domains_def U)
  have recipient: "custom_recipient ?rt = (\<lambda>p. ToLower (rt_Unicode rt) (mp_Address p) \<in> {''admin@example.com'',
      ''support@example.com'', ''user@example.com'', ''postmaster@example.com'', ''webmaster@example.com'', ''help@example.com''})"
    unfolding fun_eq_iff custom_recipient_def custom_mailbox_def U by (simp add: disj_ac)
  have "MaxRecipients custom_limits = 50" by (simp add: custom_limits_def)
  moreover have "1 \<le> RecipientCount env" if "env_recipients env \<noteq> []" for env
    using that by (cases "env_recipients env") (simp_all add: RecipientCount_def)
  ultimately show ?thesis
    using up sound_store_Get [OF P] unfolding good_envelope_def sender recipient Let_def by simp
qed

lemma minimal_runs:
  assumes "minimal_main rt listen accepts env = Inr (prog, s0)" and "(server_step prog)\<^sup>*\<^sup>* s0 s"
  shows "minimal_store (env_rt rt) (s_world s) \<and> \<not> list_ex crashed (s_routines s)"
proof -
  note start = launch_cases [OF assms(1) [unfolded minimal_main_def]]
  have "minimal_store (env_rt rt) (fresh_world (minimal_mailbox (rt_Unicode rt)) env)"
    using sound_store_fresh by (simp add: env_rt_def)
  with minimal_server.always [OF assms(2) [unfolded start]] show ?thesis by simp
qed

lemma plain_runs:
  assumes "tls_main rt True load listen accepts hups env = Inr (prog, s0)" and "(server_step prog)\<^sup>*\<^sup>* s0 s"
  shows "tls_store TLSDisabled (env_rt rt) (s_world s) \<and> \<not> list_ex crashed (s_routines s)"
proof -
  from assms(1) have "startWithoutTLS rt listen accepts (env\<lparr>sv_log := sv_log env @ no_certificate_lines\<rparr>) = Inr (prog, s0)"
    by (simp add: tls_main_def)
  note start = launch_cases [OF this [unfolded startWithoutTLS_def]]
  have "tls_store TLSDisabled (env_rt rt) (fresh_world (tls_mailbox (rt_Unicode rt)) env')" for env'
    using sound_store_fresh by (simp add: env_rt_def)
  with plain_server.always [OF assms(2) [unfolded start]] show ?thesis by simp
qed

lemma tls_runs:
  assumes "tls_main rt False load listen accepts hups env = Inr (prog, s0)" and "(server_step prog)\<^sup>*\<^sup>* s0 s"
  shows "tls_promise rt (s_world s) \<and> \<not> list_ex crashed (s_routines s)"
proof -
  from assms(1) obtain provider where
    provider: "NewReloadableTLSProvider load ''cert.pem'' ''key.pem'' TLSOptional = Inr provider"
    and main: "launch listen (tls_program (env_rt rt))
      [''SMTP server with STARTTLS listening on :2525'', ''Send SIGHUP to reload certificates'', [],
       ''Test with:'', ''  openssl s_client -starttls smtp -connect localhost:2525'']
      accepts hups (fresh_world (tls_mailbox (rt_Unicode rt)) (env\<lparr>sv_tls := provider\<rparr>)) = Inr (prog, s0)"
    by (auto simp: tls_main_def split: sum.splits)
  note start = launch_cases [OF main]
  let ?w = "fresh_world (tls_mailbox (rt_Unicode rt)) (env\<lparr>sv_tls := provider\<rparr>)"
  have "has_certificate ?w" using NewReloadable_ok [OF provider] by (simp add: has_certificate_def fresh_world_def)
  moreover have "tls_store TLSOptional (env_rt rt) ?w" using sound_store_fresh by (simp add: env_rt_def)
  ultimately show ?thesis using tls_server.always [OF assms(2) [unfolded start]] by simp
qed

text \<open>What the examples have in common: they start at \<^const>\<open>boot\<close>, and none of their sessions panics.\<close>

lemma examples_boot:
  assumes "custom_main order rt listen accepts env = Inr (prog, s0) \<or> minimal_main rt listen accepts env = Inr (prog, s0)
      \<or> tls_main rt missing load listen accepts hups env = Inr (prog, s0)"
  shows "\<exists>hups w. s0 = boot accepts hups w"
  using assms
  by (auto simp: custom_main_def minimal_main_def tls_main_def startWithoutTLS_def split: if_splits sum.splits
      dest: launch_cases(2))

lemma examples_run:
  assumes "custom_main order rt listen accepts env = Inr (prog, s0) \<or> minimal_main rt listen accepts env = Inr (prog, s0)
      \<or> tls_main rt missing load listen accepts hups env = Inr (prog, s0)"
    and "(server_step prog)\<^sup>*\<^sup>* s0 s"
  shows "\<not> list_ex crashed (s_routines s)"
  using assms(1)
proof (elim disjE)
  assume "custom_main order rt listen accepts env = Inr (prog, s0)"
  note start = launch_cases [OF this [unfolded custom_main_def]]
  have "sound_store custom_limits TLSDisabled (permitted_sender (env_rt rt)) (custom_recipient (env_rt rt)) NewMailbox
      (fresh_world NewMailbox env)"
    by (rule sound_store_fresh)
  with custom_server.always(2) [OF assms(2) [unfolded start]] show ?thesis by simp
next
  assume "minimal_main rt listen accepts env = Inr (prog, s0)"
  from minimal_runs [OF this assms(2)] show ?thesis by simp
next
  assume "tls_main rt missing load listen accepts hups env = Inr (prog, s0)"
  then show ?thesis
    using plain_runs [of rt load listen accepts hups env prog s0 s] tls_runs [of rt load listen accepts hups env prog s0 s] assms(2)
    by (cases missing) auto
qed

text \<open>
  (C39) The catch-all examples are no open relays: with the minimal server every stored message
  goes to recipients at \<open>example.com\<close> only, and with the TLS server, with or without its
  certificate, to recipients at \<open>localhost\<close> or \<open>example.com\<close>, however many clients connect, whatever
  they send and however their sessions interleave; and no session panics.
\<close>

theorem catch_all_servers_no_relay:
  assumes "minimal_main rt listen accepts env = Inr (prog, s0) \<and> domains = [''example.com'']
      \<or> tls_main rt missing load listen accepts hups env = Inr (prog, s0) \<and> domains = [''localhost'', ''example.com'']"
    and "(server_step prog)\<^sup>*\<^sup>* s0 s"
  shows "\<not> list_ex crashed (s_routines s)
    \<and> (\<forall>i msg. Get (mw_Storage (s_world s)) i = Some msg \<longrightarrow>
         env_recipients (msg_Envelope msg) \<noteq> []
         \<and> list_all (\<lambda>p. \<exists>l d. ToLower (rt_Unicode rt) (mp_Address p) = l @ ''@'' @ d \<and> d \<in> set domains)
             (env_recipients (msg_Envelope msg)))"
proof -
  have U: "rt_Unicode (env_rt rt) = rt_Unicode rt" by (simp add: env_rt_def)
  define m where "m = SetCatchAll True (NewMailboxWithDomains (rt_Unicode rt) domains)"
  have "\<exists>policy. sound_store DefaultSessionLimits policy (\<lambda>_. True) (registered (env_rt rt) m) m (s_world s)
      \<and> \<not> list_ex crashed (s_routines s)"
  proof -
    from assms(1) consider "minimal_main rt listen accepts env = Inr (prog, s0)" "domains = [''example.com'']"
      | "missing" "tls_main rt True load listen accepts hups env = Inr (prog, s0)" "domains = [''localhost'', ''example.com'']"
      | "tls_main rt False load listen accepts hups env = Inr (prog, s0)" "domains = [''localhost'', ''example.com'']"
      by (cases missing) auto
    then show ?thesis
    proof cases
      case 1
      with minimal_runs [OF 1(1) assms(2)] show ?thesis by (auto simp: m_def minimal_mailbox_def)
    next
      case 2
      with plain_runs [OF 2(2) assms(2)] show ?thesis by (auto simp: m_def tls_mailbox_def)
    next
      case 3
      with tls_runs [OF 3(1) assms(2)] show ?thesis by (auto simp: m_def tls_mailbox_def)
    qed
  qed
  then obtain policy where P: "sound_store DefaultSessionLimits policy (\<lambda>_. True) (registered (env_rt rt) m) m (s_world s)"
    and up: "\<not> list_ex crashed (s_routines s)" by blast
  have "list_all (\<lambda>d. ToLower (rt_Unicode rt) d = d) domains" using assms(1) example_domains by auto
  then have "registered (env_rt rt) m p \<Longrightarrow> at_domains (rt_Unicode rt) domains p" for p
    using catch_all_accepts [of "env_rt rt" domains p] by (simp add: m_def U)
  then have "list_all (registered (env_rt rt) m) ps \<Longrightarrow> list_all (at_domains (rt_Unicode rt) domains) ps" for ps
    by (simp add: list_all_iff)
  with up sound_store_Get(1) [OF P] show ?thesis
    unfolding good_envelope_def at_domains_def [abs_def] by blast
qed

text \<open>
  (C22) The TLS server always has a certificate to show: once it has started with one, every
  configuration its sessions get is the secure one with exactly one certificate, at every moment
  and whatever the certificate files hold when a hangup signal arrives. A reload that fails keeps
  the old certificate, and no session ever starts a handshake without a configuration.
\<close>

theorem tls_server_keeps_certificate:
  assumes "tls_main rt False load listen accepts hups env = Inr (prog, s0)" and "(server_step prog)\<^sup>*\<^sup>* s0 s"
  shows "\<exists>c cert. fst (server_tls (s_world s)) = Inr c \<and> tc_Certificates c = [cert]
    \<and> TLSVersion12 \<le> tc_MinVersion c \<and> set (tc_CipherSuites c) \<subseteq> set SecureCipherSuites"
  using tls_runs [OF assms]
  by (auto simp: has_certificate_def reloadable_ok_def secure_config_def server_tls_def Reloadable_GetConfig_def)

text \<open>
  (C12) No connection is dropped and none is left hanging. Take any of the example servers, in any
  state it can get to as long as nobody has told it to stop. However its sessions, the accept
  loop and hangup signals go on from there, it gets in finitely many steps to a state in which
  nothing is left to do but wait for a signal to stop; and in every such state each connection
  the listener has handed over has a goroutine of its own, whose session has returned. The
  listener hands over finitely many results, connections and errors, each connection a transport
  with finitely many events.
\<close>

theorem every_connection_served:
  assumes "custom_main order rt listen accepts env = Inr (prog, s0) \<or> minimal_main rt listen accepts env = Inr (prog, s0)
      \<or> tls_main rt missing load listen accepts hups env = Inr (prog, s0)"
    and "(server_step prog)\<^sup>*\<^sup>* s0 s" and "\<not> s_cancelled s"
  shows "wf {(t', t). runs_on prog t t'}
    \<and> (\<exists>t. (runs_on prog)\<^sup>*\<^sup>* s t \<and> (\<nexists>t'. runs_on prog t t'))
    \<and> (\<forall>t. (runs_on prog)\<^sup>*\<^sup>* s t \<and> (\<nexists>t'. runs_on prog t t') \<longrightarrow>
          list_all returned (s_routines t) \<and> length (s_routines t) = length (connections accepts))"
proof (intro conjI allI impI)
  show "wf {(t', t). runs_on prog t t'}"
    by (rule wf_subset [OF server_steps_wf]) (auto simp: runs_on_def)
  show "\<exists>t. (runs_on prog)\<^sup>*\<^sup>* s t \<and> (\<nexists>t'. runs_on prog t t')" by (rule comes_to_idle)
  fix t
  assume t: "(runs_on prog)\<^sup>*\<^sup>* s t \<and> (\<nexists>t'. runs_on prog t t')"
  with runs_on_steps [of prog s t] assms(2,3) have run: "(server_step prog)\<^sup>*\<^sup>* s0 t" "\<not> s_cancelled t" by auto
  obtain hups' w where boot: "s0 = boot accepts hups' w" using examples_boot [OF assms(1)] by blast
  have "\<not> list_ex crashed (s_routines t)" by (rule examples_run [OF assms(1) run(1)])
  with idle_has_served [OF run(1) [unfolded boot] _ run(2)] t
  show "list_all returned (s_routines t)" "length (s_routines t) = length (connections accepts)" by blast+
qed

section \<open>One connection at a time\<close>

definition routine_step :: "('b, 'w) Program \<Rightarrow> ('b, 'w) goroutine \<times> 'w \<Rightarrow> ('b, 'w) goroutine \<times> 'w \<Rightarrow> bool" where
  "routine_step prog x y \<longleftrightarrow> advance_routine prog False (snd x) (fst x) = Some y"

lemma ctx_rt_never: "rt_CtxDone rt = (\<lambda>w. (None, w)) \<Longrightarrow> ctx_rt False (lift_rt rt) = lift_rt rt"
  by (simp add: ctx_rt_def lift_rt_def)

lemma run_loop_routine:
  assumes "ctx_rt False (pg_rt prog) = pg_rt prog" and "run_loop (pg_rt prog) e = Some (Inr (r, e'))"
  shows "(routine_step prog)\<^sup>*\<^sup>* (Serving e, e_world e) (Finished r, pg_after prog r (e_world e'))"
  using assms(2)
proof (induction e rule: wf_induct_rule [OF wf_measures [of "[tls_rank, \<lambda>e. conn_size (e_conn e)]"]])
  case (1 e)
  have e: "e\<lparr>e_world := e_world e\<rparr> = e" by simp
  show ?case
  proof (cases "run_step (pg_rt prog) e")
    case (Continue f)
    then have "routine_step prog (Serving e, e_world e) (Serving f, e_world f)"
      by (simp add: routine_step_def assms(1) e)
    moreover have "(f, e) \<in> measures [tls_rank, \<lambda>e. conn_size (e_conn e)]"
      using run_step_Continue [OF Continue] by auto
    ultimately show ?thesis
      using "1.IH" [of f] "1.prems" Continue
      by (auto simp: run_loop.simps [of "pg_rt prog" e] intro: converse_rtranclp_into_rtranclp)
  next
    case (Return r' f)
    with "1.prems" have "routine_step prog (Serving e, e_world e) (Finished r, pg_after prog r (e_world e'))"
      by (simp add: routine_step_def assms(1) e run_loop.simps [of "pg_rt prog" e])
    then show ?thesis ..
  qed (use "1.prems" in \<open>simp add: run_loop.simps [of "pg_rt prog" e]\<close>)
qed

text \<open>The goroutine of the model is \<open>handleConnection\<close>: left alone, it goes through exactly the
  session that one call of it runs, and ends with the same world.\<close>

lemma goroutine_is_handleConnection:
  assumes "rt_CtxDone rt = (\<lambda>w. (None, w))" and "handleConnection rt (minimal_config rt) conn w = Some (Inr w')"
  shows "\<exists>r. (routine_step (minimal_program rt))\<^sup>*\<^sup>* (Spawned conn, w) (Finished r, w')"
proof -
  let ?prog = "minimal_program rt"
  obtain opts t where conn: "conn = (opts, t)" by fastforce
  let ?e = "NewEngine (lift_rt rt) (NetEndpoint t) (minimal_config rt) opts w"
  have prog: "pg_rt ?prog = lift_rt rt" "pg_config ?prog = minimal_config rt" "pg_after ?prog = after_session"
    by (simp_all add: minimal_program_def)
  note ctx = ctx_rt_never [OF assms(1)]
  from assms(2) conn obtain r e' where run: "Run (lift_rt rt) ?e = Some (Inr (r, e'))" and w': "w' = after_session r (e_world e')"
    by (auto simp: handleConnection_def split: option.splits sum.splits)
  have start: "routine_step ?prog (Spawned conn, w) (settle after_session w (Run_start (lift_rt rt) ?e))"
    by (simp add: routine_step_def conn prog ctx Let_def)
  show ?thesis
  proof (cases "Run_start (lift_rt rt) ?e")
    case (Continue f)
    with run have "run_loop (pg_rt ?prog) f = Some (Inr (r, e'))" by (simp add: Run_by_steps prog)
    from run_loop_routine [OF _ this] start Continue show ?thesis
      by (auto simp: prog ctx w' intro: converse_rtranclp_into_rtranclp)
  next
    case (Return r' f)
    with run start show ?thesis by (auto simp: Run_by_steps w')
  qed (use run in \<open>simp add: Run_by_steps\<close>)
qed

section \<open>Schedules\<close>

text \<open>A schedule is a list of events; one that is not possible is skipped.\<close>

datatype event = Accept | Advance nat | Signal | CloseListener | Exit

fun perform :: "('b, 'w) Program \<Rightarrow> event \<Rightarrow> ('b, 'w) Server \<Rightarrow> ('b, 'w) Server" where
  "perform prog Accept s =
     (if up s \<and> s_listening s then
        (case s_accepts s of
           Inr conn # rest \<Rightarrow> s\<lparr>s_accepts := rest, s_routines := s_routines s @ [Spawned conn]\<rparr>
         | _ \<Rightarrow> s)
      else s)"
| "perform prog (Advance i) s =
     (if up s \<and> i < length (s_routines s) then
        (case advance_routine prog (s_cancelled s) (s_world s) (s_routines s ! i) of
           Some (g, w) \<Rightarrow> s\<lparr>s_routines := (s_routines s)[i := g], s_world := w\<rparr>
         | None \<Rightarrow> s)
      else s)"
| "perform prog Signal s =
     (case pg_signal prog of
        Some f \<Rightarrow> if up s \<and> \<not> s_cancelled s then s\<lparr>s_cancelled := True, s_world := f (s_world s)\<rparr> else s
      | None \<Rightarrow> s)"
| "perform prog CloseListener s = (if up s \<and> s_cancelled s \<and> s_listening s then s\<lparr>s_listening := False\<rparr> else s)"
| "perform prog Exit s = (if up s \<and> s_cancelled s \<and> \<not> s_listening s then s\<lparr>s_main := False\<rparr> else s)"

lemma perform_step: "perform prog ev s = s \<or> server_step prog s (perform prog ev s)"
  by (cases ev)
    (auto intro: server_step.intros split: option.split list.split sum.split)

lemma schedule_reachable: "(server_step prog)\<^sup>*\<^sup>* s (fold (perform prog) evs s)"
proof (induction evs arbitrary: s)
  case (Cons ev evs)
  show ?case
    using perform_step [of prog ev s] Cons.IH [of "perform prog ev s"]
    by (auto intro: converse_rtranclp_into_rtranclp)
qed simp

section \<open>Sample runs\<close>

definition sample_env :: "unit ServerEnv" where
  "sample_env = \<lparr>sv_log = [], sv_tls = \<lparr>rp_certFile = [], rp_keyFile = [], rp_config = None, rp_policy = TLSDisabled\<rparr>,
     sv_env = ()\<rparr>"

definition client_script :: "string list \<Rightarrow> connection" where
  "client_script ls = ([WithClientAddr ''1.2.3.4:25''], \<lparr>tr_reads = [(crlf_lines ls, None)], tr_writes = [],
     tr_sent = [], tr_rdeadline = None, tr_wdeadline = None, tr_closed = False\<rparr>)"

definition two_clients :: "(goerror + connection) list" where
  "two_clients =
     [Inr (client_script [''HELO a'', ''MAIL FROM:<x@ok.example>'', ''RCPT TO:<help@example.com>'', ''DATA'', ''hi'', ''.'']),
      Inr (client_script [''HELO b'', ''MAIL FROM:<x@spam.example>'', ''RCPT TO:<user@example.com>'', ''DATA''])]"

text \<open>The sessions of the two clients in turns.\<close>

definition in_turns :: "event list" where
  "in_turns = [Accept, Accept, Advance 0, Advance 1, Advance 0, Advance 1]"

fun launched :: "'v launch \<Rightarrow> event list \<Rightarrow> (unit, 'v ServerWorld) Server option" where
  "launched (Inr (prog, s0)) evs = Some (fold (perform prog) evs s0)"
| "launched (Inl _) evs = None"

lemma launched_reachable:
  assumes "launched l evs = Some s"
  obtains prog s0 where "l = Inr (prog, s0)" "(server_step prog)\<^sup>*\<^sup>* s0 s"
  using assms by (cases "(l, evs)" rule: launched.cases) (auto intro: schedule_reachable)

text \<open>How many sessions a state has, and how many of them have identified their client.\<close>

fun identified :: "('b, 'w) goroutine \<Rightarrow> bool" where
  "identified (Serving e) = (sm_state (e_sm e) = StateIdentified)"
| "identified _ = False"

definition both_identified :: "'v launch \<Rightarrow> bool" where
  "both_identified l = (case launched l in_turns of
     Some s \<Rightarrow> map identified (s_routines s) = [True, True] | None \<Rightarrow> False)"

theorem every_connection_served_witness:
  "\<exists>s t. launched (custom_main id rt_const None two_clients sample_env) in_turns = Some s
    \<and> (runs_on (custom_program id (env_rt rt_const)))\<^sup>*\<^sup>* s t \<and> list_all returned (s_routines t) \<and> length (s_routines t) = 2"
proof -
  have "case launched (custom_main id rt_const None two_clients sample_env) in_turns of
      Some s \<Rightarrow> \<not> s_cancelled s | None \<Rightarrow> False" by code_simp
  then obtain s where s: "launched (custom_main id rt_const None two_clients sample_env) in_turns = Some s" "\<not> s_cancelled s"
    by (auto split: option.splits)
  from s(1) obtain prog s0 where main: "custom_main id rt_const None two_clients sample_env = Inr (prog, s0)"
    and run: "(server_step prog)\<^sup>*\<^sup>* s0 s"
    by (rule launched_reachable)
  have "prog = custom_program id (env_rt rt_const)" using main by (auto simp: custom_main_def launch_def)
  moreover have "length (connections two_clients) = 2" by (simp add: two_clients_def)
  ultimately show ?thesis
    using every_connection_served [OF disjI1 [OF main] run s(2)] s(1) by auto
qed

theorem custom_policy_enforced_witness:
  "\<exists>s. launched (custom_main id rt_const None two_clients sample_env) in_turns = Some s
    \<and> map identified (s_routines s) = [True, True] \<and> \<not> list_ex crashed (s_routines s)
    \<and> (\<forall>i msg. Get (mw_Storage (s_world s)) i = Some msg \<longrightarrow> RecipientCount (msg_Envelope msg) \<le> 50)"
proof -
  have "both_identified (custom_main id rt_const None two_clients sample_env)" by code_simp
  then obtain s where s: "launched (custom_main id rt_const None two_clients sample_env) in_turns = Some s"
    "map identified (s_routines s) = [True, True]"
    by (auto simp: both_identified_def split: option.splits)
  from s(1) obtain prog s0 where "custom_main id rt_const None two_clients sample_env = Inr (prog, s0)"
    "(server_step prog)\<^sup>*\<^sup>* s0 s"
    by (rule launched_reachable)
  from custom_policy_enforced [OF this] s show ?thesis
    by (intro exI [of _ s]) (simp add: Let_def)
qed

theorem catch_all_servers_no_relay_witness:
  "\<exists>s. launched (minimal_main rt_const None two_clients sample_env) in_turns = Some s
    \<and> map identified (s_routines s) = [True, True] \<and> \<not> list_ex crashed (s_routines s)
    \<and> (\<forall>i msg. Get (mw_Storage (s_world s)) i = Some msg \<longrightarrow> env_recipients (msg_Envelope msg) \<noteq> [])"
proof -
  have "both_identified (minimal_main rt_const None two_clients sample_env)" by code_simp
  then obtain s where s: "launched (minimal_main rt_const None two_clients sample_env) in_turns = Some s"
    "map identified (s_routines s) = [True, True]"
    by (auto simp: both_identified_def split: option.splits)
  from s(1) obtain prog s0 where main: "minimal_main rt_const None two_clients sample_env = Inr (prog, s0)"
    and run: "(server_step prog)\<^sup>*\<^sup>* s0 s"
    by (rule launched_reachable)
  from catch_all_servers_no_relay [OF disjI1, OF conjI [OF main refl] run] s show ?thesis
    by (intro exI [of _ s]) simp
qed

theorem tls_server_keeps_certificate_witness:
  "\<exists>s c cert. launched (tls_main rt_const False (\<lambda>_ _. Inr (Certificate [''x''])) None two_clients
      [\<lambda>_ _. Inl (ErrNew ''no such file'')] sample_env) in_turns = Some s
    \<and> fst (server_tls (s_world s)) = Inr c \<and> tc_Certificates c = [cert]"
proof -
  let ?main = "tls_main rt_const False (\<lambda>_ _. Inr (Certificate [''x''])) None two_clients
      [\<lambda>_ _. Inl (ErrNew ''no such file'')] sample_env"
  obtain s where s: "launched ?main in_turns = Some s"
    by (simp add: tls_main_def NewReloadableTLSProvider_def Reload_def launch_def)
  then obtain prog s0 where "?main = Inr (prog, s0)" "(server_step prog)\<^sup>*\<^sup>* s0 s" by (rule launched_reachable)
  from tls_server_keeps_certificate [OF this] s show ?thesis by blast
qed

theorem cancelled_session_stops_witness:
  "\<exists>w'. advance_routine (minimal_program (env_rt rt_const)) True (fresh_world NewMailbox sample_env)
       (Serving (NewEngine (lift_rt (env_rt rt_const)) (NetEndpoint (snd (client_script [''HELO a''])))
          (minimal_config (env_rt rt_const)) [] (fresh_world NewMailbox sample_env)))
     = Some (Finished (Some CtxCanceled), w')"
proof -
  let ?w = "fresh_world NewMailbox sample_env"
  let ?e = "NewEngine (lift_rt (env_rt rt_const)) (NetEndpoint (snd (client_script [''HELO a''])))
      (minimal_config (env_rt rt_const)) [] ?w"
  obtain g w' where adv: "advance_routine (minimal_program (env_rt rt_const)) True ?w (Serving ?e) = Some (g, w')"
    using live_advances [of "Serving ?e" "minimal_program (env_rt rt_const)" True ?w] by force
  have "\<not> e_closed ?e" by (simp add: NewEngine_def NewEngineFromNetConn_def NewEngine_fields(5) [OF refl])
  with cancelled_session_stops [OF adv] adv show ?thesis by auto
qed

theorem shutdown_does_not_wait_witness:
  "\<exists>s s'. launched (minimal_main rt_const None two_clients sample_env) in_turns = Some s
    \<and> (server_step (minimal_program (env_rt rt_const)))\<^sup>*\<^sup>* s s' \<and> \<not> s_main s'
    \<and> map identified (s_routines s') = [True, True]"
proof -
  have "both_identified (minimal_main rt_const None two_clients sample_env)
      \<and> (case launched (minimal_main rt_const None two_clients sample_env) in_turns of Some s \<Rightarrow> up s | None \<Rightarrow> False)"
    by code_simp
  then obtain s where s: "launched (minimal_main rt_const None two_clients sample_env) in_turns = Some s"
    "map identified (s_routines s) = [True, True]" "up s"
    by (auto simp: both_identified_def split: option.splits)
  have "pg_signal (minimal_program (env_rt rt_const)) = Some (log_Printf ''Shutting down...'')"
    by (simp add: minimal_program_def)
  from shutdown_does_not_wait [OF s(3) this] s show ?thesis by metis
qed

end
