(* ===== verification/Engine_Lines.thy ===== *)
theory Engine_Lines
  imports Server
begin

text \<open>
  The engine line by line. On a pipe that is fed while the session runs, the engine stops wherever
  it needs a line that has not been written yet: at the top of the loop of \<open>Run\<close>, or, in the middle
  of an iteration, in the loop of \<open>streamData\<close>. A \<open>routine\<close> is a session that has got to one of
  these places, and \<open>advance_lines\<close> takes it to the next. The iteration of a DATA command is thereby
  cut into its beginning, one piece for each line of the message, and its end; put together again
  they are \<open>run_step\<close>.
\<close>

section \<open>The pieces of the data phase\<close>

text \<open>An iteration up to the loop of \<open>streamData\<close>, if it gets there: the writer, the timeout, the
  builder and the engine the loop starts with.\<close>

definition data_opened ::
    "'w Runtime \<Rightarrow> ('b, 'w) Engine \<Rightarrow> (nat \<times> duration \<times> ('b, 'w) EnvelopeBuilder \<times> ('b, 'w) Engine) option" where
  "data_opened rt e =
     (case readLine rt (command_timeout (Limits (e_config e))) (snd (ctx_done rt e)) of
        (Inl _, _) \<Rightarrow> None
      | (Inr line, e1) \<Rightarrow>
          (let e2 = e1\<lparr>e_stats := (e_stats e1)\<lparr>CommandCount := i64 (CommandCount (e_stats e1) + 1)\<rparr>\<rparr> in
           case ParseCommand (rt_Unicode rt) (e_maxCommandLength e2) line of
             Inl _ \<Rightarrow> None
           | Inr cmd \<Rightarrow>
               (case command_hook cmd e2 of
                  (Some _, _) \<Rightarrow> None
                | (None, e3) \<Rightarrow>
                    if cmd_Verb cmd \<noteq> CmdDATA \<or> \<not> sm_IsCommandAllowed CmdDATA (e_sm e3) then None
                    else
                     (case writeResponse ResponseStartMailInput
                         (run_hook OnDataStart (set_state StateData (sm_command CmdDATA e3))) of
                        (Some _, _) \<Rightarrow> None
                      | (None, e4) \<Rightarrow>
                          (case e_envelope e4 of
                             None \<Rightarrow> None
                           | Some b \<Rightarrow>
                               (case eb_DataWriter b (e_world e4) of
                                  ((Inl _, _), _) \<Rightarrow> None
                                | ((Inr wr, b1), w1) \<Rightarrow>
                                    (case engine_now rt (e4\<lparr>e_world := w1\<rparr>) of
                                       (t, e5) \<Rightarrow>
                                         Some (wr, data_timeout (Limits (e_config e4)), b1,
                                           set_read_deadline (Some (t + data_timeout (Limits (e_config e4)))) e5)))))))) "

text \<open>One iteration of the loop: go on with a new count, builder and engine, or leave the loop.\<close>

definition data_line ::
    "'w Runtime \<Rightarrow> nat \<Rightarrow> duration \<Rightarrow> int \<Rightarrow> ('b, 'w) EnvelopeBuilder \<Rightarrow> ('b, 'w) Engine
      \<Rightarrow> (int \<times> ('b, 'w) EnvelopeBuilder \<times> ('b, 'w) Engine)
         + (int \<times> goerror option) \<times> ('b, 'w) EnvelopeBuilder \<times> ('b, 'w) Engine" where
  "data_line rt wr timeout totalBytes b e =
     (case read_data_line rt timeout e of
        (Inl err, e1) \<Rightarrow> Inr ((totalBytes, Some err), b, e1)
      | (Inr line, e1) \<Rightarrow>
          if IsTerminator line then Inr ((totalBytes, None), b, e1)
          else if line_too_long (Limits (e_config e1)) line then Inr ((totalBytes, Some ErrLineTooLong), b, e1)
          else if message_too_large (Limits (e_config e1)) totalBytes (UnstuffLine line) then
            Inr ((totalBytes, Some ErrMessageTooLarge), b, e1)
          else
           (case eb_Write wr (UnstuffLine line) b (e_world e1) of
              (((n, Some err), b'), w) \<Rightarrow> Inr ((totalBytes, Some err), b', e1\<lparr>e_world := w\<rparr>)
            | (((n, None), b'), w) \<Rightarrow> Inl (i64 (totalBytes + int n), b', e1\<lparr>e_world := w\<rparr>)))"

text \<open>What follows the loop, to the end of the iteration.\<close>

definition data_closed ::
    "'w Runtime \<Rightarrow> nat \<Rightarrow> (int \<times> goerror option) \<times> ('b, 'w) EnvelopeBuilder \<times> ('b, 'w) Engine
      \<Rightarrow> ('b, 'w) iteration" where
  "data_closed rt wr = (\<lambda>((totalBytes, res), b, e).
     let e2 = set_read_deadline None e;
         (resp, e3) =
           (case res of
              Some err \<Rightarrow>
                abandon_data (data_error_response err) (e2\<lparr>e_world := snd (eb_Close wr b (e_world e2))\<rparr>)
            | None \<Rightarrow> finish_data wr b e2)
     in case send_reply resp e3 of
          (Some err, e4) \<Rightarrow> after_error rt err e4
        | (None, e4) \<Rightarrow> Continue e4)"

lemma stream_loop_lines:
  "stream_loop rt wr timeout n b e =
     (case data_line rt wr timeout n b e of
        Inl (n', b', e') \<Rightarrow> stream_loop rt wr timeout n' b' e' | Inr r \<Rightarrow> r)"
  by (subst stream_loop.simps) (simp add: data_line_def split: prod.split sum.split option.split)

definition needs_line :: "'w Runtime \<Rightarrow> ('b, 'w) Engine \<Rightarrow> bool" where
  "needs_line rt e \<longleftrightarrow> fst (ctx_done rt e) = None \<and> \<not> IsTerminal (sm_state (e_sm e))
     \<and> ss_State (e_state e) \<noteq> StateStartTLS"

lemma e_world_set_read_deadline [simp]: "e_world (set_read_deadline d e) = e_world e"
  by (simp add: set_read_deadline_def)

text \<open>The pieces make up the iteration.\<close>

lemma run_step_pieces:
  assumes "needs_line rt e" and "data_opened rt e = Some (wr, timeout, b, f)"
  shows "run_step rt e = data_closed rt wr (stream_loop rt wr timeout 0 b f)"
proof -
  obtain e0 where e0: "ctx_done rt e = (None, e0)" "e_config e0 = e_config e" "e_sm e0 = e_sm e" "e_state e0 = e_state e"
    using assms(1) by (auto simp: needs_line_def ctx_done_def split: prod.splits)
  obtain line e1 cmd e3 e4 b0 w1 t e5 where
    rd: "readLine rt (command_timeout (Limits (e_config e))) e0 = (Inr line, e1)" and
    parse: "ParseCommand (rt_Unicode rt) (e_maxCommandLength e1) line = Inr cmd" and
    hook: "command_hook cmd (e1\<lparr>e_stats := (e_stats e1)\<lparr>CommandCount := i64 (CommandCount (e_stats e1) + 1)\<rparr>\<rparr>) = (None, e3)" and
    verb: "cmd_Verb cmd = CmdDATA" "sm_IsCommandAllowed CmdDATA (e_sm e3)" and
    begun: "writeResponse ResponseStartMailInput (run_hook OnDataStart (set_state StateData (sm_command CmdDATA e3))) = (None, e4)" and
    env: "e_envelope e4 = Some b0" "eb_DataWriter b0 (e_world e4) = ((Inr wr, b), w1)" and
    now: "engine_now rt (e4\<lparr>e_world := w1\<rparr>) = (t, e5)" and
    f: "f = set_read_deadline (Some (t + timeout)) e5" and timeout: "timeout = data_timeout (Limits (e_config e4))"
    using assms(2) e0(1)
    by (auto simp: data_opened_def Let_def split: prod.splits sum.splits option.splits if_splits)
  obtain n x b2 g where loop: "stream_loop rt wr timeout 0 b f = ((n, x), b2, g)" by (metis prod.exhaust)
  have stream: "streamData rt wr timeout b (e4\<lparr>e_world := w1\<rparr>) = ((n, x), b2, set_read_deadline None g)"
    using loop by (simp add: streamData_def now f)
  let ?fin = "\<lambda>e2. case x of Some err \<Rightarrow>
      abandon_data (data_error_response err) (e2\<lparr>e_world := snd (eb_Close wr b2 (e_world e2))\<rparr>)
    | None \<Rightarrow> finish_data wr b2 e2"
  have "handleDATA rt cmd e3 = Inr (?fin (set_read_deadline None g))"
    using stream env timeout
    by (auto simp: handleDATA_def begun receive_data_def data_timeout_def case_prod_beta split: option.split)
  then have "dispatch rt cmd (e1\<lparr>e_stats := (e_stats e1)\<lparr>CommandCount := i64 (CommandCount (e_stats e1) + 1)\<rparr>\<rparr>)
      = Inr (case ?fin (set_read_deadline None g) of (resp, e2) \<Rightarrow> send_reply resp e2)"
    using verb by (simp add: dispatch_def hook handleCommand_def split: prod.split)
  then have "processOneCommand rt e0 = Inr (case ?fin (set_read_deadline None g) of (resp, e2) \<Rightarrow> send_reply resp e2)"
    using rd parse e0(2) by (simp add: processOneCommand_def Let_def)
  with e0 assms(1) loop show ?thesis
    by (simp add: run_step_def needs_line_def data_closed_def Let_def split: prod.split option.split)
qed

section \<open>Sessions between two lines\<close>

text \<open>A session has yet to start, is at the top of the loop of \<open>Run\<close>, is in the loop of \<open>streamData\<close>,
  has returned, or has panicked.\<close>

datatype (dead 'b, dead 'w) routine =
    Unstarted "('b, 'w) Engine"
  | AtCommand "('b, 'w) Engine"
  | AtData nat duration int "('b, 'w) EnvelopeBuilder" "('b, 'w) Engine"
  | Over "goerror option" "('b, 'w) Engine"
  | Dead go_panic

fun settled :: "('b, 'w) iteration \<Rightarrow> ('b, 'w) routine" where
  "settled (Continue e) = AtCommand e"
| "settled (Return r e) = Over r e"
| "settled (Panicked p) = Dead p"

fun routine_engine :: "('b, 'w) routine \<Rightarrow> ('b, 'w) Engine option" where
  "routine_engine (Unstarted e) = Some e"
| "routine_engine (AtCommand e) = Some e"
| "routine_engine (AtData _ _ _ _ e) = Some e"
| "routine_engine (Over _ e) = Some e"
| "routine_engine (Dead _) = None"

text \<open>The engine with new input before it and nothing sent yet, and what a session has sent since.\<close>

fun refill :: "bytes \<Rightarrow> Conn \<Rightarrow> Conn" where
  "refill d (Net c) = Net (c\<lparr>nc_conn := (nc_conn c)\<lparr>tr_reads := (if d = [] then [] else [(d, None)]), tr_sent := []\<rparr>\<rparr>)"
| "refill d (Pipe c) = Pipe (c\<lparr>pc_rw := (pc_rw c)\<lparr>tr_reads := (if d = [] then [] else [(d, None)]), tr_sent := []\<rparr>\<rparr>)"

definition feed :: "bytes \<Rightarrow> ('b, 'w) Engine \<Rightarrow> ('b, 'w) Engine" where
  "feed d e = e\<lparr>e_conn := (e_conn e)\<lparr>bc_conn := refill d (bc_conn (e_conn e))\<rparr>\<rparr>"

definition said :: "('b, 'w) routine \<Rightarrow> bytes" where
  "said g = (case routine_engine g of None \<Rightarrow> [] | Some e \<Rightarrow> sent e)"

text \<open>Whether the next piece of a session begins with reading a line, and the piece itself, given
  what there is to read.\<close>

fun thirsty :: "'w Runtime \<Rightarrow> ('b, 'w) routine \<Rightarrow> bool" where
  "thirsty rt (AtCommand e) = needs_line rt e"
| "thirsty rt (AtData wr timeout n b e) = (fst (ctx_done rt e) = None)"
| "thirsty rt _ = False"

fun piece :: "'w Runtime \<Rightarrow> bytes \<Rightarrow> ('b, 'w) routine \<Rightarrow> ('b, 'w) routine option" where
  "piece rt d (Unstarted e) = Some (settled (Run_start rt (feed d e)))"
| "piece rt d (AtCommand e) =
     Some (case (if needs_line rt e then data_opened rt (feed d e) else None) of
             Some (wr, timeout, b, f) \<Rightarrow> AtData wr timeout 0 b f
           | None \<Rightarrow> settled (run_step rt (feed d e)))"
| "piece rt d (AtData wr timeout n b e) =
     Some (case data_line rt wr timeout n b (feed d e) of
             Inl (n', b', f) \<Rightarrow> AtData wr timeout n' b' f
           | Inr r \<Rightarrow> settled (data_closed rt wr r))"
| "piece rt d _ = None"

text \<open>The first line of what has been written to a pipe, and the rest.\<close>

definition next_line :: "bytes \<Rightarrow> (bytes \<times> bytes) option" where
  "next_line buf =
     (case index_of CHR 0x0A buf of None \<Rightarrow> None | Some i \<Rightarrow> Some (take (i + 1) buf, drop (i + 1) buf))"

definition advance_lines :: "'w Runtime \<Rightarrow> bytes \<Rightarrow> ('b, 'w) routine \<Rightarrow> (bytes \<times> ('b, 'w) routine) option" where
  "advance_lines rt buf g =
     (if thirsty rt g then
        (case next_line buf of
           None \<Rightarrow> None
         | Some (line, rest) \<Rightarrow> map_option (\<lambda>g'. (rest, g')) (piece rt line g))
      else map_option (\<lambda>g'. (buf, g')) (piece rt [] g))"

lemma next_line_append: "next_line buf = Some (line, rest) \<Longrightarrow> next_line (buf @ later) = Some (line, rest @ later)"
proof -
  assume "next_line buf = Some (line, rest)"
  then obtain i where i: "index_of CHR 0x0A buf = Some i" "line = take (i + 1) buf" "rest = drop (i + 1) buf"
    by (auto simp: next_line_def split: option.splits)
  then have "i < length buf" by (simp add: index_of_Some)
  moreover from this i(1) have "index_of CHR 0x0A (buf @ later) = Some i"
    by (auto simp: index_of_Some nth_append)
  ultimately show ?thesis using i(2,3) by (simp add: next_line_def)
qed

text \<open>What is written later does not change what a session does with what was written before.\<close>

lemma advance_lines_append:
  "advance_lines rt buf g = Some (rest, g') \<Longrightarrow> advance_lines rt (buf @ later) g = Some (rest @ later, g')"
  by (auto simp: advance_lines_def next_line_append split: if_splits option.splits)

lemma next_line_length: "next_line buf = Some (line, rest) \<Longrightarrow> length rest < length buf"
  by (auto simp: next_line_def index_of_Some split: option.splits)

section \<open>Every piece makes progress\<close>

text \<open>How far a session is from its end, apart from the lines it has still to read.\<close>

definition upgrades_left :: "('b, 'w) Engine \<Rightarrow> nat" where
  "upgrades_left e = (if ss_TLSActive (e_state e) then 0 else 3)"

fun patience :: "('b, 'w) routine \<Rightarrow> nat" where
  "patience (Unstarted e) = 5"
| "patience (AtCommand e) = Suc (tls_rank e)"
| "patience (AtData _ _ _ _ e) = Suc (upgrades_left e)"
| "patience _ = 0"

fun midway :: "('b, 'w) routine \<Rightarrow> nat" where
  "midway (AtData _ _ _ _ _) = 1"
| "midway _ = 0"

lemma feed_fields [simp]:
  "e_config (feed d e) = e_config e" "e_sm (feed d e) = e_sm e" "e_state (feed d e) = e_state e"
  "e_stats (feed d e) = e_stats e" "e_envelope (feed d e) = e_envelope e" "e_world (feed d e) = e_world e"
  "e_maxCommandLength (feed d e) = e_maxCommandLength e" "e_closed (feed d e) = e_closed e"
  "tls_rank (feed d e) = tls_rank e" "needs_line rt (feed d e) = needs_line rt e"
  by (simp_all add: feed_def tls_rank_def needs_line_def ctx_done_def split: prod.split)

lemma keeps_upgrades: "keeps e e' \<Longrightarrow> upgrades_left e' = upgrades_left e"
  by (simp add: keeps_def upgrades_left_def)

lemma tls_rank_upgrades: "ss_State (e_state e) \<noteq> StateStartTLS \<Longrightarrow> tls_rank e = upgrades_left e"
  by (simp add: tls_rank_def upgrades_left_def)

lemma keeps_command_hook [simp]: "keeps e (snd (command_hook cmd e')) = keeps e e'"
  by (simp add: command_hook_def case_prod_beta split: option.split)

lemma data_opened_keeps:
  assumes "data_opened rt e = Some (wr, timeout, b, f)"
  shows "keeps e f"
proof -
  let ?e1 = "snd (readLine rt (command_timeout (Limits (e_config e))) (snd (ctx_done rt e)))"
  have "keeps e ?e1" by (rule keeps_trans [OF _ readLine_keeps]) simp
  then show ?thesis
    using assms
    by (auto simp: data_opened_def Let_def case_prod_beta split: sum.splits option.splits if_splits)
qed

lemma data_line_keeps:
  "data_line rt wr timeout n b e = Inl (n', b', f) \<Longrightarrow> keeps e f"
  "data_line rt wr timeout n b e = Inr (r, b', f) \<Longrightarrow> keeps e f"
  using keeps_read_data_line [of e rt timeout]
  by (auto simp: data_line_def case_prod_beta split: sum.splits option.splits if_splits)

lemma data_closed_Continue:
  assumes "data_closed rt wr ((n, x), b, e) = Continue f"
  shows "keeps e f" and "ss_State (e_state f) = StateIdentified"
proof -
  let ?e2 = "set_read_deadline None e"
  let ?r = "case x of Some err \<Rightarrow> abandon_data (data_error_response err) (?e2\<lparr>e_world := snd (eb_Close wr b (e_world ?e2))\<rparr>)
    | None \<Rightarrow> finish_data wr b ?e2"
  have f: "f = snd (send_reply (fst ?r) (snd ?r))"
    using assms by (auto simp: data_closed_def Let_def case_prod_beta split: option.splits dest: after_error_Continue)
  have r: "keeps e (snd ?r)" "ss_State (e_state (snd ?r)) = StateIdentified"
    by (simp_all add: abandon_data_def split: option.split)
  then show "keeps e f" "ss_State (e_state f) = StateIdentified" unfolding f by simp_all
qed

lemma idle_run_step:
  assumes "\<not> needs_line rt e" and "run_step rt e = Continue f"
  shows "tls_rank f < tls_rank e"
proof -
  obtain d e1 where c: "ctx_done rt e = (d, e1)" by fastforce
  then have e1: "e_state e1 = e_state e" "e_sm e1 = e_sm e" by (auto simp: ctx_done_def split: prod.splits)
  with assms c have tls: "ss_State (e_state e) = StateStartTLS" and "performTLSUpgrade rt e1 = Inr (None, f)"
    by (auto simp: run_step_def needs_line_def leave_def split: option.splits sum.splits prod.splits if_splits)
  from performTLSUpgrade_active [OF this(2)] tls show ?thesis by (simp add: tls_rank_def)
qed

lemma patience_settled:
  "patience (settled it) \<le> n" if "\<And>f. it = Continue f \<Longrightarrow> tls_rank f < n"
  using that by (cases it) (simp_all add: Suc_leI)

lemma midway_settled [simp]: "midway (settled it) = 0"
  by (cases it) simp_all

lemma piece_patience:
  assumes "piece rt d g = Some g'"
  shows "patience g' \<le> patience g
    \<and> (thirsty rt g \<or> patience g' < patience g \<or> midway g' < midway g)"
proof (cases g)
  case (Unstarted e)
  have "patience (settled (Run_start rt (feed d e))) \<le> 4"
    by (rule patience_settled) (simp add: tls_rank_def)
  with assms Unstarted show ?thesis by auto
next
  case (AtCommand e)
  show ?thesis
  proof (cases "if needs_line rt e then data_opened rt (feed d e) else None")
    case None
    with assms AtCommand have g': "g' = settled (run_step rt (feed d e))" by auto
    have "patience g' \<le> Suc (tls_rank e)"
      unfolding g' using run_step_Continue [of rt "feed d e"] by (intro patience_settled) auto
    moreover have "patience g' \<le> tls_rank e" if "\<not> needs_line rt e"
      unfolding g' using idle_run_step [of rt "feed d e"] that by (intro patience_settled) auto
    ultimately show ?thesis using AtCommand by (auto simp: less_Suc_eq_le)
  next
    case (Some r)
    then obtain wr t b f where op: "needs_line rt e" "data_opened rt (feed d e) = Some (wr, t, b, f)"
      by (cases r) (auto split: if_splits)
    from keeps_upgrades [OF data_opened_keeps [OF op(2)]] op(1) tls_rank_upgrades [of e]
    have "upgrades_left f = tls_rank e" by (simp add: needs_line_def upgrades_left_def)
    with assms AtCommand op show ?thesis by auto
  qed
next
  case (AtData wr t n b e)
  show ?thesis
  proof (cases "data_line rt wr t n b (feed d e)")
    case (Inl r)
    then obtain n' b' f where l: "data_line rt wr t n b (feed d e) = Inl (n', b', f)" by (cases r) auto
    then have "thirsty rt g"
      using AtData by (auto simp: data_line_def read_data_line_def ctx_done_def split: prod.splits option.splits)
    with assms AtData l keeps_upgrades [OF data_line_keeps(1) [OF l]] show ?thesis by (auto simp: upgrades_left_def)
  next
    case (Inr r)
    then obtain m x b' f where l: "data_line rt wr t n b (feed d e) = Inr ((m, x), b', f)" by (cases r) auto
    have "tls_rank h = upgrades_left e" if "data_closed rt wr ((m, x), b', f) = Continue h" for h
      using keeps_upgrades [OF data_line_keeps(2) [OF l]] keeps_upgrades [OF data_closed_Continue(1) [OF that]]
        data_closed_Continue(2) [OF that] tls_rank_upgrades [of h] by (simp add: upgrades_left_def)
    then have "patience (settled (data_closed rt wr ((m, x), b', f))) \<le> Suc (upgrades_left e)"
      by (intro patience_settled) simp
    with assms AtData l show ?thesis by auto
  qed
qed (use assms in simp_all)

lemma advance_lines_less:
  assumes "advance_lines rt buf g = Some (rest, g')"
  shows "((patience g', length rest, midway g'), (patience g, length buf, midway g)) \<in> less_than <*lex*> less_than <*lex*> less_than"
  using assms next_line_length [of buf] piece_patience [of rt _ g g']
  by (fastforce simp: advance_lines_def split: if_splits option.splits)

end
