(* ===== verification/Harness.thy ===== *)
theory Harness
  imports Engine_Replies Mailbox Storage
begin

text \<open>
  The test harness of \<open>harness/harness.go\<close>: the in-memory pipe, the scripted client with its
  transcript, and the configuration that puts the in-memory mailbox and storage behind an
  engine.

  The harness talks to an engine that runs in another goroutine. A call that has to wait for it
  is modelled up to the point where it waits, with a value of its own (\<open>ReadWaits\<close>, \<open>LineWaits\<close>,
  \<open>ReplyWaits\<close>), and from the point where it is woken on. The locks are not modelled. The
  context and the clock are the runtime's.
\<close>

section \<open>The pipe\<close>

record PipeBuffer =
  pb_buf :: bytes
  pb_closed :: bool
  pb_readDeadline :: deadline

definition NewPipeBuffer :: PipeBuffer where
  "NewPipeBuffer = \<lparr>pb_buf = [], pb_closed = False, pb_readDeadline = None\<rparr>"

definition pb_Write :: "bytes \<Rightarrow> PipeBuffer \<Rightarrow> (nat \<times> goerror option) \<times> PipeBuffer" where
  "pb_Write data p =
     (if pb_closed p then ((0, Some ErrClosedPipe), p)
      else ((length data, None), p\<lparr>pb_buf := pb_buf p @ data\<rparr>))"

definition pb_Close :: "PipeBuffer \<Rightarrow> PipeBuffer" where
  "pb_Close p = p\<lparr>pb_closed := True\<rparr>"

definition pb_SetReadDeadline :: "deadline \<Rightarrow> PipeBuffer \<Rightarrow> PipeBuffer" where
  "pb_SetReadDeadline t p = p\<lparr>pb_readDeadline := t\<rparr>"

text \<open>\<open>Read\<close> takes a copy of the deadline first. From there it runs until it returns or waits
  (\<open>read_poll\<close>); when it is woken it looks at its copy of the deadline once more before it goes
  round (\<open>read_wake\<close>).\<close>

datatype read_result = ReadDone bytes "goerror option" | ReadWaits deadline

definition read_poll ::
    "'w Runtime \<Rightarrow> deadline \<Rightarrow> nat \<Rightarrow> PipeBuffer \<Rightarrow> 'w \<Rightarrow> (read_result \<times> PipeBuffer) \<times> 'w" where
  "read_poll rt deadline n p w =
     (if pb_buf p = [] \<and> \<not> pb_closed p then
        (case deadline of
           None \<Rightarrow> ((ReadWaits None, p), w)
         | Some d \<Rightarrow>
             (let (now, w1) = rt_Now rt w in
              if now > d then ((ReadDone [] (Some ErrDeadlineExceeded), p), w1)
              else
               (let (now2, w2) = rt_Now rt w1 in
                if d - now2 \<le> 0 then ((ReadDone [] (Some ErrDeadlineExceeded), p), w2)
                else ((ReadWaits deadline, p), w2))))
      else if pb_buf p = [] then ((ReadDone [] (Some EOF), p), w)
      else ((ReadDone (take n (pb_buf p)) None, p\<lparr>pb_buf := drop n (pb_buf p)\<rparr>), w))"

definition pb_Read :: "'w Runtime \<Rightarrow> nat \<Rightarrow> PipeBuffer \<Rightarrow> 'w \<Rightarrow> (read_result \<times> PipeBuffer) \<times> 'w" where
  "pb_Read rt n p w = read_poll rt (pb_readDeadline p) n p w"

definition read_wake ::
    "'w Runtime \<Rightarrow> deadline \<Rightarrow> nat \<Rightarrow> PipeBuffer \<Rightarrow> 'w \<Rightarrow> (read_result \<times> PipeBuffer) \<times> 'w" where
  "read_wake rt deadline n p w =
     (case deadline of
        None \<Rightarrow> read_poll rt deadline n p w
      | Some d \<Rightarrow>
          (let (now, w1) = rt_Now rt w in
           if now > d then ((ReadDone [] (Some ErrDeadlineExceeded), p), w1)
           else read_poll rt deadline n p w1))"

text \<open>\<open>ReadLine\<close> asks the context before each byte, then waits for the byte without asking it
  again (\<open>line_inner\<close>, which is also where a wait resumes).\<close>

datatype line_result = LineDone bytes "goerror option" | LineWaits bytes

fun line_inner ::
    "'w Runtime \<Rightarrow> bool \<Rightarrow> bytes \<Rightarrow> bytes \<Rightarrow> 'w \<Rightarrow> (line_result \<times> bytes) \<times> 'w" where
  "line_inner rt closed line [] w =
     ((if closed then LineDone line (Some EOF) else LineWaits line, []), w)"
| "line_inner rt closed line (b # buf) w =
     (if b = CHR 0x0A then ((LineDone (line @ [b]) None, buf), w)
      else
       (case rt_CtxDone rt w of
          (Some err, w1) \<Rightarrow> ((LineDone (line @ [b]) (Some err), buf), w1)
        | (None, w1) \<Rightarrow> line_inner rt closed (line @ [b]) buf w1))"

definition pb_ReadLine :: "'w Runtime \<Rightarrow> PipeBuffer \<Rightarrow> 'w \<Rightarrow> (line_result \<times> PipeBuffer) \<times> 'w" where
  "pb_ReadLine rt p w =
     (case rt_CtxDone rt w of
        (Some err, w1) \<Rightarrow> ((LineDone [] (Some err), p), w1)
      | (None, w1) \<Rightarrow>
          (case line_inner rt (pb_closed p) [] (pb_buf p) w1 of
             ((res, buf), w2) \<Rightarrow> ((res, p\<lparr>pb_buf := buf\<rparr>), w2)))"

section \<open>The transcript\<close>

datatype TranscriptDirection = DirectionClient | DirectionServer

record TranscriptEntry =
  te_Time :: int
  te_Direction :: TranscriptDirection
  te_Data :: bytes

type_synonym Transcript = "TranscriptEntry list"

definition NewTranscript :: Transcript where
  "NewTranscript = []"

definition RecordClient :: "'w Runtime \<Rightarrow> bytes \<Rightarrow> Transcript \<Rightarrow> 'w \<Rightarrow> Transcript \<times> 'w" where
  "RecordClient rt data t w =
     (case rt_Now rt w of
        (now, w') \<Rightarrow> (t @ [\<lparr>te_Time = now, te_Direction = DirectionClient, te_Data = data\<rparr>], w'))"

definition RecordServer :: "'w Runtime \<Rightarrow> bytes \<Rightarrow> Transcript \<Rightarrow> 'w \<Rightarrow> Transcript \<times> 'w" where
  "RecordServer rt data t w =
     (case rt_Now rt w of
        (now, w') \<Rightarrow> (t @ [\<lparr>te_Time = now, te_Direction = DirectionServer, te_Data = data\<rparr>], w'))"

definition Transcript_String :: "Transcript \<Rightarrow> bytes" where
  "Transcript_String t =
     concat (map (\<lambda>e. (if te_Direction e = DirectionClient then ''C: '' else ''S: '')
       @ TrimSuffix (te_Data e) CRLF @ [CHR 0x0A]) t)"

definition Entries :: "Transcript \<Rightarrow> TranscriptEntry list" where
  "Entries t = t"

section \<open>The client\<close>

record Client =
  h_Input :: PipeBuffer
  h_Output :: PipeBuffer
  h_Transcript :: Transcript

definition SendRaw :: "'w Runtime \<Rightarrow> bytes \<Rightarrow> Client \<Rightarrow> 'w \<Rightarrow> Client \<times> 'w" where
  "SendRaw rt data h w =
     (case RecordClient rt data (h_Transcript h) w of
        (t, w') \<Rightarrow> (h\<lparr>h_Input := snd (pb_Write data (h_Input h)), h_Transcript := t\<rparr>, w'))"

definition Send :: "'w Runtime \<Rightarrow> bytes \<Rightarrow> Client \<Rightarrow> 'w \<Rightarrow> Client \<times> 'w" where
  "Send rt line h w =
     (let data = line @ CRLF in
      case RecordClient rt data (h_Transcript h) w of
        (t, w') \<Rightarrow> (h\<lparr>h_Input := snd (pb_Write data (h_Input h)), h_Transcript := t\<rparr>, w'))"

definition stuff_text :: "bytes \<Rightarrow> bytes" where
  "stuff_text l =
     (let line = TrimSuffix l [CHR 0x0D] in if HasPrefix line ''.'' then ''.'' @ line else line)"

fun send_lines :: "'w Runtime \<Rightarrow> bytes list \<Rightarrow> Client \<Rightarrow> 'w \<Rightarrow> Client \<times> 'w" where
  "send_lines rt [] h w = (h, w)"
| "send_lines rt [l] h w = (if stuff_text l \<noteq> [] then Send rt (stuff_text l) h w else (h, w))"
| "send_lines rt (l # l' # ls) h w =
     (case Send rt (stuff_text l) h w of (h', w') \<Rightarrow> send_lines rt (l' # ls) h' w')"

definition SendData :: "'w Runtime \<Rightarrow> bytes \<Rightarrow> Client \<Rightarrow> 'w \<Rightarrow> Client \<times> 'w" where
  "SendData rt data h w =
     (case send_lines rt (Split CHR 0x0A data) h w of (h', w') \<Rightarrow> Send rt ''.'' h' w')"

text \<open>The two tests that end a reply.\<close>

definition last_line :: "bytes \<Rightarrow> bool" where
  "last_line line \<longleftrightarrow>
     length line \<ge> 4 \<and> line ! 3 = CHR '' '' \<or> length line \<le> 5 \<and> CHR ''-'' \<notin> set line"

datatype reply_result = ReplyDone "bytes list" "goerror option" | ReplyWaits "bytes list" bytes

lemma line_inner_shrinks:
  "line_inner rt closed line buf w = ((LineDone l None, buf'), w') \<Longrightarrow> length buf' < length buf"
  by (induction rt closed line buf w rule: line_inner.induct)
    (auto simp: less_Suc_eq split: if_splits prod.splits option.splits)

lemma pb_ReadLine_shrinks:
  "pb_ReadLine rt p w = ((LineDone l None, p'), w') \<Longrightarrow> length (pb_buf p') < length (pb_buf p)"
  by (auto simp: pb_ReadLine_def split: prod.splits option.splits dest!: line_inner_shrinks)

function readResponse ::
    "'w Runtime \<Rightarrow> bytes list \<Rightarrow> Client \<Rightarrow> 'w \<Rightarrow> (reply_result \<times> Client) \<times> 'w" where
  "readResponse rt lines h w =
     (case rt_CtxDone rt w of
        (Some err, w1) \<Rightarrow> ((ReplyDone lines (Some err), h), w1)
      | (None, w1) \<Rightarrow>
          (case pb_ReadLine rt (h_Output h) w1 of
             ((LineWaits part, p), w2) \<Rightarrow> ((ReplyWaits lines part, h\<lparr>h_Output := p\<rparr>), w2)
           | ((LineDone line (Some err), p), w2) \<Rightarrow>
               ((ReplyDone lines (Some err), h\<lparr>h_Output := p\<rparr>), w2)
           | ((LineDone line None, p), w2) \<Rightarrow>
               (case RecordServer rt line (h_Transcript h) w2 of
                  (t, w3) \<Rightarrow>
                    (let h' = h\<lparr>h_Output := p, h_Transcript := t\<rparr> in
                     if last_line line then ((ReplyDone (lines @ [line]) None, h'), w3)
                     else readResponse rt (lines @ [line]) h' w3))))"
  by pat_completeness auto
termination
  by (relation "measure (\<lambda>(rt, lines, h, w). length (pb_buf (h_Output h)))")
    (auto dest!: pb_ReadLine_shrinks [OF sym])

declare readResponse.simps [simp del]

text \<open>\<open>Expect\<close>: \<^const>\<open>None\<close> while it waits, else the lines and the error it returns. \<open>Sscanf\<close> skips
  blanks, and leaves the code 0 when there is no number.\<close>

definition scan_code :: "bytes \<Rightarrow> int" where
  "scan_code s =
     (case Sscanf_d (dropWhile (\<lambda>c. c \<noteq> CHR 0x0A \<and> IsSpace (of_char c)) s) of None \<Rightarrow> 0 | Some n \<Rightarrow> n)"

definition check_reply :: "ReplyCode \<Rightarrow> bytes list \<Rightarrow> bytes list \<times> goerror option" where
  "check_reply code lines =
     (if lines = [] then ([], Some (ErrNew ''empty response''))
      else
       (let lastLine = last lines in
        if length lastLine < 3 then ([], Some (ErrNew (''response too short: '' @ lastLine)))
        else
         (let gotCode = scan_code (take 3 lastLine) in
          if gotCode \<noteq> code then
            (lines, Some (ErrNew (''expected '' @ itoa code @ '', got '' @ itoa gotCode @ '': '' @ lastLine)))
          else (lines, None))))"

definition Expect ::
    "'w Runtime \<Rightarrow> ReplyCode \<Rightarrow> Client \<Rightarrow> 'w \<Rightarrow> ((bytes list \<times> goerror option) option \<times> Client) \<times> 'w" where
  "Expect rt code h w =
     (case readResponse rt [] h w of
        ((ReplyWaits _ _, h'), w') \<Rightarrow> ((None, h'), w')
      | ((ReplyDone lines (Some err), h'), w') \<Rightarrow> ((Some ([], Some err), h'), w')
      | ((ReplyDone lines None, h'), w') \<Rightarrow> ((Some (check_reply code lines), h'), w'))"

definition ExpectAny ::
    "'w Runtime \<Rightarrow> Client \<Rightarrow> 'w \<Rightarrow> ((bytes list \<times> goerror option) option \<times> Client) \<times> 'w" where
  "ExpectAny rt h w =
     (case readResponse rt [] h w of
        ((ReplyWaits _ _, h'), w') \<Rightarrow> ((None, h'), w')
      | ((ReplyDone lines e, h'), w') \<Rightarrow> ((Some (lines, e), h'), w'))"

section \<open>Reading lines\<close>

text \<open>A \<open>ReadLine\<close> that has to wait has not delivered a line; with that reading the pipe meets the
  contract of a line source, like the connections of the server.\<close>

definition line_view ::
    "'w Runtime \<Rightarrow> PipeBuffer \<times> 'w \<Rightarrow> (bytes \<times> goerror option) \<times> PipeBuffer \<times> 'w" where
  "line_view rt = (\<lambda>(p, w). case pb_ReadLine rt p w of
     ((LineDone d e, p'), w') \<Rightarrow> ((d, e), p', w')
   | ((LineWaits d, p'), w') \<Rightarrow> ((d, Some ErrNoProgress), p', w'))"

lemma line_inner_framing:
  "line_inner rt closed line buf w = ((res, buf'), w') \<Longrightarrow> CHR 0x0A \<notin> set line \<Longrightarrow>
     (case res of
        LineDone d None \<Rightarrow> (\<exists>b. d = line @ b @ [CHR 0x0A] \<and> CHR 0x0A \<notin> set b \<and> buf = b @ [CHR 0x0A] @ buf')
      | LineDone d (Some _) \<Rightarrow> (\<exists>b. d = line @ b \<and> CHR 0x0A \<notin> set b \<and> buf = b @ buf')
      | LineWaits d \<Rightarrow> (\<exists>b. d = line @ b \<and> CHR 0x0A \<notin> set b \<and> buf = b @ buf'))"
proof (induction buf arbitrary: line w)
  case (Cons c buf)
  show ?case
  proof (cases "c = CHR 0x0A")
    case False
    obtain x w1 where ctx: "rt_CtxDone rt w = (x, w1)" by fastforce
    show ?thesis
    proof (cases x)
      case None
      with Cons.prems False ctx Cons.IH [of "line @ [c]" w1] show ?thesis
        by (auto split: line_result.splits option.splits)
    qed (use Cons.prems False ctx in auto)
  qed (use Cons.prems in auto)
qed (auto split: if_splits)

lemma line_view_framing:
  assumes "line_view rt (p, w) = ((d, e), p', w')"
  shows "pb_buf p = d @ pb_buf p'
    \<and> (case e of None \<Rightarrow> \<exists>body. d = body @ [CHR 0x0A] \<and> CHR 0x0A \<notin> set body | Some _ \<Rightarrow> CHR 0x0A \<notin> set d)"
proof -
  obtain x w1 where ctx: "rt_CtxDone rt w = (x, w1)" by fastforce
  obtain res buf w2 where li: "line_inner rt (pb_closed p) [] (pb_buf p) w1 = ((res, buf), w2)"
    by (metis prod.exhaust)
  show ?thesis
    using assms ctx li line_inner_framing [OF li, simplified]
    by (auto simp: line_view_def pb_ReadLine_def split: option.splits line_result.splits)
qed

interpretation pipe_source: line_source "line_view rt" "\<lambda>(p, w). pb_buf p" for rt
  by unfold_locales (auto dest!: line_view_framing)

lemma line_inner_delivers:
  assumes "\<forall>w. fst (rt_CtxDone rt w) = None" and "CHR 0x0A \<notin> set b"
  shows "\<exists>w'. line_inner rt closed line (b @ CHR 0x0A # rest) w = ((LineDone (line @ b @ [CHR 0x0A]) None, rest), w')"
  using assms(2)
proof (induction b arbitrary: line w)
  case (Cons c b)
  have "rt_CtxDone rt w = (None, snd (rt_CtxDone rt w))" using assms(1) by (metis prod.collapse)
  then obtain w1 where "rt_CtxDone rt w = (None, w1)" by blast
  with Cons.prems Cons.IH [of "line @ [c]" w1] show ?case by auto
qed simp

lemma pb_ReadLine_delivers:
  assumes "\<forall>w. fst (rt_CtxDone rt w) = None" and "is_line l" and "pb_buf p = l @ rest"
  shows "\<exists>w'. pb_ReadLine rt p w = ((LineDone l None, p\<lparr>pb_buf := rest\<rparr>), w')"
proof -
  from assms(2) obtain b where l: "l = b @ [CHR 0x0A]" "CHR 0x0A \<notin> set b" by (auto simp: is_line_def)
  obtain w1 where "rt_CtxDone rt w = (None, w1)" using assms(1) by (metis prod.collapse)
  with line_inner_delivers [OF assms(1) l(2), of "pb_closed p" "[]" rest w1] assms(3) l(1) show ?thesis
    by (auto simp: pb_ReadLine_def)
qed

section \<open>Replies\<close>

text \<open>The lines a response is sent as.\<close>

definition reply_lines :: "Response \<Rightarrow> bytes list" where
  "reply_lines r =
     (if r_Lines r = [] then [Response_String r]
      else map (format_line CHR ''-'' r) (butlast (r_Lines r)) @ [format_line CHR '' '' r (last (r_Lines r))])"

lemma concat_reply_lines: "Response_Bytes r = concat (reply_lines r)"
proof -
  have "format_lines r ls = concat (map (format_line CHR ''-'' r) (butlast ls) @ [format_line CHR '' '' r (last ls)])"
    if "ls \<noteq> []" for ls
    using that by (induction r ls rule: format_lines.induct) simp_all
  then show ?thesis by (simp add: Response_Bytes_def Response_String_def reply_lines_def)
qed

lemma length_show_nat_3: "100 \<le> n \<Longrightarrow> n < 1000 \<Longrightarrow> length (show_nat n) = 3"
proof -
  assume n: "100 \<le> n" "n < 1000"
  have one: "length (show_nat k) = 1" if "k < 10" for k using that by (subst show_nat.simps) simp
  have "length (show_nat (n div 10)) = 2"
    using n one [of "n div 10 div 10"] by (subst show_nat.simps) auto
  with n show ?thesis by (subst show_nat.simps) simp
qed

lemma itoa_code:
  assumes "100 \<le> c" and "c < 1000"
  shows "length (itoa c) = 3" and "CHR ''-'' \<notin> set (itoa c)"
proof -
  have "itoa c = show_nat (nat c)" using assms by (simp add: itoa_def)
  moreover have "CHR ''-'' \<notin> set (show_nat (nat c))"
    using show_nat_digits [of "nat c"] by (auto simp: is_digit_def)
  ultimately show "length (itoa c) = 3" and "CHR ''-'' \<notin> set (itoa c)"
    using length_show_nat_3 [of "nat c"] assms by simp_all
qed

lemma nth_code: "100 \<le> c \<Longrightarrow> c < 1000 \<Longrightarrow> (itoa c @ x # s) ! 3 = x"
  using itoa_code(1) [of c] by (simp add: nth_append)

lemma last_line_format:
  assumes "100 \<le> r_Code r" and "r_Code r < 1000"
  shows "\<not> last_line (format_line CHR ''-'' r l)" and "last_line (format_line CHR '' '' r l)"
    and "r_Lines r = [] \<Longrightarrow> last_line (Response_String r)"
  using itoa_code [OF assms] nth_code [OF assms]
  by (auto simp: last_line_def format_line_def Response_String_def CRLF_def split: option.splits)

lemma is_line_append: "CHR 0x0A \<notin> set a \<Longrightarrow> is_line l \<Longrightarrow> is_line (a @ l)"
  unfolding is_line_def by (metis append.assoc set_append Un_iff)

lemma is_line_CRLF [simp]: "is_line CRLF"
  unfolding is_line_def CRLF_def by (rule exI [of _ "[CHR 0x0D]"]) simp

lemma is_line_format: "CHR 0x0A \<notin> set l \<Longrightarrow> sep \<noteq> CHR 0x0A \<Longrightarrow> is_line (format_line sep r l)"
  by (auto simp: format_line_def simp flip: append_Cons append_assoc intro!: is_line_append split: option.split)

lemma is_line_reply_lines:
  assumes "\<forall>l \<in> set (r_Lines r). CHR 0x0A \<notin> set l"
  shows "list_all is_line (reply_lines r)"
proof (cases "r_Lines r = []")
  case True
  then show ?thesis
    by (auto simp: reply_lines_def Response_String_def simp flip: append_Cons append_assoc
        intro!: is_line_append split: option.split)
next
  case False
  with assms have "\<forall>l \<in> set (butlast (r_Lines r)). CHR 0x0A \<notin> set l" "CHR 0x0A \<notin> set (last (r_Lines r))"
    by (auto dest: in_set_butlastD)
  with False show ?thesis by (auto simp: reply_lines_def list_all_iff is_line_format)
qed

definition server_entries :: "Transcript \<Rightarrow> bytes list" where
  "server_entries t = map te_Data (filter (\<lambda>e. te_Direction e = DirectionServer) t)"

lemma server_entries_RecordServer:
  "RecordServer rt d t w = (t', w') \<Longrightarrow> server_entries t' = server_entries t @ [d]"
  by (auto simp: RecordServer_def server_entries_def split: prod.splits)

lemma readResponse_lines:
  assumes "\<forall>w. fst (rt_CtxDone rt w) = None"
    and "list_all (\<lambda>l. is_line l \<and> \<not> last_line l) ls" and "is_line l" and "last_line l"
    and "pb_buf (h_Output h) = concat ls @ l @ rest"
  shows "\<exists>h' w'. readResponse rt got h w = ((ReplyDone (got @ ls @ [l]) None, h'), w')
    \<and> pb_buf (h_Output h') = rest
    \<and> server_entries (h_Transcript h') = server_entries (h_Transcript h) @ ls @ [l]"
  using assms(2,5)
proof (induction ls arbitrary: got h w)
  case Nil
  obtain w1 where ctx: "rt_CtxDone rt w = (None, w1)" using assms(1) by (metis prod.collapse)
  from pb_ReadLine_delivers [OF assms(1,3), of "h_Output h" rest w1] Nil(2)
  obtain w2 where rd: "pb_ReadLine rt (h_Output h) w1 = ((LineDone l None, (h_Output h)\<lparr>pb_buf := rest\<rparr>), w2)"
    by auto
  obtain t w3 where rec: "RecordServer rt l (h_Transcript h) w2 = (t, w3)" by fastforce
  with ctx rd assms(4) server_entries_RecordServer [OF rec] show ?case
    by (simp add: readResponse.simps [of rt got h w] Let_def)
next
  case (Cons a ls)
  obtain w1 where ctx: "rt_CtxDone rt w = (None, w1)" using assms(1) by (metis prod.collapse)
  have a: "is_line a" "\<not> last_line a" using Cons.prems(1) by simp_all
  from pb_ReadLine_delivers [OF assms(1) a(1), of "h_Output h" "concat ls @ l @ rest" w1] Cons.prems(2)
  obtain w2 where rd: "pb_ReadLine rt (h_Output h) w1 =
      ((LineDone a None, (h_Output h)\<lparr>pb_buf := concat ls @ l @ rest\<rparr>), w2)" by auto
  obtain t w3 where rec: "RecordServer rt a (h_Transcript h) w2 = (t, w3)" by fastforce
  let ?h = "h\<lparr>h_Output := (h_Output h)\<lparr>pb_buf := concat ls @ l @ rest\<rparr>, h_Transcript := t\<rparr>"
  have "readResponse rt got h w = readResponse rt (got @ [a]) ?h w3"
    using ctx rd rec a(2) by (simp add: readResponse.simps [of rt got h w] Let_def)
  with Cons.IH [of ?h "got @ [a]" w3] Cons.prems(1) server_entries_RecordServer [OF rec] show ?case by simp
qed

lemma reply_last:
  shows "\<exists>s. last (reply_lines r) = itoa (r_Code r) @ s" and "reply_lines r \<noteq> []"
  by (auto simp: reply_lines_def Response_String_def format_line_def split: option.split)

lemma scan_code_itoa:
  assumes "100 \<le> c" and "c < 1000"
  shows "scan_code (take 3 (itoa c @ s)) = c"
proof -
  have digit: "\<not> IsSpace (of_char x)" if "is_digit x" for x
    using that by (auto simp: is_digit_def IsSpace_def)
  have "itoa c = show_nat (nat c)" using assms by (simp add: itoa_def)
  then have "dropWhile (\<lambda>x. x \<noteq> CHR 0x0A \<and> IsSpace (of_char x)) (itoa c) = itoa c"
    using digit [OF hd_show_nat [of "nat c"]] by (cases "show_nat (nat c)") auto
  with assms itoa_code(1) [OF assms] show ?thesis by (simp add: scan_code_def Sscanf_d_itoa)
qed

lemma check_reply_ok:
  assumes "100 \<le> r_Code r" and "r_Code r < 1000"
  shows "check_reply (r_Code r) (reply_lines r) = (reply_lines r, None)"
proof -
  obtain s where s: "last (reply_lines r) = itoa (r_Code r) @ s" using reply_last(1) by blast
  with scan_code_itoa [OF assms, of s] itoa_code(1) [OF assms] reply_last(2) [of r] show ?thesis
    by (simp add: check_reply_def Let_def)
qed

lemma readResponse_reply:
  assumes "\<forall>w. fst (rt_CtxDone rt w) = None" and "reply_ok r"
    and "pb_buf (h_Output h) = Response_Bytes r @ rest"
  shows "\<exists>h' w'. readResponse rt got h w = ((ReplyDone (got @ reply_lines r) None, h'), w')
    \<and> pb_buf (h_Output h') = rest
    \<and> server_entries (h_Transcript h') = server_entries (h_Transcript h) @ reply_lines r"
proof -
  let ?ls = "butlast (reply_lines r)" and ?l = "last (reply_lines r)"
  have split: "reply_lines r = ?ls @ [?l]" using reply_last(2) by simp
  have code: "100 \<le> r_Code r" "r_Code r < 1000" and free: "\<forall>l \<in> set (r_Lines r). CHR 0x0A \<notin> set l"
    using assms(2) by (auto simp: reply_ok_def list_all_iff)
  note lines = is_line_reply_lines [OF free]
  have "list_all (\<lambda>l. \<not> last_line l) ?ls" and l: "last_line ?l"
    using last_line_format [OF code] by (auto simp: reply_lines_def list_all_iff butlast_append)
  moreover have "list_all is_line ?ls" "is_line ?l"
    using lines reply_last(2) [of r] by (auto simp: list_all_iff dest: in_set_butlastD)
  ultimately have "list_all (\<lambda>l. is_line l \<and> \<not> last_line l) ?ls" by (simp add: list_all_iff)
  moreover have "pb_buf (h_Output h) = concat ?ls @ ?l @ rest"
    using assms(3) concat_reply_lines [of r] split by (metis append.assoc concat.simps concat_append append_Nil2)
  ultimately show ?thesis
    using readResponse_lines [OF assms(1) _ \<open>is_line ?l\<close> l, of ?ls h rest got w] split by metis
qed

lemma response_read:
  assumes "\<forall>w. fst (rt_CtxDone rt w) = None"
    and "100 \<le> r_Code r" and "r_Code r < 1000" and "\<forall>l \<in> set (r_Lines r). CHR 0x0A \<notin> set l"
    and "pb_buf (h_Output h) = Response_Bytes r @ rest"
  shows "\<exists>h' w'. Expect rt (r_Code r) h w = ((Some (reply_lines r, None), h'), w')
    \<and> pb_buf (h_Output h') = rest \<and> concat (reply_lines r) = Response_Bytes r
    \<and> server_entries (h_Transcript h') = server_entries (h_Transcript h) @ reply_lines r"
proof -
  have "reply_ok r" using assms(2-4) by (simp add: reply_ok_def list_all_iff)
  from readResponse_reply [OF assms(1) this assms(5), of "[]" w] check_reply_ok [OF assms(2,3)]
  show ?thesis by (auto simp: Expect_def concat_reply_lines)
qed

text \<open>Replies do not merge: no well-formed reply is two of them in a row. A client reads the first
  reply of two up to its last line and is left with the second.\<close>

lemma Response_Bytes_nonempty: "Response_Bytes r \<noteq> []"
  using reply_last(2) [of r] concat_reply_lines [of r]
  by (auto simp: reply_lines_def Response_String_def format_line_def CRLF_def split: option.splits if_splits)

lemma response_framed:
  assumes "reply_ok r" and "reply_ok r1" and "Response_Bytes r @ rest = Response_Bytes r1 @ rest1"
  shows "reply_lines r = reply_lines r1 \<and> rest = rest1"
proof -
  let ?h = "\<lparr>h_Input = NewPipeBuffer, h_Output = NewPipeBuffer\<lparr>pb_buf := Response_Bytes r @ rest\<rparr>, h_Transcript = []\<rparr>"
  have ctx: "\<forall>w. fst (rt_CtxDone rt_const w) = None" by (simp add: rt_const_def)
  show ?thesis
    using readResponse_reply [OF ctx assms(1), of ?h rest "[]" "()"]
      readResponse_reply [OF ctx assms(2), of ?h rest1 "[]" "()"] assms(3)
    by auto
qed

lemma replies_do_not_merge:
  assumes "reply_ok r" and "reply_ok r1"
  shows "Response_Bytes r \<noteq> Response_Bytes r1 @ Response_Bytes r2"
  using response_framed [OF assms, of "[]" "Response_Bytes r2"] Response_Bytes_nonempty [of r2] by auto

text \<open>
  (C25) Replies are framed so that a client can read them one by one. Whatever follows in the
  output, the client of the harness reads a response with a three-digit code and any number of
  lines free of line feeds as exactly the lines the server formatted, leaves the rest alone,
  records the lines in the transcript, and finds the code it expects.
\<close>

theorem reply_read_back:
  assumes "\<forall>w. fst (rt_CtxDone rt w) = None"
    and "100 \<le> r_Code r" and "r_Code r < 1000" and "\<forall>l \<in> set (r_Lines r). CHR 0x0A \<notin> set l"
    and "pb_buf (h_Output h) = Response_Bytes r @ rest"
  shows "\<exists>h' w'. Expect rt (r_Code r) h w = ((Some (reply_lines r, None), h'), w')
    \<and> pb_buf (h_Output h') = rest \<and> concat (reply_lines r) = Response_Bytes r
    \<and> server_entries (h_Transcript h') = server_entries (h_Transcript h) @ reply_lines r"
  using assms by (rule response_read)

definition sample_reply :: Response where
  "sample_reply = NewMultilineResponse 250 [''mx Hello a'', ''PIPELINING'', ''HELP'']"

theorem reply_read_back_witness:
  "\<exists>h' w'. Expect rt_const 250 \<lparr>h_Input = NewPipeBuffer,
       h_Output = NewPipeBuffer\<lparr>pb_buf := Response_Bytes sample_reply @ ''220''\<rparr>, h_Transcript = []\<rparr> ()
     = ((Some (reply_lines sample_reply, None), h'), w') \<and> pb_buf (h_Output h') = ''220''"
  using reply_read_back [of rt_const sample_reply "\<lparr>h_Input = NewPipeBuffer,
       h_Output = NewPipeBuffer\<lparr>pb_buf := Response_Bytes sample_reply @ ''220''\<rparr>, h_Transcript = []\<rparr>" "''220''" "()"]
  by (auto simp: sample_reply_def NewMultilineResponse_def rt_const_def)

text \<open>Once \<open>ReadLine\<close> waits for a byte, it goes on waiting for as long as the pipe stays empty and
  open, whatever the context says: the timeout of \<open>Expect\<close> does not end a wait.\<close>

lemma waiting_ignores_context: "line_inner rt False line [] w = ((LineWaits line, []), w)"
  by simp

section \<open>Sending a message\<close>

text \<open>The text a message stands for: every line ends with CRLF, and what follows the last line
  feed is a line only if it is not empty.\<close>

fun text_lines :: "bytes list \<Rightarrow> bytes list" where
  "text_lines [] = []"
| "text_lines [l] = (let line = TrimSuffix l [CHR 0x0D] in if line = [] then [] else [line @ CRLF])"
| "text_lines (l # l' # ls) = (TrimSuffix l [CHR 0x0D] @ CRLF) # text_lines (l' # ls)"

definition canonical :: "bytes \<Rightarrow> bytes list" where
  "canonical data = text_lines (Split CHR 0x0A data)"

lemma Send_Input:
  assumes "\<not> pb_closed (h_Input h)" and "Send rt line h w = (h', w')"
  shows "pb_buf (h_Input h') = pb_buf (h_Input h) @ line @ CRLF" and "\<not> pb_closed (h_Input h')"
  using assms by (auto simp: Send_def Let_def pb_Write_def split: prod.splits)

lemma stuff_text_StuffLine: "stuff_text l @ CRLF = StuffLine (TrimSuffix l [CHR 0x0D] @ CRLF)"
  by (cases "TrimSuffix l [CHR 0x0D]") (auto simp: stuff_text_def Let_def StuffLine_def CRLF_def)

lemma stuff_text_empty: "stuff_text l = [] \<longleftrightarrow> TrimSuffix l [CHR 0x0D] = []"
  by (simp add: stuff_text_def Let_def)

lemma send_lines_Input:
  assumes "\<not> pb_closed (h_Input h)" and "send_lines rt ls h w = (h', w')"
  shows "pb_buf (h_Input h') = pb_buf (h_Input h) @ concat (map StuffLine (text_lines ls))
    \<and> \<not> pb_closed (h_Input h')"
  using assms
proof (induction rt ls h w rule: send_lines.induct)
  case (2 rt l h w)
  then show ?case
    using Send_Input [of h rt "stuff_text l" w h' w'] stuff_text_StuffLine [of l]
    by (cases "stuff_text l = []") (auto simp: stuff_text_empty Let_def)
next
  case (3 rt l l' ls h w)
  obtain h1 w1 where s: "Send rt (stuff_text l) h w = (h1, w1)" by fastforce
  note h1 = Send_Input [OF "3.prems"(1) s]
  from "3.IH" [OF s [symmetric] h1(2)] "3.prems"(2) s h1(1) show ?case
    using stuff_text_StuffLine [of l] by simp
qed auto

lemma is_line_trimmed: "CHR 0x0A \<notin> set l \<Longrightarrow> is_line (TrimSuffix l t @ CRLF)"
  by (rule is_line_append) (auto simp: TrimSuffix_def dest: in_set_takeD)

lemma canonical_lines: "list_all is_line (canonical data)"
proof -
  have "list_all is_line (text_lines ls)" if "\<forall>l \<in> set ls. CHR 0x0A \<notin> set l" for ls
    using that
  proof (induction ls rule: text_lines.induct)
    case (2 l)
    then show ?case by (simp add: Let_def is_line_trimmed)
  next
    case (3 l l' ls)
    then show ?case by (simp add: is_line_trimmed)
  qed simp
  then show ?thesis by (simp add: canonical_def Split_parts)
qed

text \<open>A text whose lines end with CRLF is already canonical.\<close>

lemma canonical_CRLF:
  assumes "\<forall>l \<in> set ls. CHR 0x0A \<notin> set l"
  shows "canonical (concat (map (\<lambda>l. l @ CRLF) ls)) = map (\<lambda>l. l @ CRLF) ls"
proof -
  have "Split CHR 0x0A (concat (map (\<lambda>l. l @ CRLF) ls)) = map (\<lambda>l. l @ [CHR 0x0D]) ls @ [[]]"
    using assms
  proof (induction ls)
    case (Cons l ls)
    have "Split CHR 0x0A (concat (map (\<lambda>l. l @ CRLF) (l # ls))) =
        (l @ [CHR 0x0D]) # Split CHR 0x0A (concat (map (\<lambda>l. l @ CRLF) ls))"
      using Split_append_sep [of "CHR 0x0A" "l @ [CHR 0x0D]"] Cons.prems by (simp add: CRLF_def)
    with Cons show ?case by simp
  qed simp
  moreover have "text_lines (map (\<lambda>l. l @ [CHR 0x0D]) ls @ [[]]) = map (\<lambda>l. l @ CRLF) ls"
  proof (induction ls)
    case (Cons l ls)
    then show ?case by (cases ls) simp_all
  qed (simp add: TrimSuffix_def HasSuffix_def)
  ultimately show ?thesis by (simp add: canonical_def)
qed

lemma SendData_Input:
  assumes "\<not> pb_closed (h_Input h)" and "SendData rt data h w = (h', w')"
  shows "pb_buf (h_Input h') = pb_buf (h_Input h) @ concat (map StuffLine (canonical data)) @ ''.'' @ CRLF"
proof -
  obtain h1 w1 where s: "send_lines rt (Split CHR 0x0A data) h w = (h1, w1)" by fastforce
  note h1 = send_lines_Input [OF assms(1) s]
  from assms(2) s Send_Input [of h1 rt "''.''" w1 h' w'] h1 show ?thesis
    by (simp add: SendData_def canonical_def)
qed

text \<open>
  (C26) What the client of the harness sends is what the server stores. Suppose an engine that
  satisfies the invariant of a session, with recipients accepted, envelopes from the builder of
  the package and a storage, reads the bytes \<open>SendData\<close> wrote for a text, on a connection without
  errors, with a context that does not end, and within the limits. Then the storage is handed the
  text with its line ends made CRLF (\<open>canonical\<close>: bare line feeds are completed, and so is a last line
  without an end), dots and all, with the transaction's sender and recipients; the reply is 250 if
  it takes it; and the engine has read precisely what was sent. A text whose lines all end with
  CRLF arrives byte for byte.
\<close>

theorem SendData_arrives:
  assumes "SendData crt data h v = (h', v')" and "h_Input h = NewPipeBuffer"
    and "stream (e_conn e) = pb_buf (h_Input h') @ rest"
    and "engine_inv e" and "sm_state (e_sm e) = StateRcptTo" and "e_envelope e = Some (StdB b)"
    and "cf_Storage (e_config e) = Some store"
    and "clean (e_conn e)" and "writable e" and "\<forall>w. fst (rt_CtxDone rt w) = None"
    and "within_limits (Limits (e_config e)) 0 (canonical data)"
  shows "(\<exists>resp e' w. handleDATA rt cmd e = Inr (resp, e') \<and> stream (e_conn e') = rest
      \<and> data_outcome (store (sealed b (concat (canonical data))) w) (sealed b (concat (canonical data))) resp e')
    \<and> (\<forall>ls. (\<forall>l \<in> set ls. CHR 0x0A \<notin> set l) \<and> data = concat (map (\<lambda>l. l @ CRLF) ls) \<longrightarrow>
         concat (canonical data) = data)"
proof -
  have "\<not> pb_closed (h_Input h)" "pb_buf (h_Input h) = []" using assms(2) by (simp_all add: NewPipeBuffer_def)
  with SendData_Input [OF _ assms(1)] assms(3)
  have "stream (e_conn e) = concat (map StuffLine (canonical data)) @ (''.'' @ CRLF) @ rest" by simp
  moreover have "is_line (''.'' @ CRLF)" by (rule is_line_append) simp_all
  moreover have "IsTerminator (''.'' @ CRLF)" by code_simp
  ultimately show ?thesis
    using handleDATA_complete [OF engine_inv_ready [OF assms(4-6)] assms(5-10) _ _ _ canonical_lines assms(11)]
      canonical_CRLF
    by metis
qed

theorem SendData_arrives_witness:
  "\<exists>resp e' w. handleDATA sample_rt data_command data_engine = Inr (resp, e')
    \<and> data_outcome (sample_store (sealed sample_draft (concat sample_lines)) w)
        (sealed sample_draft (concat sample_lines)) resp e'"
proof -
  let ?h = "\<lparr>h_Input = NewPipeBuffer, h_Output = NewPipeBuffer, h_Transcript = []\<rparr>"
  let ?text = "''hi'' @ CHR 0x0A # ''.dots''"
  obtain h' v' where sd: "SendData rt_const ?text ?h () = (h', v')" by (metis prod.exhaust)
  have canon: "canonical ?text = sample_lines" by code_simp
  have "pb_buf (h_Input h') = concat (map StuffLine sample_lines) @ sample_end"
    using SendData_Input [OF _ sd] canon by (simp add: NewPipeBuffer_def sample_end_def CRLF_def)
  then have "stream (e_conn data_engine) = pb_buf (h_Input h') @ ''NOOP'' @ [CHR 0x0D, CHR 0x0A]"
    using data_engine_premises(8) by simp
  from SendData_arrives [OF sd _ this data_engine_premises(1-7), of data_command] canon
    data_engine_premises(12)
  show ?thesis by auto
qed

end
