(* ===== verification/Harness_Server.thy ===== *)
theory Harness_Server
  imports Harness Mem_World
begin

text \<open>
  The server side of \<open>harness/harness.go\<close>: the configuration with the in-memory mailbox and
  storage, the engine it starts, and the steps of scripted conversations, which \<open>Conversation\<close>
  runs. The world of such an engine holds the mailbox and the storage; the other services are a
  runtime over the rest of the world.

  The in-memory services meet the contract \<open>session_world\<close>, which gives the property a mail
  server is judged by first: it is not an open relay.
\<close>

section \<open>Configuration\<close>

datatype (dead 'w) HarnessOption =
    WithServerHostname string | WithMailbox "'w Mailbox" | WithStorage "'w Storage"
  | WithLimits SessionLimits | WithExtensions ExtensionSet | WithTLSProvider "'w TLSProvider"
  | WithTLSPolicy TLSPolicy

fun apply_harness_option ::
    "'w HarnessOption \<Rightarrow> ('b, 'w) SessionConfig \<Rightarrow> ('b, 'w) SessionConfig" where
  "apply_harness_option (WithServerHostname hostname) c = c\<lparr>ServerHostname := hostname\<rparr>"
| "apply_harness_option (WithMailbox mailbox) c = c\<lparr>cf_Mailbox := Some mailbox\<rparr>"
| "apply_harness_option (WithStorage storage) c = c\<lparr>cf_Storage := Some storage\<rparr>"
| "apply_harness_option (WithLimits limits) c = c\<lparr>Limits := limits\<rparr>"
| "apply_harness_option (WithExtensions ext) c = c\<lparr>Extensions := ext\<rparr>"
| "apply_harness_option (WithTLSProvider provider) c = c\<lparr>cf_TLSProvider := Some provider\<rparr>"
| "apply_harness_option (WithTLSPolicy policy) c = c\<lparr>cf_TLSPolicy := policy\<rparr>"

text \<open>The configuration a new harness starts from, before and after its options.\<close>

definition harness_config ::
    "'v Runtime \<Rightarrow> 'v MemWorld HarnessOption list \<Rightarrow> ('b, 'v MemWorld) SessionConfig" where
  "harness_config rt opts =
     fold apply_harness_option opts
       \<lparr>ServerHostname = ''test.example.com'', Limits = DefaultSessionLimits, cf_TLSPolicy = TLSDisabled,
        cf_TLSProvider = None, cf_Mailbox = Some (mem_mailbox rt), cf_SenderPolicy = None,
        cf_Storage = Some (mem_storage rt), cf_EnvelopeFactory = None,
        Extensions = DefaultExtensions, Hooks = None\<rparr>"

text \<open>The fields \<open>Storage\<close> and \<open>Mailbox\<close> of the harness are pointers the engine shares: they are the
  fields \<^const>\<open>mw_Storage\<close> and \<^const>\<open>mw_Mailbox\<close> of the world. The fields of the client are in
  \<open>hs_Client\<close>.\<close>

record ('b, 'w) Harness =
  hs_Config :: "('b, 'w) SessionConfig"
  hs_Engine :: "('b, 'w) Engine option"
  hs_Client :: Client
  hs_Errors :: "goerror list"

definition NewHarness ::
    "'v Runtime \<Rightarrow> 'v MemWorld HarnessOption list \<Rightarrow> 'v \<Rightarrow> ('b, 'v MemWorld) Harness \<times> 'v MemWorld" where
  "NewHarness rt opts v =
     (\<lparr>hs_Config = harness_config rt opts, hs_Engine = None,
       hs_Client = \<lparr>h_Input = NewPipeBuffer, h_Output = NewPipeBuffer, h_Transcript = NewTranscript\<rparr>,
       hs_Errors = []\<rparr>,
      \<lparr>mw_Storage = NewStorage, mw_Mailbox = NewMailbox, mw_env = v\<rparr>)"

section \<open>Running an engine\<close>

text \<open>A \<open>PipeBuffer\<close> has \<open>SetReadDeadline\<close> and \<open>Close\<close> but no \<open>SetWriteDeadline\<close>. What the engine will
  read from the input pipe and what becomes of its writes is the transport \<open>t\<close>.\<close>

definition Start ::
    "'w Runtime \<Rightarrow> Transport \<Rightarrow> ('b, 'w) Harness \<Rightarrow> 'w \<Rightarrow> ('b, 'w) Harness" where
  "Start rt t h w =
     h\<lparr>hs_Engine := Some (NewEngineWithConn rt (Pipe (WrapPipe t True False True True)) (hs_Config h) [] w)\<rparr>"

definition StartWithTLS ::
    "'w Runtime \<Rightarrow> (TLSConfig \<Rightarrow> goerror + Transport \<times> TLSConnectionState) \<Rightarrow> Transport
      \<Rightarrow> ('b, 'w) Harness \<Rightarrow> 'w \<Rightarrow> ('b, 'w) Harness" where
  "StartWithTLS rt upgrader t h w =
     h\<lparr>hs_Engine := Some (NewEngineWithConn rt
         (Pipe (SetTLSUpgrader (Some upgrader) (WrapPipe t True False True True))) (hs_Config h) [] w)\<rparr>"

text \<open>What the goroutine does with the result of \<open>Run\<close>.\<close>

definition record_error :: "goerror option \<Rightarrow> ('b, 'w) Harness \<Rightarrow> ('b, 'w) Harness" where
  "record_error err h =
     (case err of
        None \<Rightarrow> h
      | Some x \<Rightarrow> if x \<noteq> CtxCanceled then h\<lparr>hs_Errors := hs_Errors h @ [x]\<rparr> else h)"

definition Harness_Close :: "('b, 'w) Harness \<Rightarrow> ('b, 'w) Harness" where
  "Harness_Close h =
     (let c = hs_Client h in
      h\<lparr>hs_Client := c\<lparr>h_Input := pb_Close (h_Input c), h_Output := pb_Close (h_Output c)\<rparr>,
        hs_Engine := map_option Close (hs_Engine h)\<rparr>)"

definition Messages :: "(StoredMessage list \<Rightarrow> StoredMessage list) \<Rightarrow> 'v MemWorld \<Rightarrow> StoredMessage list" where
  "Messages order w = ListMessages order (mw_Storage w)"

definition MessageCount_h :: "'v MemWorld \<Rightarrow> nat" where
  "MessageCount_h w = Count (mw_Storage w)"

section \<open>Scripts\<close>

text \<open>A step of a script, and the error it ends the conversation with; \<open>quote\<close> is \<open>%q\<close> of \<open>fmt\<close>.\<close>

record ConversationStep =
  cs_Description :: string
  cs_Send :: string
  cs_SendRaw :: "bytes option"
  cs_Expect :: ReplyCode
  cs_ExpectAny :: bool
  cs_Delay :: duration

definition step_error :: "(string \<Rightarrow> string) \<Rightarrow> ConversationStep \<Rightarrow> goerror \<Rightarrow> goerror" where
  "step_error quote step err = ErrWrap (''step '' @ quote (cs_Description step) @ '': '') err"

section \<open>No open relay\<close>

text \<open>A harness with any host name, limits, extensions, TLS policy and fixed TLS configuration.\<close>

definition harness_setup ::
    "'v Runtime \<Rightarrow> string \<Rightarrow> SessionLimits \<Rightarrow> ExtensionSet \<Rightarrow> TLSPolicy \<Rightarrow> goerror + TLSConfig
      \<Rightarrow> ('b, 'v MemWorld) SessionConfig" where
  "harness_setup rt hostname limits ext policy tls =
     harness_config rt [WithServerHostname hostname, WithLimits limits, WithExtensions ext,
       WithTLSPolicy policy, WithTLSProvider (\<lambda>w. (tls, w))]"

lemma harness_setup_fields [simp]:
  "cf_Mailbox (harness_setup rt hostname limits ext policy tls) = Some (mem_mailbox rt)"
  "cf_Storage (harness_setup rt hostname limits ext policy tls) = Some (mem_storage rt)"
  "cf_TLSProvider (harness_setup rt hostname limits ext policy tls) = Some (\<lambda>w. (tls, w))"
  "cf_SenderPolicy (harness_setup rt hostname limits ext policy tls) = None"
  "cf_EnvelopeFactory (harness_setup rt hostname limits ext policy tls) = None"
  "Hooks (harness_setup rt hostname limits ext policy tls) = None"
  "Limits (harness_setup rt hostname limits ext policy tls) = limits"
  "cf_TLSPolicy (harness_setup rt hostname limits ext policy tls) = policy"
  by (simp_all add: harness_setup_def harness_config_def)

interpretation harness: session_world "lift_rt rt" "harness_setup rt hostname limits ext policy tls"
  "sound_store limits policy (\<lambda>_. True) (registered rt m) m" "\<lambda>_. True" "registered rt m"
  for rt hostname limits ext policy tls m
  by unfold_locales
    (auto simp: lift_rt_keeps sound_store_storage intro: mem_mailbox_registered)

text \<open>
  (C2) The server is no open relay, and keeps its other promises to the storage. In a session
  with the in-memory mailbox and storage, under any limits, extensions and TLS policy, whatever
  the client sends and however the transport behaves, \<open>Run\<close> returns, and every message then in
  a storage that was empty before has at least one recipient and no more than \<open>MaxRecipients\<close>,
  each of them accepted by the mailbox registry; it is stored under its own envelope identifier
  with the data of its envelope; and with the policy \<open>TLSRequired\<close> it came in over TLS.
\<close>

theorem no_open_relay:
  fixes e0 :: "('b, 'v MemWorld) Engine"
  assumes "mw_Storage w = NewStorage"
    and "hs_Config h = harness_setup rt hostname limits ext policy tls"
    and "hs_Engine (Start (lift_rt rt) t h w) = Some e0"
  shows "\<exists>r e'. Run (lift_rt rt) e0 = Some (Inr (r, e'))
    \<and> (\<forall>i msg. Get (mw_Storage (e_world e')) i = Some msg \<longrightarrow>
         env_recipients (msg_Envelope msg) \<noteq> []
         \<and> list_all (\<lambda>p. rr_Status (ValidateRecipient (rt_Unicode rt) (mw_Mailbox w) p) = RecipientAccepted)
             (env_recipients (msg_Envelope msg))
         \<and> (MaxRecipients limits > 0 \<longrightarrow> RecipientCount (msg_Envelope msg) \<le> MaxRecipients limits)
         \<and> msg_Data msg = env_data (msg_Envelope msg) \<and> env_id (msg_Envelope msg) = i
         \<and> (policy = TLSRequired \<longrightarrow> md_TLSActive (env_metadata (msg_Envelope msg))))"
proof -
  have e0: "e0 = NewEngineWithConn (lift_rt rt) (Pipe (WrapPipe t True False True True))
      (harness_setup rt hostname limits ext policy tls) [] w"
    using assms(2,3) by (simp add: Start_def)
  have "\<exists>r e'. Run (lift_rt rt) e0 = Some (Inr (r, e'))"
    unfolding e0 by (rule Run_ok) simp
  then obtain r e' where run: "Run (lift_rt rt) e0 = Some (Inr (r, e'))" by blast
  have "sound_store limits policy (\<lambda>_. True) (registered rt (mw_Mailbox w)) (mw_Mailbox w) w"
    by (rule sound_store_empty [OF assms(1)])
  from harness.session_keeps [OF this run [unfolded e0]]
  have ok: "sound_store limits policy (\<lambda>_. True) (registered rt (mw_Mailbox w)) (mw_Mailbox w) (e_world e')" .
  show ?thesis
    using run sound_store_Get [OF ok]
    unfolding good_envelope_def registered_def [abs_def] by blast
qed

definition sample_registry :: Registry where
  "sample_registry = AddAddress (rt_Unicode rt_const) ''a@b.c'' NewMailbox"

definition sample_world :: "unit MemWorld" where
  "sample_world = \<lparr>mw_Storage = NewStorage, mw_Mailbox = sample_registry, mw_env = ()\<rparr>"

definition sample_transport :: Transport where
  "sample_transport = \<lparr>tr_reads = [(crlf_lines [''HELO a'', ''MAIL FROM:<x@y.z>'', ''RCPT TO:<evil@other>'',
       ''RCPT TO:<a@b.c>'', ''DATA'', ''hi'', ''.'', ''QUIT''], None)],
     tr_writes = [], tr_sent = [], tr_rdeadline = None, tr_wdeadline = None, tr_closed = False\<rparr>"

definition sample_harness :: "(unit, unit MemWorld) Harness" where
  "sample_harness = fst (NewHarness rt_const [WithServerHostname ''mx'', WithLimits DefaultSessionLimits,
     WithExtensions DefaultExtensions, WithTLSPolicy TLSOptional, WithTLSProvider (\<lambda>w. (Inr SecureTLSConfig, w))] ())"

definition sample_server :: "(unit, unit MemWorld) Engine" where
  "sample_server = the (hs_Engine (Start (lift_rt rt_const) sample_transport sample_harness sample_world))"

theorem no_open_relay_witness:
  "\<exists>r e'. Run (lift_rt rt_const) sample_server = Some (Inr (r, e'))
    \<and> (\<forall>i msg. Get (mw_Storage (e_world e')) i = Some msg \<longrightarrow>
         list_all (\<lambda>p. rr_Status (ValidateRecipient (rt_Unicode rt_const) sample_registry p) = RecipientAccepted)
           (env_recipients (msg_Envelope msg)))"
proof -
  have w: "mw_Storage sample_world = NewStorage" "mw_Mailbox sample_world = sample_registry"
    by (simp_all add: sample_world_def)
  have h: "hs_Config sample_harness = harness_setup rt_const ''mx'' DefaultSessionLimits DefaultExtensions
      TLSOptional (Inr SecureTLSConfig)"
    by (simp add: sample_harness_def NewHarness_def harness_setup_def)
  have "hs_Engine (Start (lift_rt rt_const) sample_transport sample_harness sample_world) = Some sample_server"
    by (simp add: sample_server_def Start_def)
  from no_open_relay [OF w(1) h this] show ?thesis unfolding w(2) by blast
qed

end
