(* ===== verification/Conversation.thy ===== *)
theory Conversation
  imports Engine_Lines Harness_Server
begin

text \<open>
  \<open>RunConversation\<close> with both of its goroutines. The client works through the script, the server
  runs the engine line by line, and they share nothing but the two pipes; each has its own view of
  the clock and of its context. They take turns in any order. A turn of the client is one call of
  \<open>Send\<close>, \<open>SendRaw\<close>, \<open>Expect\<close> or \<open>ExpectAny\<close>, possible once the call would not wait; a turn of the
  server is one piece of its session. These are the runs in which no wait outlasts its deadline. A
  panic ends the server here and the whole process in reality; \<open>Run_never_panics\<close> excludes it.

  In this model a party takes its input line by line, and what it does next depends on the lines
  written for it, never on how much more was written; so turns of the two commute, and every
  schedule of a conversation leads to the same settled state. Settled means that neither party can
  take a turn: the client is done, or it waits for a line that will not be written.
\<close>

section \<open>Two parties whose turns commute\<close>

definition turn :: "('s \<Rightarrow> 's option) \<Rightarrow> ('s \<Rightarrow> 's option) \<Rightarrow> 's \<Rightarrow> 's \<Rightarrow> bool" where
  "turn left right s t \<longleftrightarrow> left s = Some t \<or> right s = Some t"

definition settled_pair :: "('s \<Rightarrow> 's option) \<Rightarrow> ('s \<Rightarrow> 's option) \<Rightarrow> 's \<Rightarrow> bool" where
  "settled_pair left right s \<longleftrightarrow> left s = None \<and> right s = None"

locale commuting_pair =
  fixes left right :: "'s \<Rightarrow> 's option" and ok :: "'s \<Rightarrow> bool"
  assumes left_ok: "ok s \<Longrightarrow> left s = Some a \<Longrightarrow> ok a"
    and right_ok: "ok s \<Longrightarrow> right s = Some a \<Longrightarrow> ok a"
    and commute: "ok s \<Longrightarrow> left s = Some a \<Longrightarrow> right s = Some b \<Longrightarrow> \<exists>t. right a = Some t \<and> left b = Some t"
begin

lemma turn_ok: "ok s \<Longrightarrow> turn left right s t \<Longrightarrow> ok t"
  by (auto simp: turn_def intro: left_ok right_ok)

lemma turns_ok: "ok s \<Longrightarrow> (turn left right ^^ n) s t \<Longrightarrow> ok t"
  by (induction n arbitrary: t) (auto intro: turn_ok)

text \<open>A turn taken early is a turn saved later.\<close>

lemma turn_saved:
  assumes "ok s" and "(turn left right ^^ n) s t" and "settled_pair left right t" and "turn left right s u"
  shows "\<exists>k. n = Suc k \<and> (turn left right ^^ k) u t"
  using assms
proof (induction n arbitrary: s u)
  case 0
  then show ?case by (simp add: turn_def settled_pair_def)
next
  case (Suc n)
  from Suc.prems(2) obtain v where v: "turn left right s v" "(turn left right ^^ n) v t" by (rule relpowp_Suc_E2)
  show ?case
  proof (cases "u = v")
    case False
    with v(1) Suc.prems(4) commute [OF Suc.prems(1)] obtain x where x: "turn left right v x" "turn left right u x"
      unfolding turn_def by fastforce
    from Suc.IH [OF turn_ok [OF Suc.prems(1) v(1)] v(2) Suc.prems(3) x(1)]
    obtain k where k: "n = Suc k" "(turn left right ^^ k) x t" by blast
    with relpowp_Suc_I2 [of "turn left right" u x k t] x(2) show ?thesis by simp
  qed (use v in simp)
qed

lemma turns_saved:
  assumes "ok s" and "(turn left right ^^ n) s t" and "settled_pair left right t" and "(turn left right ^^ m) s u"
  shows "m \<le> n \<and> (turn left right ^^ (n - m)) u t"
  using assms(4)
proof (induction m arbitrary: u)
  case (Suc m)
  from Suc.prems obtain v where v: "(turn left right ^^ m) s v" "turn left right v u" by auto
  from Suc.IH [OF v(1)] have "m \<le> n" "(turn left right ^^ (n - m)) v t" by simp_all
  from turn_saved [OF turns_ok [OF assms(1) v(1)] this(2) assms(3) v(2)]
  obtain k where "n - m = Suc k" "(turn left right ^^ k) u t" by blast
  then have "n - Suc m = k" and "Suc m \<le> n" by simp_all
  with \<open>(turn left right ^^ k) u t\<close> show ?case by simp
qed (use assms(2) in simp)

lemma one_end:
  assumes "ok s" and "(turn left right ^^ n) s t" and "settled_pair left right t"
    and "(turn left right ^^ m) s u" and "settled_pair left right u"
  shows "u = t \<and> m = n"
proof -
  from turns_saved [OF assms(1-4)] have m: "m \<le> n" "(turn left right ^^ (n - m)) u t" by simp_all
  show ?thesis
  proof (cases "n - m")
    case (Suc k)
    with m(2) obtain v where "turn left right u v" by (metis relpowp_Suc_E2)
    with assms(5) show ?thesis by (auto simp: turn_def settled_pair_def)
  qed (use m in simp)
qed

end

section \<open>The client\<close>

text \<open>What a step of the script asks for, in order.\<close>

datatype task = SendLine bytes | SendBytes bytes | ExpectCode ReplyCode | ExpectReply

definition tasks_of :: "ConversationStep \<Rightarrow> (ConversationStep \<times> task) list" where
  "tasks_of step = map (Pair step)
     ((if cs_Send step \<noteq> [] then [SendLine (cs_Send step)] else [])
      @ (case cs_SendRaw step of None \<Rightarrow> [] | Some data \<Rightarrow> [SendBytes data])
      @ (if cs_Expect step \<noteq> 0 then [ExpectCode (cs_Expect step)] else [])
      @ (if cs_ExpectAny step then [ExpectReply] else []))"

record ('b, 'w, 'c) Conversation =
  cn_client :: Client
  cn_clock :: 'c
  cn_tasks :: "(ConversationStep \<times> task) list"
  cn_result :: "goerror option option"
  cn_server :: "('b, 'w) routine"

text \<open>One call of the client: what is left of it, its clock, its tasks, and whether it is done. A call
  that returned an error ends the script with it; \<^const>\<open>None\<close> is a call that waits.\<close>

definition replied_to ::
    "(string \<Rightarrow> string) \<Rightarrow> ConversationStep \<Rightarrow> (ConversationStep \<times> task) list
      \<Rightarrow> ((bytes list \<times> goerror option) option \<times> Client) \<times> 'c
      \<Rightarrow> (Client \<times> 'c \<times> (ConversationStep \<times> task) list \<times> goerror option option) option" where
  "replied_to quote step rest res =
     (case res of
        ((None, c), w) \<Rightarrow> None
      | ((Some (lines, None), c), w) \<Rightarrow> Some (c, w, rest, None)
      | ((Some (lines, Some err), c), w) \<Rightarrow> Some (c, w, [], Some (Some (step_error quote step err))))"

fun client_call ::
    "(string \<Rightarrow> string) \<Rightarrow> 'c Runtime \<Rightarrow> (ConversationStep \<times> task) list \<Rightarrow> Client \<Rightarrow> 'c
      \<Rightarrow> (Client \<times> 'c \<times> (ConversationStep \<times> task) list \<times> goerror option option) option" where
  "client_call quote crt [] c w = Some (c, w, [], Some None)"
| "client_call quote crt ((step, SendLine line) # rest) c w =
     (case Send crt line c w of (c', w') \<Rightarrow> Some (c', w', rest, None))"
| "client_call quote crt ((step, SendBytes data) # rest) c w =
     (case SendRaw crt data c w of (c', w') \<Rightarrow> Some (c', w', rest, None))"
| "client_call quote crt ((step, ExpectCode code) # rest) c w = replied_to quote step rest (Expect crt code c w)"
| "client_call quote crt ((step, ExpectReply) # rest) c w = replied_to quote step rest (ExpectAny crt c w)"

definition client_turn ::
    "(string \<Rightarrow> string) \<Rightarrow> 'c Runtime \<Rightarrow> ('b, 'w, 'c) Conversation \<Rightarrow> ('b, 'w, 'c) Conversation option" where
  "client_turn quote crt s =
     (if cn_result s \<noteq> None then None
      else
       (case client_call quote crt (cn_tasks s) (cn_client s) (cn_clock s) of
          None \<Rightarrow> None
        | Some (c, w, tasks, result) \<Rightarrow>
            Some (s\<lparr>cn_client := c, cn_clock := w, cn_tasks := tasks, cn_result := result\<rparr>)))"

section \<open>The server and the conversation\<close>

definition served_pipes :: "bytes \<Rightarrow> bytes \<Rightarrow> Client \<Rightarrow> Client" where
  "served_pipes rest answer c =
     c\<lparr>h_Input := (h_Input c)\<lparr>pb_buf := rest\<rparr>, h_Output := snd (pb_Write answer (h_Output c))\<rparr>"

definition server_turn :: "'w Runtime \<Rightarrow> ('b, 'w, 'c) Conversation \<Rightarrow> ('b, 'w, 'c) Conversation option" where
  "server_turn rt s =
     (case advance_lines rt (pb_buf (h_Input (cn_client s))) (cn_server s) of
        None \<Rightarrow> None
      | Some (rest, g) \<Rightarrow> Some (s\<lparr>cn_client := served_pipes rest (said g) (cn_client s), cn_server := g\<rparr>))"

definition no_input :: Transport where
  "no_input = \<lparr>tr_reads = [], tr_writes = [], tr_sent = [], tr_rdeadline = None, tr_wdeadline = None, tr_closed = False\<rparr>"

text \<open>\<open>RunConversation\<close> starts the engine and enters its loop over the script.\<close>

definition open_conversation ::
    "'w Runtime \<Rightarrow> ConversationStep list \<Rightarrow> ('b, 'w) Harness \<Rightarrow> 'w \<Rightarrow> 'c \<Rightarrow> ('b, 'w, 'c) Conversation" where
  "open_conversation rt script h w cw =
     \<lparr>cn_client = hs_Client h, cn_clock = cw, cn_tasks = concat (map tasks_of script), cn_result = None,
      cn_server = Unstarted (the (hs_Engine (Start rt no_input h w)))\<rparr>"

text \<open>The harness while a conversation runs: the goroutine of \<open>Start\<close> records the error of a session
  that has returned.\<close>

definition conversation_harness ::
    "('b, 'w) Harness \<Rightarrow> ('b, 'w, 'c) Conversation \<Rightarrow> ('b, 'w) Harness" where
  "conversation_harness h s =
     (let h1 = h\<lparr>hs_Client := cn_client s, hs_Engine := routine_engine (cn_server s)\<rparr> in
      case cn_server s of Over r _ \<Rightarrow> record_error r h1 | _ \<Rightarrow> h1)"

definition pipes_open :: "('b, 'w, 'c) Conversation \<Rightarrow> bool" where
  "pipes_open s \<longleftrightarrow> \<not> pb_closed (h_Input (cn_client s)) \<and> \<not> pb_closed (h_Output (cn_client s))"

section \<open>Turns commute\<close>

lemma line_inner_append:
  "line_inner rt False line buf w = ((LineDone l e, buf'), w') \<Longrightarrow>
     line_inner rt False line (buf @ later) w = ((LineDone l e, buf' @ later), w')"
  by (induction buf arbitrary: line w) (auto split: if_splits prod.splits option.splits)

lemma pb_ReadLine_append:
  assumes "pb_ReadLine rt p w = ((LineDone l e, p'), w')" and "\<not> pb_closed p"
  shows "pb_ReadLine rt (p\<lparr>pb_buf := pb_buf p @ later\<rparr>) w = ((LineDone l e, p'\<lparr>pb_buf := pb_buf p' @ later\<rparr>), w')
    \<and> \<not> pb_closed p'"
proof -
  obtain x w1 where ctx: "rt_CtxDone rt w = (x, w1)" by fastforce
  obtain res buf w2 where li: "line_inner rt False [] (pb_buf p) w1 = ((res, buf), w2)" by (metis prod.exhaust)
  show ?thesis
  proof (cases x)
    case None
    with assms ctx li have "res = LineDone l e" by (simp add: pb_ReadLine_def)
    with None assms ctx li line_inner_append [of rt "[]" "pb_buf p" w1 l e buf w2 later] show ?thesis
      by (auto simp: pb_ReadLine_def)
  qed (use assms ctx in \<open>auto simp: pb_ReadLine_def\<close>)
qed

text \<open>What the server does to the pipes while the client is between two calls: it takes from the
  input and adds to the output.\<close>

definition meanwhile :: "PipeBuffer \<Rightarrow> bytes \<Rightarrow> Client \<Rightarrow> Client" where
  "meanwhile i d c = c\<lparr>h_Input := i, h_Output := (h_Output c)\<lparr>pb_buf := pb_buf (h_Output c) @ d\<rparr>\<rparr>"

lemma meanwhile_simps [simp]:
  "h_Output (meanwhile i d c) = (h_Output c)\<lparr>pb_buf := pb_buf (h_Output c) @ d\<rparr>"
  "h_Input (meanwhile i d c) = i" "h_Transcript (meanwhile i d c) = h_Transcript c"
  "(meanwhile i d c)\<lparr>h_Output := p\<lparr>pb_buf := pb_buf p @ d\<rparr>\<rparr> = meanwhile i d (c\<lparr>h_Output := p\<rparr>)"
  "(meanwhile i d c)\<lparr>h_Transcript := t\<rparr> = meanwhile i d (c\<lparr>h_Transcript := t\<rparr>)"
  "(meanwhile i d c)\<lparr>h_Input := j\<rparr> = meanwhile j d c"
  "meanwhile i d (c\<lparr>h_Input := j\<rparr>) = meanwhile i d c"
  by (simp_all add: meanwhile_def)

lemma readResponse_append:
  assumes "readResponse rt got h w = ((ReplyDone ls e, h'), w')" and "\<not> pb_closed (h_Output h)"
  shows "readResponse rt got (meanwhile i d h) w = ((ReplyDone ls e, meanwhile i d h'), w')
    \<and> h_Input h' = h_Input h \<and> \<not> pb_closed (h_Output h')"
  using assms
proof (induction rt got h w rule: readResponse.induct)
  case (1 rt got h w)
  obtain x w1 where ctx: "rt_CtxDone rt w = (x, w1)" by fastforce
  show ?case
  proof (cases x)
    case None
    with "1.prems"(1) ctx obtain l y p w2 where rd: "pb_ReadLine rt (h_Output h) w1 = ((LineDone l y, p), w2)"
      by (auto simp: readResponse.simps [of rt got h w] split: prod.splits line_result.splits)
    note app = pb_ReadLine_append [OF rd "1.prems"(2), of d]
    obtain t w3 where rec: "RecordServer rt l (h_Transcript h) w2 = (t, w3)" by fastforce
    let ?h = "h\<lparr>h_Output := p, h_Transcript := t\<rparr>"
    have "y = None \<Longrightarrow> \<not> last_line l \<Longrightarrow> readResponse rt (got @ [l]) ?h w3 = ((ReplyDone ls e, h'), w') \<Longrightarrow>
        readResponse rt (got @ [l]) (meanwhile i d ?h) w3 = ((ReplyDone ls e, meanwhile i d h'), w')
        \<and> h_Input h' = h_Input ?h \<and> \<not> pb_closed (h_Output h')"
      using "1.IH" [OF ctx [symmetric] None rd [symmetric] refl refl _ rec [symmetric] refl] app by simp
    with "1.prems"(1) ctx None rd rec app show ?thesis
      by (auto simp: readResponse.simps [of rt got] Let_def split: option.splits if_splits)
  next
    case (Some err)
    then have "readResponse rt got k w = ((ReplyDone got (Some err), k), w1)" for k
      by (simp add: readResponse.simps [of rt got k w] ctx)
    with "1.prems" show ?thesis by simp
  qed
qed

lemma Expect_meanwhile:
  assumes "Expect rt code h w = ((Some r, h'), w')" and "\<not> pb_closed (h_Output h)"
  shows "Expect rt code (meanwhile i d h) w = ((Some r, meanwhile i d h'), w')
    \<and> h_Input h' = h_Input h \<and> \<not> pb_closed (h_Output h')"
proof -
  from assms(1) obtain ls e where "readResponse rt [] h w = ((ReplyDone ls e, h'), w')"
    by (auto simp: Expect_def split: prod.splits reply_result.splits option.splits)
  with assms readResponse_append [OF this assms(2)] show ?thesis
    by (auto simp: Expect_def split: option.splits)
qed

lemma ExpectAny_meanwhile:
  assumes "ExpectAny rt h w = ((Some r, h'), w')" and "\<not> pb_closed (h_Output h)"
  shows "ExpectAny rt (meanwhile i d h) w = ((Some r, meanwhile i d h'), w')
    \<and> h_Input h' = h_Input h \<and> \<not> pb_closed (h_Output h')"
proof -
  from assms(1) obtain ls e where "readResponse rt [] h w = ((ReplyDone ls e, h'), w')"
    by (auto simp: ExpectAny_def split: prod.splits reply_result.splits)
  with assms readResponse_append [OF this assms(2)] show ?thesis
    by (auto simp: ExpectAny_def)
qed

lemma SendRaw_meanwhile:
  assumes "SendRaw rt data h w = (h', w')" and "\<not> pb_closed (h_Input h)" and "\<not> pb_closed i"
  shows "SendRaw rt data (meanwhile i d h) w = (meanwhile (i\<lparr>pb_buf := pb_buf i @ data\<rparr>) d h', w')
    \<and> h_Input h' = (h_Input h)\<lparr>pb_buf := pb_buf (h_Input h) @ data\<rparr> \<and> h_Output h' = h_Output h"
  using assms by (auto simp: SendRaw_def pb_Write_def split: prod.splits)

lemma Send_SendRaw: "Send rt line h w = SendRaw rt (line @ CRLF) h w"
  by (simp add: Send_def SendRaw_def Let_def)

definition written :: "bytes \<Rightarrow> PipeBuffer \<Rightarrow> PipeBuffer" where
  "written d p = p\<lparr>pb_buf := pb_buf p @ d\<rparr>"

lemma written_simps [simp]:
  "pb_buf (written d p) = pb_buf p @ d" "pb_closed (written d p) = pb_closed p" "written [] p = p"
  by (simp_all add: written_def)

lemma client_call_meanwhile:
  assumes "client_call quote crt ts c w = Some (c', w', ts', r)"
    and "\<not> pb_closed (h_Input c)" and "\<not> pb_closed (h_Output c)"
  shows "\<exists>data. h_Input c' = written data (h_Input c) \<and> \<not> pb_closed (h_Output c')
    \<and> (\<forall>i d. \<not> pb_closed i \<longrightarrow>
         client_call quote crt ts (meanwhile i d c) w = Some (meanwhile (written data i) d c', w', ts', r))"
  using assms(1)
proof (cases rule: client_call.cases [of "(quote, crt, ts, c, w)"])
  case (2 _ _ step line rest)
  then have "SendRaw crt (line @ CRLF) c w = (c', w')" "ts' = rest" "r = None"
    using assms(1) by (auto simp: Send_SendRaw split: prod.splits)
  with 2 SendRaw_meanwhile [OF this(1) assms(2)] assms(3) show ?thesis
    by (intro exI [of _ "line @ CRLF"]) (simp add: Send_SendRaw written_def)
next
  case (3 _ _ step data rest)
  then have "SendRaw crt data c w = (c', w')" "ts' = rest" "r = None"
    using assms(1) by (auto split: prod.splits)
  with 3 SendRaw_meanwhile [OF this(1) assms(2)] assms(3) show ?thesis
    by (intro exI [of _ data]) (simp add: written_def)
next
  case (4 _ _ step code rest)
  then obtain x where "Expect crt code c w = ((Some x, c'), w')"
    using assms(1) by (auto simp: replied_to_def split: prod.splits option.splits)
  with 4 assms(1) Expect_meanwhile [OF this assms(3)] show ?thesis
    by (intro exI [of _ "[]"]) (auto simp: replied_to_def split: option.splits prod.splits)
next
  case (5 _ _ step rest)
  then obtain x where "ExpectAny crt c w = ((Some x, c'), w')"
    using assms(1) by (auto simp: replied_to_def split: prod.splits option.splits)
  with 5 assms(1) ExpectAny_meanwhile [OF this assms(3)] show ?thesis
    by (intro exI [of _ "[]"]) (auto simp: replied_to_def split: option.splits prod.splits)
qed (use assms in \<open>auto intro!: exI [of _ "[]"]\<close>)

lemma served_pipes_meanwhile:
  "\<not> pb_closed (h_Output c) \<Longrightarrow> served_pipes rest answer c = meanwhile ((h_Input c)\<lparr>pb_buf := rest\<rparr>) answer c"
  by (simp add: served_pipes_def meanwhile_def pb_Write_def)

lemma turns_commute:
  assumes "pipes_open s" and "client_turn quote crt s = Some a" and "server_turn rt s = Some b"
  shows "\<exists>t. server_turn rt a = Some t \<and> client_turn quote crt b = Some t"
proof -
  let ?c = "cn_client s"
  have open_pipes: "\<not> pb_closed (h_Input ?c)" "\<not> pb_closed (h_Output ?c)"
    using assms(1) by (simp_all add: pipes_open_def)
  from assms(2) obtain c w ts r where call: "client_call quote crt (cn_tasks s) ?c (cn_clock s) = Some (c, w, ts, r)"
    and run: "cn_result s = None" and a: "a = s\<lparr>cn_client := c, cn_clock := w, cn_tasks := ts, cn_result := r\<rparr>"
    by (auto simp: client_turn_def split: if_splits option.splits)
  from client_call_meanwhile [OF call open_pipes] obtain data where
    c: "h_Input c = written data (h_Input ?c)" "\<not> pb_closed (h_Output c)"
    and late: "\<And>i d. \<not> pb_closed i \<Longrightarrow> client_call quote crt (cn_tasks s) (meanwhile i d ?c) (cn_clock s)
      = Some (meanwhile (written data i) d c, w, ts, r)" by blast
  from assms(3) obtain rest g where adv: "advance_lines rt (pb_buf (h_Input ?c)) (cn_server s) = Some (rest, g)"
    and b: "b = s\<lparr>cn_client := served_pipes rest (said g) ?c, cn_server := g\<rparr>"
    by (auto simp: server_turn_def split: option.splits)
  let ?i = "(h_Input ?c)\<lparr>pb_buf := rest\<rparr>"
  have "(h_Input c)\<lparr>pb_buf := rest @ data\<rparr> = written data ?i" by (simp add: c(1) written_def)
  with advance_lines_append [OF adv, of data] c
  have "server_turn rt a = Some (a\<lparr>cn_client := meanwhile (written data ?i) (said g) c, cn_server := g\<rparr>)"
    by (simp add: server_turn_def a served_pipes_meanwhile)
  moreover have "client_turn quote crt b
      = Some (a\<lparr>cn_client := meanwhile (written data ?i) (said g) c, cn_server := g\<rparr>)"
    using late [of ?i "said g"] open_pipes run by (simp add: client_turn_def a b served_pipes_meanwhile)
  ultimately show ?thesis by blast
qed

lemma client_turn_open: "pipes_open s \<Longrightarrow> client_turn quote crt s = Some a \<Longrightarrow> pipes_open a"
  using client_call_meanwhile [of quote crt "cn_tasks s" "cn_client s" "cn_clock s"]
  by (fastforce simp: client_turn_def pipes_open_def split: if_splits option.splits)

lemma server_turn_open: "pipes_open s \<Longrightarrow> server_turn rt s = Some a \<Longrightarrow> pipes_open a"
  by (auto simp: server_turn_def served_pipes_def pipes_open_def pb_Write_def split: option.splits)

interpretation talk: commuting_pair "client_turn quote crt" "server_turn rt" pipes_open for quote crt rt
  by unfold_locales (auto intro: client_turn_open server_turn_open turns_commute)

section \<open>Conversations settle\<close>

lemma client_call_tasks:
  "client_call quote crt ts c w = Some (c', w', ts', r) \<Longrightarrow> length ts' < length ts \<or> r \<noteq> None \<and> length ts' \<le> length ts"
  by (cases rule: client_call.cases [of "(quote, crt, ts, c, w)"])
    (auto simp: replied_to_def split: prod.splits option.splits)

definition work_left :: "('b, 'w, 'c) Conversation \<Rightarrow> nat \<times> nat \<times> nat \<times> nat" where
  "work_left s =
     ((if cn_result s = None then Suc (length (cn_tasks s)) else 0),
      patience (cn_server s), length (pb_buf (h_Input (cn_client s))), midway (cn_server s))"

lemma turn_less:
  assumes "turn (client_turn quote crt) (server_turn rt) s t"
  shows "(work_left t, work_left s) \<in> less_than <*lex*> less_than <*lex*> less_than <*lex*> less_than"
  using assms unfolding turn_def
proof
  assume "client_turn quote crt s = Some t"
  then show ?thesis
    using client_call_tasks [of quote crt "cn_tasks s" "cn_client s" "cn_clock s"]
    by (fastforce simp: client_turn_def work_left_def split: if_splits option.splits)
next
  assume "server_turn rt s = Some t"
  then show ?thesis
    using advance_lines_less [of rt "pb_buf (h_Input (cn_client s))" "cn_server s"]
    by (fastforce simp: server_turn_def served_pipes_def work_left_def split: option.splits)
qed

lemma conversation_settles:
  "\<exists>n t. (turn (client_turn quote crt) (server_turn rt) ^^ n) s t
    \<and> settled_pair (client_turn quote crt) (server_turn rt) t"
proof (induction s rule: wf_induct_rule [OF wf_inv_image [of "less_than <*lex*> less_than <*lex*> less_than <*lex*> less_than" work_left]])
  case 1
  show ?case by (intro wf_lex_prod wf_less_than)
next
  case (2 s)
  show ?case
  proof (cases "settled_pair (client_turn quote crt) (server_turn rt) s")
    case True
    then show ?thesis by (intro exI [of _ 0] exI [of _ s]) simp
  next
    case False
    then obtain u where u: "turn (client_turn quote crt) (server_turn rt) s u"
      by (auto simp: settled_pair_def turn_def)
    from 2 [of u] turn_less [OF u] obtain n t where
      "(turn (client_turn quote crt) (server_turn rt) ^^ n) u t"
      "settled_pair (client_turn quote crt) (server_turn rt) t" by auto
    with relpowp_Suc_I2 [of "turn (client_turn quote crt) (server_turn rt)", OF u] show ?thesis by blast
  qed
qed

text \<open>Whatever the script, the options of the harness, the mailbox and the storage: there is one final
  state, reached after one and the same number of turns, to which every schedule leads, wherever
  it has got to. In it neither party can take a turn. That the client is done is not part of this:
  it may also be waiting in \<open>Expect\<close>, for ever, for a line that is not going to be written.
  \<open>Delivery\<close> and \<open>Lockstep\<close> say of scripts of two kinds how they end.\<close>

lemma conversation_has_one_outcome:
  assumes "h_Input (hs_Client h) = NewPipeBuffer" and "h_Output (hs_Client h) = NewPipeBuffer"
  shows "\<exists>n t. (turn (client_turn quote crt) (server_turn rt) ^^ n) (open_conversation rt script h w cw) t
    \<and> settled_pair (client_turn quote crt) (server_turn rt) t
    \<and> (\<forall>m s. (turn (client_turn quote crt) (server_turn rt) ^^ m) (open_conversation rt script h w cw) s \<longrightarrow>
         m \<le> n \<and> (turn (client_turn quote crt) (server_turn rt) ^^ (n - m)) s t)"
proof -
  have "pipes_open (open_conversation rt script h w cw)"
    using assms by (simp add: pipes_open_def open_conversation_def NewPipeBuffer_def)
  with conversation_settles [of quote crt rt "open_conversation rt script h w cw"] talk.turns_saved
  show ?thesis by (metis (no_types, lifting))
qed

end
