(* ===== verification/Delivery.thy ===== *)
theory Delivery
  imports Conversation
begin

text \<open>
  A message sent through the harness is delivered. A client that greets the server of a new
  harness, names a sender and recipients the mailbox knows, and sends a text within the limits, is
  told 250 under every schedule, and the storage then holds exactly this message. The proof follows
  one schedule, the one in which client and server take turns, exchange by exchange; all others
  lead to the same end by the locale of commuting turns.
\<close>

section \<open>Reading a line that is there\<close>

text \<open>No party waits so long that a deadline passes.\<close>

definition prompt :: "'w Runtime \<Rightarrow> bool" where
  "prompt rt \<longleftrightarrow> (\<forall>w w'. fst (rt_Now rt w') \<le> fst (rt_Now rt w) + 5 * Minute)
     \<and> (\<forall>w. fst (rt_CtxDone rt w) = None)"

definition idle_conn :: "PipeConn \<Rightarrow> BufferedConn" where
  "idle_conn c = \<lparr>bc_conn = Pipe c, bc_buf = [], bc_err = None\<rparr>"

definition on_time :: "'w Runtime \<Rightarrow> PipeConn \<Rightarrow> bool" where
  "on_time rt c \<longleftrightarrow> \<not> pc_closed c
     \<and> (\<forall>w. case pc_readDeadline c of None \<Rightarrow> True | Some d \<Rightarrow> fst (rt_Now rt w) \<le> d)"

lemma ReadBytes_fed:
  assumes "is_line line" and "on_time rt c" and "tr_reads (pc_rw c) = [(line, None)]"
  shows "\<exists>w'. ReadBytes rt (idle_conn c) w =
      (((line, None), idle_conn (c\<lparr>pc_rw := (pc_rw c)\<lparr>tr_reads := []\<rparr>\<rparr>)), w') \<and> (w' = w \<or> w' = snd (rt_Now rt w))"
proof -
  let ?c = "c\<lparr>pc_rw := (pc_rw c)\<lparr>tr_reads := []\<rparr>\<rparr>" and ?b = "idle_conn c"
  define w' where "w' = (case pc_readDeadline c of None \<Rightarrow> w | Some d \<Rightarrow> snd (rt_Now rt w))"
  obtain body where line: "line = body @ [CHR 0x0A]" "CHR 0x0A \<notin> set body" using assms(1) by (auto simp: is_line_def)
  have "Pipe_Read rt c w = (((line, None), ?c), w')"
    using assms(2,3) unfolding Pipe_Read_def w'_def on_time_def
    by (cases "pc_readDeadline c") (auto simp: tr_Read_def case_prod_beta not_less)
  then have "fill rt ?b w = (?b\<lparr>bc_conn := Pipe ?c, bc_buf := line\<rparr>, w')"
    unfolding fill_Suc fill_loop.simps(2) using line(1) by (simp add: idle_conn_def)
  then have "ReadBytes rt ?b w = ReadBytes rt (?b\<lparr>bc_conn := Pipe ?c, bc_buf := line\<rparr>) w'"
    by (subst ReadBytes.simps) (simp add: idle_conn_def)
  also have "\<dots> = (((line, None), idle_conn ?c), w')"
    using line by (simp add: ReadBytes.simps [of rt _ w'] idle_conn_def)
  finally show ?thesis by (auto simp: w'_def split: option.split)
qed

section \<open>The server between two commands\<close>

text \<open>The engine of a new harness, in a state of the protocol. \<open>E\<close> tells about its envelope, the
  number of its transactions, and the storage.\<close>

type_synonym ('b, 'v) business = "('b, 'v MemWorld) EnvelopeBuilder option \<Rightarrow> int \<Rightarrow> MemStorage \<Rightarrow> bool"

definition standing ::
    "'v Runtime \<Rightarrow> Registry \<Rightarrow> State \<Rightarrow> ('b, 'v) business \<Rightarrow> ('b, 'v MemWorld) Engine \<Rightarrow> bool" where
  "standing rt m st E e \<longleftrightarrow>
     e_config e = harness_config rt [] \<and> sm_state (e_sm e) = st \<and> ss_State (e_state e) \<noteq> StateStartTLS
     \<and> \<not> ss_TLSActive (e_state e) \<and> e_maxCommandLength e = 512
     \<and> E (e_envelope e) (TransactionCount (e_stats e)) (mw_Storage (e_world e)) \<and> mw_Mailbox (e_world e) = m
     \<and> writable e \<and> (\<exists>c. e_conn e = idle_conn c \<and> on_time (lift_rt rt) c)"

lemma harness_defaults [simp]:
  "ServerHostname (harness_config rt []) = ''test.example.com''" "Limits (harness_config rt []) = DefaultSessionLimits"
  "cf_TLSPolicy (harness_config rt []) = TLSDisabled" "cf_TLSProvider (harness_config rt []) = None"
  "cf_Mailbox (harness_config rt []) = Some (mem_mailbox rt)" "cf_SenderPolicy (harness_config rt []) = None"
  "cf_Storage (harness_config rt []) = Some (mem_storage rt)" "cf_EnvelopeFactory (harness_config rt []) = None"
  "Hooks (harness_config rt []) = None"
  by (simp_all add: harness_config_def)

lemma default_limits [simp]:
  "command_timeout DefaultSessionLimits = 5 * Minute" "data_timeout DefaultSessionLimits = 10 * Minute"
  "0 < Minute"
  by (simp_all add: DefaultSessionLimits_def command_timeout_def data_timeout_def Minute_def Second_def)

lemma lift_rt_world [simp]:
  "mw_Storage (snd (rt_Now (lift_rt rt) w)) = mw_Storage w" "mw_Mailbox (snd (rt_Now (lift_rt rt) w)) = mw_Mailbox w"
  "mw_Storage (snd (rt_CtxDone (lift_rt rt) w)) = mw_Storage w" "mw_Mailbox (snd (rt_CtxDone (lift_rt rt) w)) = mw_Mailbox w"
  "mw_Storage (snd (rt_Rand (lift_rt rt) n w)) = mw_Storage w" "mw_Mailbox (snd (rt_Rand (lift_rt rt) n w)) = mw_Mailbox w"
  "rt_Unicode (lift_rt rt) = rt_Unicode rt"
  by (simp_all add: lift_rt_def case_prod_beta)

lemma prompt_lift: "prompt rt \<Longrightarrow> prompt (lift_rt rt)"
  by (simp add: prompt_def lift_rt_def case_prod_beta)

lemma fed_readLine:
  assumes "standing rt m st E e" and "prompt rt" and "is_line line"
  obtains e0 f where "ctx_done (lift_rt rt) (feed line e) = (None, e0)"
    "readLine (lift_rt rt) (command_timeout (Limits (e_config e))) e0 = (Inr line, f)"
    "standing rt m st E f" "sent f = []"
proof -
  let ?rt = "lift_rt rt"
  have p: "prompt ?rt" by (rule prompt_lift [OF assms(2)])
  obtain c where c: "e_conn e = idle_conn c" using assms(1) by (auto simp: standing_def)
  have wr: "tr_writes (pc_rw c) = []" "\<not> pc_closed c"
    using assms(1) c by (auto simp: standing_def writable_def idle_conn_def)
  obtain w0 where ctx: "rt_CtxDone ?rt (e_world e) = (None, w0)" using p by (metis prompt_def prod.collapse)
  obtain now w1 where now: "rt_Now ?rt w0 = (now, w1)" by fastforce
  have ne: "line \<noteq> []" using assms(3) by (auto simp: is_line_def)
  let ?d = "Some (now + 5 * Minute)"
  let ?c = "Pipe_SetReadDeadline ?d (c\<lparr>pc_rw := (pc_rw c)\<lparr>tr_reads := [(line, None)], tr_sent := []\<rparr>\<rparr>)"
  have "fst (rt_Now ?rt w) \<le> now + 5 * Minute" for w
    using p now unfolding prompt_def by (metis fst_conv)
  with wr(2) have "on_time ?rt ?c" by (simp add: on_time_def Pipe_SetReadDeadline_def Let_def)
  moreover have "tr_reads (pc_rw ?c) = [(line, None)]" by (simp add: Pipe_SetReadDeadline_def Let_def)
  ultimately have "\<exists>w2. ReadBytes ?rt (idle_conn ?c) w1 =
      (((line, None), idle_conn (?c\<lparr>pc_rw := (pc_rw ?c)\<lparr>tr_reads := []\<rparr>\<rparr>)), w2) \<and> (w2 = w1 \<or> w2 = snd (rt_Now ?rt w1))"
    by (rule ReadBytes_fed [OF assms(3)])
  then obtain w2 where rd: "ReadBytes ?rt (idle_conn ?c) w1 =
      (((line, None), idle_conn (?c\<lparr>pc_rw := (pc_rw ?c)\<lparr>tr_reads := []\<rparr>\<rparr>)), w2)" "w2 = w1 \<or> w2 = snd (rt_Now ?rt w1)"
    by (elim exE conjE)
  let ?e0 = "(feed line e)\<lparr>e_world := w0\<rparr>"
  let ?fin = "Pipe_SetReadDeadline None (?c\<lparr>pc_rw := (pc_rw ?c)\<lparr>tr_reads := []\<rparr>\<rparr>)"
  have conn: "e_conn (feed line e) = idle_conn (c\<lparr>pc_rw := (pc_rw c)\<lparr>tr_reads := [(line, None)], tr_sent := []\<rparr>\<rparr>)"
    by (simp add: feed_def c idle_conn_def ne)
  have "ReadLine ?rt (5 * Minute) (e_conn ?e0) w0 = (((line, None), idle_conn ?fin), w2)"
    using rd(1) by (simp add: ReadLine_def now conn) (simp add: idle_conn_def)
  then have "readLine ?rt (command_timeout (Limits (e_config e))) ?e0
      = (Inr line, add_bytes_read (length line) (?e0\<lparr>e_conn := idle_conn ?fin, e_world := w2\<rparr>))" (is "_ = (_, ?f)")
    using assms(1) by (simp add: readLine_def standing_def Let_def)
  moreover have "ctx_done ?rt (feed line e) = (None, ?e0)" by (simp add: ctx_done_def ctx)
  moreover have "mw_Storage w0 = mw_Storage (e_world e)" "mw_Mailbox w0 = mw_Mailbox (e_world e)"
    "mw_Storage w1 = mw_Storage w0" "mw_Mailbox w1 = mw_Mailbox w0"
    using lift_rt_world(3,4) [of rt "e_world e"] lift_rt_world(1,2) [of rt w0] ctx now by simp_all
  then have "standing rt m st E ?f"
    using assms(1) rd(2) wr
    by (auto simp: standing_def add_bytes_read_def writable_def idle_conn_def Pipe_SetReadDeadline_def Let_def on_time_def)
  moreover have "sent ?f = []"
    by (simp add: sent_def add_bytes_read_def idle_conn_def Pipe_SetReadDeadline_def Let_def)
  ultimately show thesis using that by blast
qed

section \<open>Commands\<close>

lemma standing_stats:
  "standing rt m st E f \<Longrightarrow> standing rt m st E (f\<lparr>e_stats := (e_stats f)\<lparr>CommandCount := n\<rparr>\<rparr>)"
  by (simp add: standing_def writable_def)

lemma write_standing:
  assumes "standing rt m st E f"
  obtains g where "writeResponse r f = (None, g)" "standing rt m st E g" "sent g = sent f @ Response_Bytes r"
proof -
  obtain c where c: "e_conn f = idle_conn c" "on_time (lift_rt rt) c" "\<not> pc_closed c" "tr_writes (pc_rw c) = []"
    using assms by (auto simp: standing_def writable_def idle_conn_def)
  let ?st = "(e_stats f)\<lparr>BytesWritten := i64 (BytesWritten (e_stats f) + int (length (Response_Bytes r)))\<rparr>"
  let ?c = "c\<lparr>pc_rw := (pc_rw c)\<lparr>tr_sent := tr_sent (pc_rw c) @ Response_Bytes r\<rparr>\<rparr>"
  have w: "writeResponse r f = (None, f\<lparr>e_conn := idle_conn ?c, e_stats := ?st\<rparr>)"
    using c by (simp add: writeResponse_def idle_conn_def Pipe_Write_def tr_Write_def)
  show thesis
    by (rule that [OF w]) (use assms c in \<open>auto simp: standing_def writable_def sent_def idle_conn_def on_time_def\<close>)
qed

lemma send_reply_standing:
  assumes "standing rt m st E f"
  obtains g where "send_reply r f = (None, g)" "standing rt m st E g" "sent g = sent f @ Response_Bytes r"
proof -
  from write_standing [OF assms] obtain g where g: "writeResponse r f = (None, g)" "standing rt m st E g"
    "sent g = sent f @ Response_Bytes r" .
  show thesis
    by (rule that [of "snd (send_reply r f)"])
      (use g in \<open>auto simp: send_reply_def standing_def writable_def sent_def\<close>)
qed

lemma command_piece:
  assumes "standing rt m st E e" and "prompt rt" and "is_line line"
    and "ParseCommand (rt_Unicode rt) 512 line = Inr cmd" and "cmd_Verb cmd \<noteq> CmdDATA"
    and "\<And>sm. sm_state sm = st \<Longrightarrow> sm_IsCommandAllowed (cmd_Verb cmd) sm"
    and "\<not> IsTerminal st"
    and "\<And>f. standing rt m st E f \<Longrightarrow>
      \<exists>g. handleCommand (lift_rt rt) cmd f = Inr (resp, g) \<and> standing rt m st' E' g \<and> sent g = sent f"
  shows "\<exists>g. piece (lift_rt rt) line (AtCommand e) = Some (AtCommand g) \<and> standing rt m st' E' g
    \<and> sent g = Response_Bytes resp"
proof -
  from fed_readLine [OF assms(1-3)] obtain e0 f where
    rd: "ctx_done (lift_rt rt) (feed line e) = (None, e0)"
      "readLine (lift_rt rt) (command_timeout (Limits (e_config e))) e0 = (Inr line, f)"
    and f: "standing rt m st E f" "sent f = []" .
  let ?f = "f\<lparr>e_stats := (e_stats f)\<lparr>CommandCount := i64 (CommandCount (e_stats f) + 1)\<rparr>\<rparr>"
  note f' = standing_stats [OF f(1), of "i64 (CommandCount (e_stats f) + 1)"]
  from assms(8) [OF f'] obtain g where g: "handleCommand (lift_rt rt) cmd ?f = Inr (resp, g)"
    "standing rt m st' E' g" "sent g = sent ?f" by blast
  from send_reply_standing [OF g(2), of resp] obtain h where h: "send_reply resp g = (None, h)"
    "standing rt m st' E' h" "sent h = sent g @ Response_Bytes resp" .
  have e0: "e_config e0 = e_config e" "e_sm e0 = e_sm e" "e_state e0 = e_state e"
    using rd(1) by (auto simp: ctx_done_def split: prod.splits)
  have hook: "command_hook cmd ?f = (None, ?f)" and len: "e_maxCommandLength f = 512"
    and allowed: "sm_IsCommandAllowed (cmd_Verb cmd) (e_sm f)"
    using f(1) assms(6) by (auto simp: command_hook_def standing_def)
  have "processOneCommand (lift_rt rt) e0 = Inr (None, h)"
    using rd(2) assms(4) len hook allowed g(1) h(1) e0(1) by (simp add: processOneCommand_def dispatch_def)
  then have "run_step (lift_rt rt) (feed line e) = Continue h"
    using rd(1) e0 assms(1,7) by (simp add: run_step_def standing_def)
  moreover have "data_opened (lift_rt rt) (feed line e) = None"
    using rd assms(4,5) len hook by (simp add: data_opened_def Let_def)
  moreover have "sent ?f = []" using f(2) by (simp add: sent_def)
  ultimately show ?thesis using h g(3) by simp
qed

lemma command_moves:
  "sm_IsCommandAllowed c m \<Longrightarrow> sm_state (snd (TransitionForCommand c True m)) = nextStateForCommand c m"
  by (simp add: allowed_command_moves)

definition composed :: "MailPath \<Rightarrow> MailPath list \<Rightarrow> StandardEnvelopeBuilder \<Rightarrow> bool" where
  "composed from rcpts b \<longleftrightarrow> b_mailFrom b = Some from \<and> b_recipients b = rcpts
     \<and> \<not> b_finalized b \<and> b_dataWriter b = None \<and> b_data b = [] \<and> b_writers b = [] \<and> CHR 0x0A \<notin> set (b_id b)"

definition nothing_yet :: "('b, 'v) business" where
  "nothing_yet x n st \<longleftrightarrow> x = None \<and> n = 0 \<and> st = NewStorage"

definition drafting :: "MailPath \<Rightarrow> MailPath list \<Rightarrow> ('b, 'v) business" where
  "drafting from rcpts x n st \<longleftrightarrow> (\<exists>b. x = Some (StdB b) \<and> composed from rcpts b) \<and> n = 0 \<and> st = NewStorage"

lemma HELO_standing:
  assumes "standing rt m StateGreeted nothing_yet f" and "ParseHeloHostname (cmd_Argument cmd) = Inr name"
    and "cmd_Verb cmd = CmdHELO"
  shows "\<exists>g. handleCommand (lift_rt rt) cmd f = Inr (NewResponse 250 (''test.example.com Hello '' @ name), g)
    \<and> standing rt m StateIdentified nothing_yet g \<and> sent g = sent f"
  using assms command_moves [of CmdHELO "e_sm f"]
  by (simp add: handleCommand_def handleHELO_def identify_def hello_def standing_def resetTransaction_def set_state_def
      sm_command_def on_sm_def allowed_states writable_def sent_def nextStateForCommand_def nothing_yet_def)

lemma MAIL_standing:
  assumes "standing rt m StateIdentified nothing_yet f" and "cmd_Verb cmd = CmdMAIL"
    and "ParseMailPath (rt_Unicode rt) (cmd_Argument cmd) ''FROM'' = Inr from" and "cmd_Params cmd = None"
  shows "\<exists>g. handleCommand (lift_rt rt) cmd f = Inr (ResponseOK, g)
    \<and> standing rt m StateMailFrom (drafting from []) g \<and> sent g = sent f"
proof -
  let ?rt = "lift_rt rt"
  have cfg: "e_config f = harness_config rt []" using assms(1) by (simp add: standing_def)
  obtain b w1 where nb: "NewStandardEnvelopeBuilder ?rt (envelope_metadata ?rt f) (e_world f) = (b, w1)" by fastforce
  obtain t w2 where now: "rt_Now ?rt w1 = (t, w2)" by fastforce
  let ?b = "b\<lparr>b_mailFrom := Some from, b_esmtpParams := None, b_receivedAt := Some t\<rparr>"
  have b: "\<not> b_finalized b" "composed from [] ?b"
    and w1: "mw_Storage w1 = mw_Storage (e_world f)" "mw_Mailbox w1 = mw_Mailbox (e_world f)"
    using nb by (auto simp: NewStandardEnvelopeBuilder_def generateEnvelopeID_def composed_def case_prod_beta LF_not_in_hex)
  have w2: "mw_Storage w2 = mw_Storage w1" "mw_Mailbox w2 = mw_Mailbox w1"
    using lift_rt_world(1,2) [of rt w1] now by simp_all
  have "handleMAIL ?rt cmd f = (ResponseOK, set_state StateMailFrom (sm_command CmdMAIL (f\<lparr>e_envelope := Some (StdB ?b), e_world := w2\<rparr>)))"
    using assms(1,3,4) nb now b(1)
    by (simp add: handleMAIL_def cfg size_rejected_def params_get_def validate_sender_def NewBuilder_def SetMailFrom_def
        run_hook_def standing_def nothing_yet_def Let_def DefaultSessionLimits_def)
  then show ?thesis
    using assms(1,2) b(2) w1 w2 command_moves [of CmdMAIL "e_sm f"]
    by (simp add: handleCommand_def standing_def set_state_def sm_command_def on_sm_def allowed_states writable_def
        sent_def nextStateForCommand_def drafting_def nothing_yet_def)
qed

lemma RCPT_standing:
  assumes "standing rt m st (drafting from rcpts) f" and "st = StateMailFrom \<or> st = StateRcptTo" and "cmd_Verb cmd = CmdRCPT"
    and "ParseMailPath (rt_Unicode rt) (cmd_Argument cmd) ''TO'' = Inr to" and "registered rt m to" and "length rcpts < 100"
  shows "\<exists>g. handleCommand (lift_rt rt) cmd f = Inr (ResponseOK, g)
    \<and> standing rt m StateRcptTo (drafting from (rcpts @ [to])) g \<and> sent g = sent f"
proof -
  have cfg: "e_config f = harness_config rt []" and m: "mw_Mailbox (e_world f) = m" using assms(1) by (simp_all add: standing_def)
  from assms(1) obtain b where b: "e_envelope f = Some (StdB b)" "composed from rcpts b"
    by (auto simp: standing_def drafting_def)
  let ?b = "b\<lparr>b_recipients := rcpts @ [to]\<rparr>"
  have "handleRCPT (lift_rt rt) cmd f = Inr (ResponseOK, set_state StateRcptTo (sm_command CmdRCPT (f\<lparr>e_envelope := Some (StdB ?b)\<rparr>)))"
    using assms(4,5,6) b m
    by (simp add: handleRCPT_def cfg recipients_full_def mem_mailbox_def registered_def accept_recipient_def AddRecipient_def
        run_hook_def composed_def Let_def DefaultSessionLimits_def RecipientCount_def Build_def)
  moreover have "composed from (rcpts @ [to]) ?b" using b(2) by (simp add: composed_def)
  ultimately show ?thesis
    using assms(1-3) command_moves [of CmdRCPT "e_sm f"]
    by (auto simp: handleCommand_def standing_def set_state_def sm_command_def on_sm_def allowed_states writable_def
        sent_def nextStateForCommand_def drafting_def nothing_yet_def)
qed

lemma QUIT_standing:
  assumes "standing rt m StateIdentified E f" and "cmd_Verb cmd = CmdQUIT"
  shows "\<exists>g. handleCommand (lift_rt rt) cmd f = Inr (ResponseBye, g)
    \<and> standing rt m StateTerminated E g \<and> sent g = sent f"
  using assms command_moves [of CmdQUIT "e_sm f"]
  by (simp add: handleCommand_def handleQUIT_def standing_def sm_command_def on_sm_def sm_state_Terminate allowed_states
      nextStateForCommand_def writable_def sent_def)

text \<open>A session that has terminated returns.\<close>

lemma terminated_piece:
  assumes "standing rt m StateTerminated E e" and "prompt rt"
  shows "\<exists>g. piece (lift_rt rt) [] (AtCommand e) = Some (Over None g) \<and> sent g = []
    \<and> E (e_envelope g) (TransactionCount (e_stats g)) (mw_Storage (e_world g))"
proof -
  let ?rt = "lift_rt rt"
  obtain c where c: "e_conn e = idle_conn c" "Hooks (e_config e) = None" using assms(1) by (auto simp: standing_def)
  obtain w0 where ctx: "rt_CtxDone ?rt (e_world e) = (None, w0)"
    using prompt_lift [OF assms(2)] by (metis prompt_def prod.collapse)
  obtain t w1 where now: "rt_Now ?rt w0 = (t, w1)" by fastforce
  have w: "mw_Storage w0 = mw_Storage (e_world e)" "mw_Storage w1 = mw_Storage (e_world e)"
    using lift_rt_world(3) [of rt "e_world e"] lift_rt_world(1) [of rt w0] ctx now by simp_all
  show ?thesis
    using assms(1) c now w
    by (simp add: IsTerminal_def needs_line_def standing_def run_step_def ctx_done_def ctx leave_def handleDisconnect_def engine_now_def
        run_hook_def sent_def feed_def idle_conn_def)
qed

section \<open>The data phase\<close>

definition receiving :: "('b, 'v) business" where
  "receiving x n st \<longleftrightarrow> n = 0 \<and> st = NewStorage"

lemma deadline_standing:
  assumes "standing rt m st E f" and "prompt rt" and "engine_now (lift_rt rt) f = (t, g)" and "5 * Minute \<le> d"
  shows "standing rt m st E (set_read_deadline (Some (t + d)) g)" and "sent (set_read_deadline (Some (t + d)) g) = sent f"
proof -
  let ?rt = "lift_rt rt"
  obtain c where c: "e_conn f = idle_conn c" "\<not> pc_closed c" "tr_writes (pc_rw c) = []"
    using assms(1) by (auto simp: standing_def writable_def idle_conn_def)
  obtain w where g: "rt_Now ?rt (e_world f) = (t, w)" "g = f\<lparr>e_world := w\<rparr>"
    using assms(3) by (auto simp: engine_now_def split: prod.splits)
  have w: "mw_Storage w = mw_Storage (e_world f)" "mw_Mailbox w = mw_Mailbox (e_world f)"
    using lift_rt_world(1,2) [of rt "e_world f"] g(1) by simp_all
  have "fst (rt_Now ?rt v) \<le> t + d" for v
    using prompt_lift [OF assms(2)] g(1) assms(4) unfolding prompt_def by (metis add_left_mono fst_conv order_trans)
  then have late: "on_time ?rt (Pipe_SetReadDeadline (Some (t + d)) c)"
    using c(2) by (simp add: on_time_def Pipe_SetReadDeadline_def Let_def)
  show "standing rt m st E (set_read_deadline (Some (t + d)) g)"
    using assms(1) c w late by (simp add: standing_def set_read_deadline_def g(2) writable_def)
      (simp add: idle_conn_def Pipe_SetReadDeadline_def Let_def)
  show "sent (set_read_deadline (Some (t + d)) g) = sent f"
    using c by (simp add: set_read_deadline_def g(2) sent_def idle_conn_def Pipe_SetReadDeadline_def Let_def)
qed

lemma fed_data_line:
  assumes "standing rt m st E e" and "prompt rt" and "is_line line" and "5 * Minute \<le> d"
  obtains f where "read_data_line (lift_rt rt) d (feed line e) = (Inr line, f)" "standing rt m st E f" "sent f = []"
proof -
  let ?rt = "lift_rt rt"
  obtain c where c: "e_conn e = idle_conn c" "on_time ?rt c" "\<not> pc_closed c" "tr_writes (pc_rw c) = []"
    using assms(1) by (auto simp: standing_def writable_def idle_conn_def)
  obtain w0 where ctx: "rt_CtxDone ?rt (e_world e) = (None, w0)"
    using prompt_lift [OF assms(2)] by (metis prompt_def prod.collapse)
  have ne: "line \<noteq> []" using assms(3) by (auto simp: is_line_def)
  let ?c = "c\<lparr>pc_rw := (pc_rw c)\<lparr>tr_reads := [(line, None)], tr_sent := []\<rparr>\<rparr>"
  have conn: "e_conn (feed line e) = idle_conn ?c" by (simp add: feed_def c idle_conn_def ne)
  have "on_time ?rt ?c" using c(2) by (simp add: on_time_def)
  from ReadBytes_fed [OF assms(3) this, of w0] obtain w2 where
    rd: "ReadBytes ?rt (idle_conn ?c) w0 = (((line, None), idle_conn (?c\<lparr>pc_rw := (pc_rw ?c)\<lparr>tr_reads := []\<rparr>\<rparr>)), w2)"
      "w2 = w0 \<or> w2 = snd (rt_Now ?rt w0)" by auto
  let ?g = "add_bytes_read (length line)
    ((feed line e)\<lparr>e_conn := idle_conn (?c\<lparr>pc_rw := (pc_rw ?c)\<lparr>tr_reads := []\<rparr>\<rparr>), e_world := w2\<rparr>)"
  have w: "mw_Storage w0 = mw_Storage (e_world e)" "mw_Mailbox w0 = mw_Mailbox (e_world e)"
    using lift_rt_world(3,4) [of rt "e_world e"] ctx by simp_all
  then have g: "standing rt m st E ?g" "sent ?g = []"
    using assms(1) c rd(2) by (auto simp: standing_def add_bytes_read_def writable_def sent_def idle_conn_def on_time_def)
  obtain t h where now: "engine_now ?rt ?g = (t, h)" by fastforce
  have "read_data_line ?rt d (feed line e) = (Inr line, set_read_deadline (Some (t + d)) h)"
    using rd(1) now conn ctx by (simp add: read_data_line_def ctx_done_def)
  then show thesis using that deadline_standing [OF g(1) assms(2) now assms(4)] g(2) by simp
qed

lemma data_piece:
  assumes "standing rt m st E e" and "prompt rt" and "is_line l" and "5 * Minute \<le> d"
    and "within_limits DefaultSessionLimits n (l # ls)"
  shows "\<exists>f. piece (lift_rt rt) (StuffLine l) (AtData 0 d n (StdB (opened b text)) e)
      = Some (AtData 0 d (n + int (length l)) (StdB (opened b (text @ l))) f)
    \<and> standing rt m st E f \<and> sent f = []"
proof -
  from fed_data_line [OF assms(1,2) is_line_StuffLine [OF assms(3)] assms(4)] obtain f where
    f: "read_data_line (lift_rt rt) d (feed (StuffLine l) e) = (Inr (StuffLine l), f)" "standing rt m st E f" "sent f = []" .
  have "Limits (e_config f) = DefaultSessionLimits" using f(2) by (simp add: standing_def)
  with f StuffLine_props [OF assms(3)] within_limits_Cons [OF assms(5)] show ?thesis
    by (simp add: data_line_def writer_Write_def opened_def)
qed

text \<open>The terminator: the message is stored.\<close>

definition delivered :: "MailPath \<Rightarrow> MailPath list \<Rightarrow> bytes \<Rightarrow> ('b, 'v) business" where
  "delivered from rcpts text x n st \<longleftrightarrow> x = None \<and> n = 1 \<and> Count st = 1
     \<and> (\<exists>i msg. Get st i = Some msg \<and> env_mailFrom (msg_Envelope msg) = from
          \<and> env_recipients (msg_Envelope msg) = rcpts \<and> msg_Data msg = text)"

lemma first_message:
  assumes "mw_Storage w = NewStorage"
  obtains r w' where "mem_storage rt env w = (Inr r, w')" "mw_Mailbox w' = mw_Mailbox w"
    "mem_lookup (mw_Storage w') = [env_id env \<mapsto> (env, env_data env)]" "Count (mw_Storage w') = 1"
proof -
  obtain r s w' where put: "put_message (lift_rt rt) env (Data env) NewStorage w = ((r, s), w')" by (metis prod.exhaust)
  have new: "storage_wf NewStorage" "mem_lookup NewStorage = Map.empty" "Count NewStorage = 0"
    by (simp_all add: NewStorage_def storage_wf_def mem_lookup_def Get_def Count_def fun_eq_iff)
  show thesis
    by (rule that [of r "w'\<lparr>mw_Storage := s\<rparr>"])
      (use put put_message_mailbox [OF put] put_message_result(2,3) [OF new(1) put] new assms
        in \<open>simp_all add: mem_storage_def Store_def Data_def\<close>)
qed

lemma last_piece:
  fixes e :: "('b, 'v MemWorld) Engine"
  assumes "standing rt m StateData receiving e" and "prompt rt" and "composed from rcpts b" and "rcpts \<noteq> []" and "5 * Minute \<le> d"
  shows "\<exists>f i. piece (lift_rt rt) (''.'' @ CRLF) (AtData 0 d n (StdB (opened b text)) e) = Some (AtCommand f)
    \<and> standing rt m StateIdentified (delivered from rcpts text) f
    \<and> sent f = Response_Bytes (NewResponse Reply250OK (''OK, message '' @ i @ '' accepted'')) \<and> CHR 0x0A \<notin> set i"
proof -
  have tm: "is_line (''.'' @ CRLF)" "IsTerminator (''.'' @ CRLF)"
    by (simp_all add: is_line_def CRLF_def IsTerminator_def trim_eol_def TrimSuffix_def HasSuffix_def)
  from fed_data_line [OF assms(1,2) tm(1) assms(5)] obtain f where
    f: "read_data_line (lift_rt rt) d (feed (''.'' @ CRLF) e) = (Inr (''.'' @ CRLF), f)" "standing rt m StateData receiving f" "sent f = []" .
  let ?f = "set_read_deadline None f" and ?env = "sealed b text"
  have f': "standing rt m StateData receiving ?f" "sent ?f = []"
    using f(2,3) by (auto simp: standing_def set_read_deadline_def writable_def sent_def idle_conn_def on_time_def
        Pipe_SetReadDeadline_def Let_def)
  then have "mw_Storage (e_world ?f) = NewStorage" and cfg: "e_config ?f = harness_config rt []"
    by (simp_all add: standing_def receiving_def)
  from first_message [OF this(1), of rt ?env] obtain r w where w: "mem_storage rt ?env (e_world ?f) = (Inr r, w)"
    "mw_Mailbox w = mw_Mailbox (e_world ?f)" "mem_lookup (mw_Storage w) = [env_id ?env \<mapsto> (?env, env_data ?env)]"
    "Count (mw_Storage w) = 1" .
  have b: "ready b" "env_mailFrom ?env = from" "env_recipients ?env = rcpts" "env_data ?env = text" "CHR 0x0A \<notin> set (b_id b)"
    "env_id ?env = b_id b"
    using assms(3,4) by (auto simp: composed_def ready_def sealed_def Build_def)
  obtain resp g where g: "message_accepted ?env (?f\<lparr>e_world := w\<rparr>) = (resp, g)" by fastforce
  obtain msg where msg: "Get (mw_Storage w) (b_id b) = Some msg" "msg_Envelope msg = ?env" "msg_Data msg = text"
    using fun_cong [OF w(3), of "b_id b"] b(4,6) by (auto simp: mem_lookup_def)
  then have del: "delivered from rcpts text (None :: ('b, 'v MemWorld) EnvelopeBuilder option) 1 (mw_Storage w)"
    unfolding delivered_def using w(4) b(2,3) by (intro conjI exI [of _ "b_id b"] exI [of _ msg]) simp_all
  from g have acc: "resp = NewResponse Reply250OK (''OK, message '' @ b_id b @ '' accepted'')"
    "standing rt m StateIdentified (delivered from rcpts text) g" "sent g = []"
    using f' w(2) b(6) cfg del
    by (auto simp: message_accepted_def Let_def standing_def on_sm_def set_state_def sm_state_Reset sm_state_DataComplete
        run_hook_def receiving_def writable_def sent_def)
  have "finish_data 0 (StdB (opened b text)) ?f = (resp, g)"
    using finish_data_opened [OF b(1), of "text" ?f] w(1) g cfg by (simp add: store_message_def)
  moreover from send_reply_standing [OF acc(2), of resp] obtain h where "send_reply resp g = (None, h)"
    "standing rt m StateIdentified (delivered from rcpts text) h" "sent h = sent g @ Response_Bytes resp" .
  ultimately show ?thesis
    using f(1) tm(2) acc b(5) by (auto simp: data_line_def data_closed_def Let_def)
qed

lemma DATA_piece:
  assumes "standing rt m StateRcptTo (drafting from rcpts) e" and "prompt rt" and "rcpts \<noteq> []"
  shows "\<exists>b f. piece (lift_rt rt) (''DATA'' @ CRLF) (AtCommand e) = Some (AtData 0 (10 * Minute) 0 (StdB (opened b [])) f)
    \<and> composed from rcpts b \<and> standing rt m StateData receiving f \<and> sent f = Response_Bytes ResponseStartMailInput"
proof -
  let ?rt = "lift_rt rt" and ?line = "''DATA'' @ CRLF"
  have "is_line ?line" by (simp add: is_line_def CRLF_def)
  from fed_readLine [OF assms(1,2) this] obtain e0 f where
    rd: "ctx_done ?rt (feed ?line e) = (None, e0)" "readLine ?rt (command_timeout (Limits (e_config e))) e0 = (Inr ?line, f)"
    and f: "standing rt m StateRcptTo (drafting from rcpts) f" "sent f = []" .
  let ?f = "f\<lparr>e_stats := (e_stats f)\<lparr>CommandCount := i64 (CommandCount (e_stats f) + 1)\<rparr>\<rparr>"
  let ?g = "set_state StateData (sm_command CmdDATA ?f)"
  obtain cmd where cmd: "ParseCommand (rt_Unicode rt) 512 ?line = Inr cmd" "cmd_Verb cmd = CmdDATA"
    using command_written [of CmdDATA "''DATA''" "[]" 512 "rt_Unicode rt"] by (auto simp: CRLF_def upper_byte_def)
  have cfg: "e_config f = harness_config rt []" "e_maxCommandLength f = 512" "sm_state (e_sm f) = StateRcptTo"
    using f(1) by (simp_all add: standing_def)
  then have hook: "command_hook cmd ?f = (None, ?f)" "run_hook OnDataStart ?g = ?g" "sm_IsCommandAllowed CmdDATA (e_sm ?f)"
    by (simp_all add: command_hook_def run_hook_def set_state_def sm_command_def on_sm_def allowed_states)
  have "standing rt m StateData (drafting from rcpts) ?g" "sent ?g = []"
    using f command_moves [of CmdDATA "e_sm f"]
    by (simp_all add: standing_def set_state_def sm_command_def on_sm_def allowed_states writable_def sent_def nextStateForCommand_def)
  with write_standing [OF this(1), of ResponseStartMailInput] obtain h where
    h: "writeResponse ResponseStartMailInput ?g = (None, h)" "standing rt m StateData (drafting from rcpts) h"
      "sent h = Response_Bytes ResponseStartMailInput" by auto
  from h(2) obtain b where b: "e_envelope h = Some (StdB b)" "composed from rcpts b" by (auto simp: standing_def drafting_def)
  then have wr: "DataWriter b = (Inr 0, opened b [])" by (simp add: composed_def DataWriter_def opened_def)
  have h': "standing rt m StateData receiving h" using h(2) by (auto simp: standing_def drafting_def receiving_def)
  have lim: "data_timeout (Limits (e_config h)) = 10 * Minute" using h(2) by (simp add: standing_def)
  obtain t k where now: "engine_now ?rt h = (t, k)" by fastforce
  have "data_opened ?rt (feed ?line e)
      = Some (0, 10 * Minute, StdB (opened b []), set_read_deadline (Some (t + 10 * Minute)) k)"
    using rd cmd cfg hook h(1) b(1) wr now lim by (simp add: data_opened_def Let_def)
  moreover have "needs_line ?rt e"
    using assms(1) prompt_lift [OF assms(2)]
    by (simp add: needs_line_def standing_def IsTerminal_def ctx_done_def prompt_def case_prod_beta)
  ultimately show ?thesis
    using deadline_standing [OF h' assms(2) now, of "10 * Minute"] h(3) b(2) by (auto simp: Minute_def Second_def)
qed

section \<open>At the table\<close>

text \<open>Where a conversation has got to: what the client has still to do, what is in the pipes, and
  where the server is.\<close>

definition at_table ::
    "(ConversationStep \<times> task) list \<Rightarrow> bytes \<Rightarrow> bytes \<Rightarrow> ('b, 'w) routine \<Rightarrow> ('b, 'w, 'c) Conversation \<Rightarrow> bool" where
  "at_table tasks inp outp g s \<longleftrightarrow> cn_result s = None \<and> cn_tasks s = tasks \<and> pipes_open s \<and> cn_server s = g
     \<and> pb_buf (h_Input (cn_client s)) = inp \<and> pb_buf (h_Output (cn_client s)) = outp"

text \<open>The lines the client has read from the server.\<close>

definition heard :: "('b, 'w, 'c) Conversation \<Rightarrow> bytes list" where
  "heard s = server_entries (h_Transcript (cn_client s))"

lemma SendRaw_heard: "SendRaw rt d c w = (c', w') \<Longrightarrow> server_entries (h_Transcript c') = server_entries (h_Transcript c)"
  by (auto simp: SendRaw_def RecordClient_def server_entries_def split: prod.splits)

lemma next_line_line: "is_line l \<Longrightarrow> next_line (l @ rest) = Some (l, rest)"
proof -
  assume "is_line l"
  then obtain body where l: "l = body @ [CHR 0x0A]" "CHR 0x0A \<notin> set body" by (auto simp: is_line_def)
  then have "index_of CHR 0x0A (l @ rest) = Some (length body)"
    by (auto simp: index_of_Some nth_append in_set_conv_nth)
  with l(1) show ?thesis by (simp add: next_line_def)
qed

lemma server_serves:
  assumes "at_table tasks inp outp g s" and "advance_lines rt inp g = Some (rest, g')"
  shows "\<exists>t. turn (client_turn quote crt) (server_turn rt) s t \<and> at_table tasks rest (outp @ said g') g' t
    \<and> heard t = heard s"
proof -
  let ?t = "s\<lparr>cn_client := served_pipes rest (said g') (cn_client s), cn_server := g'\<rparr>"
  have "server_turn rt s = Some ?t" using assms by (simp add: server_turn_def at_table_def)
  moreover have "at_table tasks rest (outp @ said g') g' ?t" "heard ?t = heard s"
    using assms(1) by (simp_all add: at_table_def pipes_open_def served_pipes_def pb_Write_def heard_def)
  ultimately show ?thesis by (auto simp: turn_def)
qed

lemma client_speaks:
  assumes "at_table ((step, tk) # tasks) inp outp g s" and "tk = SendBytes d \<or> (\<exists>line. tk = SendLine line \<and> d = line @ CRLF)"
  shows "\<exists>t. turn (client_turn quote crt) (server_turn rt) s t \<and> at_table tasks (inp @ d) outp g t
    \<and> heard t = heard s"
proof -
  let ?c = "cn_client s"
  obtain c w where sr: "SendRaw crt d ?c (cn_clock s) = (c, w)" by fastforce
  have op: "\<not> pb_closed (h_Input ?c)" "\<not> pb_closed (h_Output ?c)" using assms(1) by (simp_all add: at_table_def pipes_open_def)
  let ?t = "s\<lparr>cn_client := c, cn_clock := w, cn_tasks := tasks, cn_result := None\<rparr>"
  have "client_call quote crt ((step, tk) # tasks) ?c (cn_clock s) = Some (c, w, tasks, None)"
    using assms(2) sr by (auto simp: Send_SendRaw)
  then have "client_turn quote crt s = Some ?t" using assms(1) by (simp add: client_turn_def at_table_def)
  moreover have "at_table tasks (inp @ d) outp g ?t" "heard ?t = heard s"
    using SendRaw_meanwhile [OF sr op(1) op(1)] SendRaw_heard [OF sr] assms(1) op
    by (simp_all add: at_table_def pipes_open_def heard_def)
  ultimately show ?thesis by (auto simp: turn_def)
qed

lemma client_listens:
  assumes "at_table ((step, ExpectCode (r_Code r)) # tasks) inp (Response_Bytes r @ outp) g s" and "prompt crt"
    and "reply_ok r"
  shows "\<exists>t. turn (client_turn quote crt) (server_turn rt) s t \<and> at_table tasks inp outp g t
    \<and> heard t = heard s @ reply_lines r"
proof -
  have r: "100 \<le> r_Code r" "r_Code r < 1000" "\<forall>l \<in> set (r_Lines r). CHR 0x0A \<notin> set l"
    using assms(3) by (simp_all add: reply_ok_def list_all_iff)
  let ?c = "cn_client s"
  have op: "\<not> pb_closed (h_Input ?c)" "\<not> pb_closed (h_Output ?c)" using assms(1) by (simp_all add: at_table_def pipes_open_def)
  have "\<forall>w. fst (rt_CtxDone crt w) = None" using assms(2) by (simp add: prompt_def)
  moreover have "pb_buf (h_Output ?c) = Response_Bytes r @ outp" using assms(1) by (simp add: at_table_def)
  ultimately obtain c w where
    ex: "Expect crt (r_Code r) ?c (cn_clock s) = ((Some (reply_lines r, None), c), w)" "pb_buf (h_Output c) = outp"
    "server_entries (h_Transcript c) = server_entries (h_Transcript ?c) @ reply_lines r"
    using response_read [OF _ r, of crt ?c outp "cn_clock s"] by blast
  let ?t = "s\<lparr>cn_client := c, cn_clock := w, cn_tasks := tasks, cn_result := None\<rparr>"
  have "client_turn quote crt s = Some ?t" using assms(1) ex(1) by (simp add: client_turn_def at_table_def replied_to_def)
  moreover have "at_table tasks inp outp g ?t" "heard ?t = heard s @ reply_lines r"
    using Expect_meanwhile [OF ex(1) op(2)] ex(2,3) assms(1) op(1) by (simp_all add: at_table_def pipes_open_def heard_def)
  ultimately show ?thesis by (auto simp: turn_def)
qed

lemma client_leaves:
  assumes "at_table [] inp outp g s"
  shows "\<exists>t. turn (client_turn quote crt) (server_turn rt) s t \<and> cn_result t = Some None \<and> cn_server t = g"
  using assms by (intro exI [of _ "s\<lparr>cn_result := Some None\<rparr>"]) (simp add: turn_def client_turn_def at_table_def)

lemma exchange:
  assumes "at_table ((step, SendLine line) # (step', ExpectCode (r_Code r)) # tasks) [] [] g s" and "prompt crt"
    and "CHR 0x0A \<notin> set line" and "thirsty rt g" and "piece rt (line @ CRLF) g = Some g'" and "said g' = Response_Bytes r"
    and "reply_ok r"
  shows "\<exists>t. (turn (client_turn quote crt) (server_turn rt))\<^sup>*\<^sup>* s t \<and> at_table tasks [] [] g' t"
proof -
  let ?T = "turn (client_turn quote crt) (server_turn rt)"
  from client_speaks [OF assms(1), of "line @ CRLF" quote crt rt] obtain s1 where
    s1: "?T s s1" "at_table ((step', ExpectCode (r_Code r)) # tasks) (line @ CRLF) [] g s1" by auto
  have "is_line (line @ CRLF)" by (rule is_line_append [OF assms(3) is_line_CRLF])
  from next_line_line [OF this, of "[]"] assms(4,5) have "advance_lines rt (line @ CRLF) g = Some ([], g')"
    by (simp add: advance_lines_def)
  from server_serves [OF s1(2) this, of quote crt] obtain s2 where
    s2: "?T s1 s2" "at_table ((step', ExpectCode (r_Code r)) # tasks) [] (Response_Bytes r @ []) g' s2"
    using assms(6) by auto
  from client_listens [OF s2(2) assms(2,7), of quote rt] obtain t where "?T s2 t" "at_table tasks [] [] g' t" by blast
  with s1(1) s2(1) show ?thesis by (meson converse_rtranclp_into_rtranclp rtranclp.rtrancl_refl)
qed

lemma standing_thirsty:
  "standing rt m st E e \<Longrightarrow> prompt rt \<Longrightarrow> \<not> IsTerminal st \<Longrightarrow> thirsty (lift_rt rt) (AtCommand e)"
  using prompt_lift [of rt] by (simp add: needs_line_def standing_def ctx_done_def prompt_def case_prod_beta)

lemma command_exchange:
  assumes "at_table ((step, SendLine line) # (step', ExpectCode (r_Code resp)) # tasks) [] [] (AtCommand e) s"
    and "standing rt m st E e" and "prompt rt" and "prompt crt"
    and "CHR 0x0A \<notin> set line" and "ParseCommand (rt_Unicode rt) 512 (line @ CRLF) = Inr cmd" and "cmd_Verb cmd \<noteq> CmdDATA"
    and "\<And>sm. sm_state sm = st \<Longrightarrow> sm_IsCommandAllowed (cmd_Verb cmd) sm" and "\<not> IsTerminal st" and "reply_ok resp"
    and "\<And>f. standing rt m st E f \<Longrightarrow>
      \<exists>g. handleCommand (lift_rt rt) cmd f = Inr (resp, g) \<and> standing rt m st' E' g \<and> sent g = sent f"
  shows "\<exists>t e'. (turn (client_turn quote crt) (server_turn (lift_rt rt)))\<^sup>*\<^sup>* s t
    \<and> at_table tasks [] [] (AtCommand e') t \<and> standing rt m st' E' e'"
proof -
  have "is_line (line @ CRLF)" by (rule is_line_append [OF assms(5) is_line_CRLF])
  from command_piece [OF assms(2,3) this assms(6-9,11)] obtain e' where
    e': "piece (lift_rt rt) (line @ CRLF) (AtCommand e) = Some (AtCommand e')" "standing rt m st' E' e'"
      "sent e' = Response_Bytes resp" by blast
  from exchange [OF assms(1,4,5) standing_thirsty [OF assms(2,3,9)] e'(1) _ assms(10), of quote] e'(2,3)
  show ?thesis by (auto simp: said_def)
qed

lemma lines_served:
  assumes "at_table tasks (concat (map StuffLine ls) @ inp) outp (AtData 0 d n (StdB (opened b text)) e) s"
    and "standing rt m StateData receiving e" and "prompt rt" and "5 * Minute \<le> d"
    and "list_all is_line ls" and "within_limits DefaultSessionLimits n ls"
  shows "\<exists>t f. (turn (client_turn quote crt) (server_turn (lift_rt rt)))\<^sup>*\<^sup>* s t
    \<and> at_table tasks inp outp (AtData 0 d (n + int (length (concat ls))) (StdB (opened b (text @ concat ls))) f) t
    \<and> standing rt m StateData receiving f"
  using assms(1,2,5,6)
proof (induction ls arbitrary: n "text" e s)
  case (Cons l ls)
  let ?T = "turn (client_turn quote crt) (server_turn (lift_rt rt))"
  let ?g = "AtData 0 d n (StdB (opened b text)) e"
  have l: "is_line l" using Cons.prems(3) by simp
  from data_piece [OF Cons.prems(2) assms(3) l assms(4) Cons.prems(4)] obtain f where
    f: "piece (lift_rt rt) (StuffLine l) ?g = Some (AtData 0 d (n + int (length l)) (StdB (opened b (text @ l))) f)" (is "_ = Some ?g'")
      "standing rt m StateData receiving f" "sent f = []" by blast
  have "thirsty (lift_rt rt) ?g"
    using prompt_lift [OF assms(3)] by (simp add: ctx_done_def prompt_def case_prod_beta)
  with f(1) next_line_line [OF is_line_StuffLine [OF l]]
  have "advance_lines (lift_rt rt) (StuffLine l @ concat (map StuffLine ls) @ inp) ?g = Some (concat (map StuffLine ls) @ inp, ?g')"
    by (simp add: advance_lines_def)
  moreover have "said ?g' = []" using f(3) by (simp add: said_def)
  ultimately obtain t where t: "?T s t" "at_table tasks (concat (map StuffLine ls) @ inp) outp ?g' t"
    using server_serves [OF Cons.prems(1), of "lift_rt rt" "concat (map StuffLine ls) @ inp" ?g' quote crt] by auto
  have "list_all is_line ls" "within_limits DefaultSessionLimits (n + int (length l)) ls"
    using Cons.prems(3) within_limits_Cons [OF Cons.prems(4)] by simp_all
  from Cons.IH [OF t(2) f(2) this] t(1) show ?case
    by (auto simp: add.assoc intro: converse_rtranclp_into_rtranclp)
qed auto

definition message_bytes :: "bytes list \<Rightarrow> bytes" where
  "message_bytes ls = concat (map StuffLine ls) @ ''.'' @ CRLF"

lemma text_exchange:
  assumes "at_table ((step, SendBytes (message_bytes ls)) # (step, ExpectCode 250) # tasks) [] []
      (AtData 0 d 0 (StdB (opened b [])) e) s"
    and "standing rt m StateData receiving e" and "prompt rt" and "prompt crt" and "5 * Minute \<le> d"
    and "composed from rcpts b" and "rcpts \<noteq> []" and "list_all is_line ls" and "within_limits DefaultSessionLimits 0 ls"
  shows "\<exists>t f. (turn (client_turn quote crt) (server_turn (lift_rt rt)))\<^sup>*\<^sup>* s t
    \<and> at_table tasks [] [] (AtCommand f) t \<and> standing rt m StateIdentified (delivered from rcpts (concat ls)) f"
proof -
  let ?T = "turn (client_turn quote crt) (server_turn (lift_rt rt))"
  let ?g = "\<lambda>e. AtData 0 d (int (length (concat ls))) (StdB (opened b (concat ls))) e"
  from client_speaks [OF assms(1), of "message_bytes ls"] obtain s1 where s1: "?T s s1"
    "at_table ((step, ExpectCode 250) # tasks) (concat (map StuffLine ls) @ (''.'' @ CRLF)) []
      (AtData 0 d 0 (StdB (opened b [])) e) s1" unfolding message_bytes_def by (metis append_Nil)
  from lines_served [OF s1(2) assms(2,3,5,8,9), of quote crt] obtain s2 e2 where s2: "?T\<^sup>*\<^sup>* s1 s2"
    "at_table ((step, ExpectCode 250) # tasks) (''.'' @ CRLF) [] (?g e2) s2" "standing rt m StateData receiving e2" by auto
  from last_piece [OF s2(3) assms(3,6,7,5)] obtain f i where
    close: "piece (lift_rt rt) (''.'' @ CRLF) (?g e2) = Some (AtCommand f)"
    and f: "standing rt m StateIdentified (delivered from rcpts (concat ls)) f"
      "sent f = Response_Bytes (NewResponse Reply250OK (''OK, message '' @ i @ '' accepted''))" (is "_ = Response_Bytes ?r")
      "CHR 0x0A \<notin> set i" by blast
  have "is_line (''.'' @ CRLF)" by (rule is_line_append) simp_all
  from next_line_line [OF this, of "[]"] close prompt_lift [OF assms(3)]
  have "advance_lines (lift_rt rt) (''.'' @ CRLF) (?g e2) = Some ([], AtCommand f)"
    by (simp add: advance_lines_def ctx_done_def prompt_def case_prod_beta)
  from server_serves [OF s2(2) this, of quote crt] f(2) obtain s3 where s3: "?T s2 s3"
    "at_table ((step, ExpectCode (r_Code ?r)) # tasks) [] (Response_Bytes ?r @ []) (AtCommand f) s3"
    by (auto simp: said_def)
  have "reply_ok ?r" using f(3) by simp
  from client_listens [OF s3(2) assms(4) this, of quote "lift_rt rt"] obtain t where "?T s3 t" "at_table tasks [] [] (AtCommand f) t"
    by blast
  with s1(1) s2(1) s3(1) f(1) show ?thesis
    by (meson converse_rtranclp_into_rtranclp rtranclp.rtrancl_into_rtrancl)
qed

lemma message_exchange:
  assumes "at_table ((step, SendLine ''DATA'') # (step, ExpectCode 354) # (step', SendBytes (message_bytes ls))
      # (step', ExpectCode 250) # tasks) [] [] (AtCommand e) s"
    and "standing rt m StateRcptTo (drafting from rcpts) e" and "prompt rt" and "prompt crt" and "rcpts \<noteq> []"
    and "list_all is_line ls" and "within_limits DefaultSessionLimits 0 ls"
  shows "\<exists>t f. (turn (client_turn quote crt) (server_turn (lift_rt rt)))\<^sup>*\<^sup>* s t
    \<and> at_table tasks [] [] (AtCommand f) t \<and> standing rt m StateIdentified (delivered from rcpts (concat ls)) f"
proof -
  let ?T = "turn (client_turn quote crt) (server_turn (lift_rt rt))"
  have d: "5 * Minute \<le> 10 * Minute" by (simp add: Minute_def Second_def)
  from DATA_piece [OF assms(2,3,5)] obtain b e1 where
    open_data: "piece (lift_rt rt) (''DATA'' @ CRLF) (AtCommand e) = Some (AtData 0 (10 * Minute) 0 (StdB (opened b [])) e1)"
    and e1: "composed from rcpts b" "standing rt m StateData receiving e1" "sent e1 = Response_Bytes ResponseStartMailInput"
    by blast
  have code: "r_Code ResponseStartMailInput = 354" "reply_ok ResponseStartMailInput"
    by (simp_all add: ResponseStartMailInput_def)
  have "\<not> IsTerminal StateRcptTo" by (simp add: IsTerminal_def)
  from exchange [OF _ assms(4) _ standing_thirsty [OF assms(2,3) this] open_data _ code(2)] assms(1) e1(3) code(1)
  obtain s1 where s1: "?T\<^sup>*\<^sup>* s s1" "at_table ((step', SendBytes (message_bytes ls)) # (step', ExpectCode 250) # tasks) [] []
      (AtData 0 (10 * Minute) 0 (StdB (opened b [])) e1) s1" by (fastforce simp: said_def)
  from text_exchange [OF s1(2) e1(2) assms(3,4) d e1(1) assms(5-7), of quote] s1(1)
  show ?thesis by (meson rtranclp_trans)
qed

section \<open>Sending a mail\<close>

definition line_step :: "string \<Rightarrow> ReplyCode \<Rightarrow> ConversationStep" where
  "line_step line code = \<lparr>cs_Description = line, cs_Send = line, cs_SendRaw = None, cs_Expect = code,
     cs_ExpectAny = False, cs_Delay = 0\<rparr>"

definition rcpt_steps :: "string list \<Rightarrow> ConversationStep list" where
  "rcpt_steps rcpts = map (\<lambda>a. line_step (''RCPT TO:<'' @ a @ ''>'') 250) rcpts"

definition mail_script :: "string \<Rightarrow> string \<Rightarrow> string list \<Rightarrow> bytes list \<Rightarrow> ConversationStep list" where
  "mail_script name from rcpts ls =
     [line_step [] 220, line_step (''HELO '' @ name) 250, line_step (''MAIL FROM:<'' @ from @ ''>'') 250]
     @ rcpt_steps rcpts
     @ [line_step ''DATA'' 354, (line_step [] 250)\<lparr>cs_SendRaw := Some (message_bytes ls)\<rparr>, line_step ''QUIT'' 221]"

lemma tasks_of_line_step:
  "code \<noteq> 0 \<Longrightarrow> tasks_of (line_step line code) =
     (if line = [] then [] else [(line_step line code, SendLine line)]) @ [(line_step line code, ExpectCode code)]"
  by (simp add: tasks_of_def line_step_def)

lemma tasks_of_message:
  "tasks_of ((line_step [] 250)\<lparr>cs_SendRaw := Some d\<rparr>)
     = [((line_step [] 250)\<lparr>cs_SendRaw := Some d\<rparr>, SendBytes d), ((line_step [] 250)\<lparr>cs_SendRaw := Some d\<rparr>, ExpectCode 250)]"
  by (simp add: tasks_of_def line_step_def)

text \<open>An address that fits into a command line as it is.\<close>

definition mailable :: "string \<Rightarrow> bool" where
  "mailable a \<longleftrightarrow> (a = [] \<or> isValidAddress a \<and> CHR ''>'' \<notin> set a \<and> hd a \<noteq> CHR ''@'') \<and> CHR 0x0A \<notin> set a
     \<and> length a \<le> 498"

definition path_of :: "string \<Rightarrow> MailPath" where
  "path_of a = \<lparr>mp_Address = a, mp_SourceRoute = [], mp_IsNull = (a = [])\<rparr>"

lemma hostname_chars:
  assumes "isValidHostname name"
  shows "name \<noteq> []" and "length name \<le> 255" and "\<forall>c \<in> set name. solid c \<and> c \<noteq> CHR ''['' \<and> c \<noteq> CHR 0x0A"
proof -
  have labels: "list_all isValidLabel (Split CHR ''.'' name)" and n: "name \<noteq> []" "length name \<le> 255"
    using assms by (auto simp: isValidHostname_def split: if_splits)
  then show "name \<noteq> []" "length name \<le> 255" by simp_all
  have "set name \<subseteq> insert CHR ''.'' (\<Union>w \<in> set (Split CHR ''.'' name). set w)"
    using set_join [of "Split CHR ''.'' name" "CHR ''.''"] Split_nonempty by (simp add: join_Split)
  then have "isAlphanumeric (of_char c) \<or> c = CHR ''-'' \<or> c = CHR ''.''" if "c \<in> set name" for c
    using labels that by (fastforce simp: list_all_iff isValidLabel_iff)
  moreover have "solid c \<and> c \<noteq> CHR ''['' \<and> c \<noteq> CHR 0x0A" if "isAlphanumeric (of_char c) \<or> c = CHR ''-'' \<or> c = CHR ''.''" for c
    using that by (auto simp: isAlphanumeric_def solid_def IsSpace_def)
  ultimately show "\<forall>c \<in> set name. solid c \<and> c \<noteq> CHR ''['' \<and> c \<noteq> CHR 0x0A" by blast
qed

lemma ParseHeloHostname_valid: "isValidHostname name \<Longrightarrow> ParseHeloHostname name = Inr name"
  using hostname_chars [of name] TrimSpace_solid [of name]
  by (cases name) (auto simp: ParseHeloHostname_def Let_def HasPrefix_def)

lemma HELO_parsed:
  assumes "isValidHostname name"
  shows "\<exists>cmd. ParseCommand U 512 ((''HELO '' @ name) @ CRLF) = Inr cmd \<and> cmd_Verb cmd = CmdHELO \<and> cmd_Argument cmd = name"
  using command_written [of CmdHELO "''HELO''" name 512 U] hostname_chars [OF assms]
  by (auto simp: CRLF_def upper_byte_def)

lemma no_params: "parseESMTPParams U (kw @ '':<'' @ a @ ''>'') = None" if "CHR ''>'' \<notin> set a" "CHR ''>'' \<notin> set kw"
  using that index_of_append [of "CHR ''>''" "kw @ '':<'' @ a" "[]"] by (simp add: parseESMTPParams_def)

lemma path_parsed:
  assumes "mailable a"
  shows "\<exists>cmd. ParseCommand U 512 ((''MAIL FROM:<'' @ a @ ''>'') @ CRLF) = Inr cmd \<and> cmd_Verb cmd = CmdMAIL
      \<and> ParseMailPath U (cmd_Argument cmd) ''FROM'' = Inr (path_of a) \<and> cmd_Params cmd = None"
    and "\<exists>cmd. ParseCommand U 512 ((''RCPT TO:<'' @ a @ ''>'') @ CRLF) = Inr cmd \<and> cmd_Verb cmd = CmdRCPT
      \<and> ParseMailPath U (cmd_Argument cmd) ''TO'' = Inr (path_of a)"
proof -
  have a: "a = [] \<or> isValidAddress a \<and> CHR ''>'' \<notin> set a \<and> hd a \<noteq> CHR ''@''" "length a \<le> 498" "CHR ''>'' \<notin> set a"
    using assms by (auto simp: mailable_def)
  have solid_gt: "solid CHR ''>''" "solid CHR ''F''" "solid CHR ''T''" by (simp_all add: solid_def IsSpace_def)
  show "\<exists>cmd. ParseCommand U 512 ((''MAIL FROM:<'' @ a @ ''>'') @ CRLF) = Inr cmd \<and> cmd_Verb cmd = CmdMAIL
      \<and> ParseMailPath U (cmd_Argument cmd) ''FROM'' = Inr (path_of a) \<and> cmd_Params cmd = None"
    using command_written [of CmdMAIL "''MAIL''" "''FROM:<'' @ a @ ''>''" 512 U] a(2) solid_gt
      path_written [of "''FROM''" "''FROM''" a "[]" U] a(1) no_params [OF a(3), of "''FROM''" U]
    by (auto simp: CRLF_def upper_byte_def path_of_def)
  show "\<exists>cmd. ParseCommand U 512 ((''RCPT TO:<'' @ a @ ''>'') @ CRLF) = Inr cmd \<and> cmd_Verb cmd = CmdRCPT
      \<and> ParseMailPath U (cmd_Argument cmd) ''TO'' = Inr (path_of a)"
    using command_written [of CmdRCPT "''RCPT''" "''TO:<'' @ a @ ''>''" 512 U] a(2) solid_gt
      path_written [of "''TO''" "''TO''" a "[]" U] a(1)
    by (auto simp: CRLF_def upper_byte_def path_of_def)
qed

definition hello_reply :: Response where
  "hello_reply = NewResponse 220 ''test.example.com ESMTP icesmtp''"

lemma greeting_piece:
  fixes w :: "'v MemWorld"
  assumes "mw_Storage w = NewStorage" and "mw_Mailbox w = m"
  shows "\<exists>f :: ('b, 'v MemWorld) Engine. piece (lift_rt rt) [] (cn_server (open_conversation (lift_rt rt) script (fst (NewHarness rt [] v)) w cw)) = Some (AtCommand f)
    \<and> standing rt m StateGreeted nothing_yet f \<and> ss_State (e_state f) = StateGreeted
    \<and> sent f = Response_Bytes hello_reply"
proof -
  note hello_reply_def [simp]
  let ?rt = "lift_rt rt"
  let ?c = "WrapPipe no_input True False True True"
  let ?e = "NewEngineWithConn ?rt (Pipe ?c) (harness_config rt []) [] w :: ('b, 'v MemWorld) Engine"
  have e: "cn_server (open_conversation ?rt script (fst (NewHarness rt [] v)) w cw) = Unstarted ?e"
    by (simp add: open_conversation_def NewHarness_def Start_def)
  obtain t0 w1 where now: "rt_Now ?rt w = (t0, w1)" by fastforce
  obtain sid w2 where sid: "generateSessionID ?rt w1 = (sid, w2)" by fastforce
  have w2: "mw_Storage w2 = NewStorage" "mw_Mailbox w2 = m"
    using assms lift_rt_world(1,2) [of rt w] now sid by (auto simp: generateSessionID_def case_prod_beta)
  obtain m1 where conn: "Connect NewStateMachine = (None, m1)" "sm_state m1 = StateConnected" by (simp add: sm_defs)
  let ?g = "(feed [] ?e)\<lparr>e_sm := m1\<rparr>"
  have e_sm: "e_sm ?e = NewStateMachine" by (simp add: NewEngineWithConn_def now sid Let_def)
  have g: "standing rt m StateConnected nothing_yet ?g" "sent ?g = []"
    using w2 conn(2)
    by (simp_all add: standing_def NewEngineWithConn_def now sid Let_def nothing_yet_def feed_def NewBufferedConn_def
        WrapPipe_def no_input_def writable_def idle_conn_def on_time_def sent_def DefaultSessionLimits_def)
  then have hook: "run_hook OnConnect ?g = ?g"
    and "buildGreeting ?g = NewResponse 220 ''test.example.com ESMTP icesmtp''"
    by (simp_all add: run_hook_def standing_def buildGreeting_def)
  with write_standing [OF g(1), of "buildGreeting ?g"] g(2) obtain h where
    h: "writeResponse (buildGreeting ?g) ?g = (None, h)" "standing rt m StateConnected nothing_yet h"
      "sent h = Response_Bytes (NewResponse 220 ''test.example.com ESMTP icesmtp'')" by auto
  then obtain m2 where greet: "Greet (e_sm h) = (None, m2)" "sm_state m2 = StateGreeted"
    by (simp add: sm_defs standing_def)
  have "Run_start ?rt (feed [] ?e) = Continue (set_state StateGreeted (h\<lparr>e_sm := m2\<rparr>))"
    by (simp add: Run_start_def e_sm conn(1) hook h(1) greet(1) Let_def)
  then show ?thesis
    unfolding e using h(2,3) greet(2) by (simp add: standing_def set_state_def writable_def sent_def)
qed

lemma greeting_exchange:
  fixes w :: "'v MemWorld"
  assumes "concat (map tasks_of script) = (step, ExpectCode 220) # tasks" and "mw_Storage w = NewStorage" and "prompt crt"
  shows "\<exists>t f. (turn (client_turn quote crt) (server_turn (lift_rt rt)))\<^sup>*\<^sup>*
      (open_conversation (lift_rt rt) script (fst (NewHarness rt [] v) :: ('b, 'v MemWorld) Harness) w cw) t
    \<and> at_table tasks [] [] (AtCommand f) t \<and> standing rt (mw_Mailbox w) StateGreeted nothing_yet f
    \<and> ss_State (e_state f) = StateGreeted \<and> heard t = reply_lines hello_reply"
proof -
  let ?T = "turn (client_turn quote crt) (server_turn (lift_rt rt))"
  let ?s = "open_conversation (lift_rt rt) script (fst (NewHarness rt [] v) :: ('b, 'v MemWorld) Harness) w cw"
  let ?hello = hello_reply
  note hello_reply_def [simp]
  have "heard ?s = []"
    by (simp add: heard_def open_conversation_def NewHarness_def NewTranscript_def server_entries_def)
  let ?tasks = "(step, ExpectCode (r_Code ?hello)) # tasks"
  have "at_table ?tasks [] [] (cn_server ?s) ?s"
    using assms(1) by (simp add: at_table_def open_conversation_def NewHarness_def pipes_open_def NewPipeBuffer_def)
  moreover obtain e where e: "piece (lift_rt rt) [] (cn_server ?s) = Some (AtCommand e)"
    "standing rt (mw_Mailbox w) StateGreeted nothing_yet e" "sent e = Response_Bytes ?hello" "ss_State (e_state e) = StateGreeted"
    using greeting_piece [OF assms(2) refl, of rt script v cw] by blast
  then have "advance_lines (lift_rt rt) [] (cn_server ?s) = Some ([], AtCommand e)"
    by (simp add: advance_lines_def open_conversation_def)
  ultimately obtain s where s: "?T ?s s" "at_table ?tasks [] (Response_Bytes ?hello @ []) (AtCommand e) s"
    "heard s = heard ?s"
    using server_serves [of ?tasks "[]" "[]" "cn_server ?s" ?s "lift_rt rt" "[]" "AtCommand e" quote crt] e(3) by (auto simp: said_def)
  have "reply_ok ?hello" by simp
  from client_listens [OF s(2) assms(3) this, of quote "lift_rt rt"] obtain t where "?T s t" "at_table tasks [] [] (AtCommand e) t"
    "heard t = reply_lines ?hello" using s(3) \<open>heard ?s = []\<close> by auto
  with s(1) e(2,4) show ?thesis by (meson converse_rtranclp_into_rtranclp rtranclp.rtrancl_refl)
qed

lemma recipients_exchange:
  fixes e :: "('b, 'v MemWorld) Engine"
  assumes "at_table (concat (map tasks_of (rcpt_steps as)) @ tasks) [] [] (AtCommand e) s"
    and "standing rt m st (drafting from rcpts) e" and "st = StateMailFrom \<or> st = StateRcptTo" and "prompt rt" and "prompt crt"
    and "list_all (\<lambda>a. mailable a \<and> registered rt m (path_of a)) as" and "length rcpts + length as \<le> 100"
  shows "\<exists>t f. (turn (client_turn quote crt) (server_turn (lift_rt rt)))\<^sup>*\<^sup>* s t \<and> at_table tasks [] [] (AtCommand f) t
    \<and> standing rt m (if as = [] then st else StateRcptTo) (drafting from (rcpts @ map path_of as)) f"
  using assms(1-3,6,7)
proof (induction as arbitrary: s e st rcpts)
  case Nil
  then show ?case by (auto simp: rcpt_steps_def)
next
  case (Cons a as)
  let ?T = "turn (client_turn quote crt) (server_turn (lift_rt rt))" and ?line = "''RCPT TO:<'' @ a @ ''>''"
  have a: "mailable a" "registered rt m (path_of a)" "length rcpts < 100" using Cons.prems(4,5) by simp_all
  from path_parsed(2) [OF a(1), of "rt_Unicode rt"] obtain cmd where
    cmd: "ParseCommand (rt_Unicode rt) 512 (?line @ CRLF) = Inr cmd" "cmd_Verb cmd = CmdRCPT"
      "ParseMailPath (rt_Unicode rt) (cmd_Argument cmd) ''TO'' = Inr (path_of a)" by blast
  have tasks: "at_table ((line_step ?line 250, SendLine ?line) # (line_step ?line 250, ExpectCode (r_Code ResponseOK))
      # concat (map tasks_of (rcpt_steps as)) @ tasks) [] [] (AtCommand e) s"
    using Cons.prems(1) by (simp add: rcpt_steps_def tasks_of_line_step ResponseOK_def)
  have "CHR 0x0A \<notin> set ?line" "cmd_Verb cmd \<noteq> CmdDATA" "\<not> IsTerminal st"
    and allowed: "\<And>sm. sm_state sm = st \<Longrightarrow> sm_IsCommandAllowed (cmd_Verb cmd) sm"
    using a(1) cmd(2) Cons.prems(3) by (auto simp: mailable_def IsTerminal_def allowed_states)
  note easy = this(1-3) allowed
  have "\<exists>g. handleCommand (lift_rt rt) cmd f = Inr (ResponseOK, g)
      \<and> standing rt m StateRcptTo (drafting from (rcpts @ [path_of a])) g \<and> sent g = sent f"
    if "standing rt m st (drafting from rcpts) f" for f :: "('b, 'v MemWorld) Engine"
    by (rule RCPT_standing [OF that Cons.prems(3) cmd(2,3) a(2,3)])
  from command_exchange [OF tasks Cons.prems(2) assms(4,5) easy(1) cmd(1) easy(2,4,3) reply_ok_prebuilt(1) this, of quote]
  obtain s1 e1 where s1: "?T\<^sup>*\<^sup>* s s1" "at_table (concat (map tasks_of (rcpt_steps as)) @ tasks) [] [] (AtCommand e1) s1"
    "standing rt m StateRcptTo (drafting from (rcpts @ [path_of a])) e1" by blast
  with Cons.IH [OF s1(2,3)] Cons.prems(4,5) show ?case by (auto intro: rtranclp_trans)
qed

lemma hello_exchange:
  fixes e :: "('b, 'v MemWorld) Engine"
  assumes "at_table (tasks_of (line_step (''HELO '' @ name) 250) @ tasks) [] [] (AtCommand e) s"
    and "standing rt m StateGreeted nothing_yet e" and "prompt rt" and "prompt crt" and "isValidHostname name"
  shows "\<exists>t f. (turn (client_turn quote crt) (server_turn (lift_rt rt)))\<^sup>*\<^sup>* s t \<and> at_table tasks [] [] (AtCommand f) t
    \<and> standing rt m StateIdentified nothing_yet f"
proof -
  let ?line = "''HELO '' @ name" and ?r = "NewResponse 250 (''test.example.com Hello '' @ name)"
  from HELO_parsed [OF assms(5), of "rt_Unicode rt"] obtain cmd where
    cmd: "ParseCommand (rt_Unicode rt) 512 (?line @ CRLF) = Inr cmd" "cmd_Verb cmd = CmdHELO" "cmd_Argument cmd = name" by blast
  note name = hostname_chars [OF assms(5)]
  have "CHR 0x0A \<notin> set ?line" "cmd_Verb cmd \<noteq> CmdDATA" "\<not> IsTerminal StateGreeted" "reply_ok ?r"
    and allowed: "\<And>sm. sm_state sm = StateGreeted \<Longrightarrow> sm_IsCommandAllowed (cmd_Verb cmd) sm"
    using cmd(2) name(3) by (auto simp: IsTerminal_def allowed_states)
  note easy = this(1-4) allowed
  have "ParseHeloHostname (cmd_Argument cmd) = Inr name" by (simp add: cmd(3) ParseHeloHostname_valid [OF assms(5)])
  then have "\<exists>g. handleCommand (lift_rt rt) cmd f = Inr (?r, g) \<and> standing rt m StateIdentified nothing_yet g \<and> sent g = sent f"
    if "standing rt m StateGreeted nothing_yet f" for f :: "('b, 'v MemWorld) Engine"
    by (rule HELO_standing [OF that _ cmd(2)])
  moreover have "at_table ((line_step ?line 250, SendLine ?line) # (line_step ?line 250, ExpectCode (r_Code ?r)) # tasks)
      [] [] (AtCommand e) s"
    using assms(1) by (simp add: tasks_of_line_step)
  ultimately show ?thesis
    using command_exchange [OF _ assms(2-4) easy(1) cmd(1) easy(2,5,3,4)] by blast
qed

lemma sender_exchange:
  fixes e :: "('b, 'v MemWorld) Engine"
  assumes "at_table (tasks_of (line_step (''MAIL FROM:<'' @ from @ ''>'') 250) @ tasks) [] [] (AtCommand e) s"
    and "standing rt m StateIdentified nothing_yet e" and "prompt rt" and "prompt crt" and "mailable from"
  shows "\<exists>t f. (turn (client_turn quote crt) (server_turn (lift_rt rt)))\<^sup>*\<^sup>* s t \<and> at_table tasks [] [] (AtCommand f) t
    \<and> standing rt m StateMailFrom (drafting (path_of from) []) f"
proof -
  let ?line = "''MAIL FROM:<'' @ from @ ''>''"
  from path_parsed(1) [OF assms(5), of "rt_Unicode rt"] obtain cmd where
    cmd: "ParseCommand (rt_Unicode rt) 512 (?line @ CRLF) = Inr cmd" "cmd_Verb cmd = CmdMAIL"
      "ParseMailPath (rt_Unicode rt) (cmd_Argument cmd) ''FROM'' = Inr (path_of from)" "cmd_Params cmd = None" by blast
  have "CHR 0x0A \<notin> set ?line" "cmd_Verb cmd \<noteq> CmdDATA" "\<not> IsTerminal StateIdentified"
    and allowed: "\<And>sm. sm_state sm = StateIdentified \<Longrightarrow> sm_IsCommandAllowed (cmd_Verb cmd) sm"
    using cmd(2) assms(5) by (auto simp: mailable_def IsTerminal_def allowed_states)
  note easy = this(1-3) allowed
  have "\<exists>g. handleCommand (lift_rt rt) cmd f = Inr (ResponseOK, g) \<and> standing rt m StateMailFrom (drafting (path_of from) []) g
      \<and> sent g = sent f" if "standing rt m StateIdentified nothing_yet f" for f :: "('b, 'v MemWorld) Engine"
    by (rule MAIL_standing [OF that cmd(2-4)])
  moreover have "at_table ((line_step ?line 250, SendLine ?line) # (line_step ?line 250, ExpectCode (r_Code ResponseOK)) # tasks)
      [] [] (AtCommand e) s"
    using assms(1) by (simp add: tasks_of_line_step ResponseOK_def)
  ultimately show ?thesis
    using command_exchange [OF _ assms(2-4) easy(1) cmd(1) easy(2,4,3) reply_ok_prebuilt(1)] by blast
qed

lemma bye_exchange:
  fixes e :: "('b, 'v MemWorld) Engine"
  assumes "at_table (tasks_of (line_step ''QUIT'' 221)) [] [] (AtCommand e) s"
    and "standing rt m StateIdentified E e" and "prompt rt" and "prompt crt"
  shows "\<exists>t f. (turn (client_turn quote crt) (server_turn (lift_rt rt)))\<^sup>*\<^sup>* s t \<and> cn_result t = Some None
    \<and> cn_server t = Over None f \<and> E (e_envelope f) (TransactionCount (e_stats f)) (mw_Storage (e_world f))"
proof -
  let ?T = "turn (client_turn quote crt) (server_turn (lift_rt rt))"
  obtain cmd where cmd: "ParseCommand (rt_Unicode rt) 512 (''QUIT'' @ CRLF) = Inr cmd" "cmd_Verb cmd = CmdQUIT"
    using command_written [of CmdQUIT "''QUIT''" "[]" 512 "rt_Unicode rt"] by (auto simp: CRLF_def upper_byte_def)
  have "CHR 0x0A \<notin> set ''QUIT''" "cmd_Verb cmd \<noteq> CmdDATA" "\<not> IsTerminal StateIdentified"
    and allowed: "\<And>sm. sm_state sm = StateIdentified \<Longrightarrow> sm_IsCommandAllowed (cmd_Verb cmd) sm"
    using cmd(2) by (auto simp: IsTerminal_def allowed_states)
  note easy = this(1-3) allowed
  have "\<exists>g. handleCommand (lift_rt rt) cmd f = Inr (ResponseBye, g) \<and> standing rt m StateTerminated E g \<and> sent g = sent f"
    if "standing rt m StateIdentified E f" for f :: "('b, 'v MemWorld) Engine"
    by (rule QUIT_standing [OF that cmd(2)])
  moreover have "at_table ((line_step ''QUIT'' 221, SendLine ''QUIT'') # (line_step ''QUIT'' 221, ExpectCode (r_Code ResponseBye)) # [])
      [] [] (AtCommand e) s"
    using assms(1) by (simp add: tasks_of_line_step ResponseBye_def)
  ultimately obtain s1 e1 where s1: "?T\<^sup>*\<^sup>* s s1" "at_table [] [] [] (AtCommand e1) s1" "standing rt m StateTerminated E e1"
    using command_exchange [OF _ assms(2-4) easy(1) cmd(1) easy(2,4,3) reply_ok_prebuilt(2)] by blast
  from terminated_piece [OF s1(3) assms(3)] obtain f where f: "piece (lift_rt rt) [] (AtCommand e1) = Some (Over None f)"
    "E (e_envelope f) (TransactionCount (e_stats f)) (mw_Storage (e_world f))" by blast
  have "\<not> thirsty (lift_rt rt) (AtCommand e1)" using s1(3) by (simp add: needs_line_def standing_def IsTerminal_def)
  then have "advance_lines (lift_rt rt) [] (AtCommand e1) = Some ([], Over None f)" by (simp add: advance_lines_def f(1) del: piece.simps)
  from server_serves [OF s1(2) this, of quote crt] obtain s2 outp where s2: "?T s1 s2" "at_table [] [] outp (Over None f) s2" by blast
  from client_leaves [OF s2(2), of quote crt "lift_rt rt"] obtain t where "?T s2 t" "cn_result t = Some None" "cn_server t = Over None f"
    by blast
  with s1(1) s2(1) f(2) show ?thesis by (meson rtranclp.rtrancl_into_rtrancl)
qed

lemma mail_exchange:
  fixes w :: "'v MemWorld"
  assumes "prompt rt" and "prompt crt" and "isValidHostname name" and "mailable from"
    and "list_all (\<lambda>a. mailable a \<and> registered rt (mw_Mailbox w) (path_of a)) rcpts" and "rcpts \<noteq> []" and "length rcpts \<le> 100"
    and "list_all is_line ls" and "within_limits DefaultSessionLimits 0 ls" and "mw_Storage w = NewStorage"
  shows "\<exists>t f. (turn (client_turn quote crt) (server_turn (lift_rt rt)))\<^sup>*\<^sup>*
      (open_conversation (lift_rt rt) (mail_script name from rcpts ls) (fst (NewHarness rt [] v) :: ('b, 'v MemWorld) Harness) w cw) t
    \<and> cn_result t = Some None \<and> cn_server t = Over None f
    \<and> delivered (path_of from) (map path_of rcpts) (concat ls) (e_envelope f) (TransactionCount (e_stats f)) (mw_Storage (e_world f))"
proof -
  let ?T = "turn (client_turn quote crt) (server_turn (lift_rt rt))"
  let ?s = "open_conversation (lift_rt rt) (mail_script name from rcpts ls) (fst (NewHarness rt [] v) :: ('b, 'v MemWorld) Harness) w cw"
  let ?quit = "tasks_of (line_step ''QUIT'' 221)"
  let ?message = "(line_step [] 250)\<lparr>cs_SendRaw := Some (message_bytes ls)\<rparr>"
  let ?data = "(line_step ''DATA'' 354, SendLine ''DATA'') # (line_step ''DATA'' 354, ExpectCode 354)
    # (?message, SendBytes (message_bytes ls)) # (?message, ExpectCode 250) # ?quit"
  let ?rcpts = "concat (map tasks_of (rcpt_steps rcpts)) @ ?data"
  let ?mail = "tasks_of (line_step (''MAIL FROM:<'' @ from @ ''>'') 250) @ ?rcpts"
  let ?helo = "tasks_of (line_step (''HELO '' @ name) 250) @ ?mail"
  have "concat (map tasks_of (mail_script name from rcpts ls)) = (line_step [] 220, ExpectCode 220) # ?helo"
    by (simp add: mail_script_def tasks_of_line_step tasks_of_message)
  from greeting_exchange [OF this assms(10,2), of quote rt v cw] obtain s1 e0 where
    s1: "?T\<^sup>*\<^sup>* ?s s1" "at_table ?helo [] [] (AtCommand e0) s1" "standing rt (mw_Mailbox w) StateGreeted nothing_yet e0" by blast
  from hello_exchange [OF s1(2,3) assms(1-3), of quote] obtain s2 e2 where
    s2: "?T\<^sup>*\<^sup>* s1 s2" "at_table ?mail [] [] (AtCommand e2) s2" "standing rt (mw_Mailbox w) StateIdentified nothing_yet e2" by blast
  from sender_exchange [OF s2(2,3) assms(1,2,4), of quote] obtain s3 e3 where
    s3: "?T\<^sup>*\<^sup>* s2 s3" "at_table ?rcpts [] [] (AtCommand e3) s3"
      "standing rt (mw_Mailbox w) StateMailFrom (drafting (path_of from) []) e3" by blast
  have "length ([] :: MailPath list) + length rcpts \<le> 100" using assms(7) by simp
  from recipients_exchange [OF s3(2,3) disjI1 [OF refl] assms(1,2,5) this, of quote] assms(6) obtain s4 e4 where
    s4: "?T\<^sup>*\<^sup>* s3 s4" "at_table ?data [] [] (AtCommand e4) s4"
      "standing rt (mw_Mailbox w) StateRcptTo (drafting (path_of from) (map path_of rcpts)) e4" by auto
  from message_exchange [OF s4(2,3) assms(1,2) _ assms(8,9), of quote] assms(6) obtain s5 e5 where
    s5: "?T\<^sup>*\<^sup>* s4 s5" "at_table ?quit [] [] (AtCommand e5) s5"
      "standing rt (mw_Mailbox w) StateIdentified (delivered (path_of from) (map path_of rcpts) (concat ls)) e5" by blast
  have "?T\<^sup>*\<^sup>* ?s s5"
    using s1(1) s2(1) s3(1) s4(1) s5(1) by (meson rtranclp_trans)
  with bye_exchange [OF s5(2,3) assms(1,2), of quote] show ?thesis by (meson rtranclp_trans)
qed

text \<open>
  (C8) A mail sent through the harness is delivered, whatever the schedule. A client that greets the
  server of a new harness, names a sender and up to a hundred recipients the mailbox accepts,
  sends a text within the limits and says QUIT is answered 220, 250, 250, 250 for each recipient,
  354, 250 and 221, and its script ends without an error. This is so in every interleaving of
  client and engine: each of them leads to a state in which the session has returned without an
  error, and the storage of the harness holds exactly one message, from this sender to these
  recipients, with this text byte for byte.
\<close>

theorem conversation_delivers:
  fixes w :: "'v MemWorld" and h :: "('b, 'v MemWorld) Harness"
  assumes "prompt rt" and "prompt crt" and "isValidHostname name" and "mailable from"
    and "list_all (\<lambda>a. mailable a \<and> registered rt (mw_Mailbox w) (path_of a)) rcpts" and "rcpts \<noteq> []" and "length rcpts \<le> 100"
    and "list_all is_line ls" and "within_limits DefaultSessionLimits 0 ls" and "mw_Storage w = NewStorage"
    and "h = fst (NewHarness rt [] v)"
  shows "\<exists>n t e. (\<forall>k s. (turn (client_turn quote crt) (server_turn (lift_rt rt)) ^^ k)
           (open_conversation (lift_rt rt) (mail_script name from rcpts ls) h w cw) s \<longrightarrow>
         k \<le> n \<and> (turn (client_turn quote crt) (server_turn (lift_rt rt)) ^^ (n - k)) s t)
    \<and> settled_pair (client_turn quote crt) (server_turn (lift_rt rt)) t
    \<and> cn_result t = Some None \<and> cn_server t = Over None e \<and> hs_Errors (conversation_harness h t) = []
    \<and> MessageCount_h (e_world e) = 1
    \<and> (\<exists>i msg. Get (mw_Storage (e_world e)) i = Some msg \<and> env_mailFrom (msg_Envelope msg) = path_of from
         \<and> env_recipients (msg_Envelope msg) = map path_of rcpts \<and> msg_Data msg = concat ls)"
proof -
  let ?T = "turn (client_turn quote crt) (server_turn (lift_rt rt))"
  let ?s = "open_conversation (lift_rt rt) (mail_script name from rcpts ls) h w cw"
  from mail_exchange [OF assms(1-10), of quote v cw] obtain t e where t: "?T\<^sup>*\<^sup>* ?s t" "cn_result t = Some None"
    "cn_server t = Over None e"
    and d: "delivered (path_of from) (map path_of rcpts) (concat ls) (e_envelope e) (TransactionCount (e_stats e)) (mw_Storage (e_world e))"
    unfolding assms(11) by blast
  from t(1) obtain n where n: "(?T ^^ n) ?s t" by (auto simp: rtranclp_power)
  have "pipes_open ?s"
    by (simp add: pipes_open_def open_conversation_def NewPipeBuffer_def NewHarness_def assms(11))
  moreover have fin: "settled_pair (client_turn quote crt) (server_turn (lift_rt rt)) t"
    using t(2,3) by (simp add: settled_pair_def client_turn_def server_turn_def advance_lines_def)
  ultimately have "\<forall>k s. (?T ^^ k) ?s s \<longrightarrow> k \<le> n \<and> (?T ^^ (n - k)) s t"
    using talk.turns_saved [OF _ n] by blast
  moreover have "hs_Errors (conversation_harness h t) = []"
    using t(3) by (simp add: conversation_harness_def record_error_def assms(11) NewHarness_def Let_def)
  ultimately show ?thesis
    using fin t(2,3) d unfolding delivered_def MessageCount_h_def by blast
qed

definition sample_text :: "bytes list" where
  "sample_text = [''hi'' @ CRLF, ''.dot'' @ CRLF]"

theorem conversation_delivers_witness:
  "\<exists>(t :: (unit, unit MemWorld, unit) Conversation) e.
    settled_pair (client_turn id rt_const) (server_turn (lift_rt rt_const)) t \<and> cn_server t = Over None e \<and> MessageCount_h (e_world e) = 1
    \<and> (\<exists>i msg. Get (mw_Storage (e_world e)) i = Some msg \<and> env_mailFrom (msg_Envelope msg) = path_of ''x@y.z''
         \<and> env_recipients (msg_Envelope msg) = [path_of ''a@b.c''] \<and> msg_Data msg = concat sample_text)"
proof -
  have "prompt rt_const" by (simp add: prompt_def rt_const_def Minute_def Second_def)
  moreover have "isValidHostname ''client.example''" by code_simp
  moreover have "mailable ''x@y.z''" by code_simp
  moreover have "list_all (\<lambda>a. mailable a \<and> registered rt_const (mw_Mailbox sample_world) (path_of a)) [''a@b.c'']" by code_simp
  moreover have "list_all is_line sample_text"
    unfolding sample_text_def list.pred_inject by (intro conjI TrueI is_line_append is_line_CRLF) simp_all
  moreover have "within_limits DefaultSessionLimits 0 sample_text" by code_simp
  moreover have "mw_Storage sample_world = NewStorage" by (simp add: sample_world_def)
  ultimately show ?thesis
    using conversation_delivers [of rt_const rt_const "''client.example''" "''x@y.z''" sample_world "[''a@b.c'']" sample_text
        "fst (NewHarness rt_const [] ()) :: (unit, unit MemWorld) Harness" "()" id "()"] by auto
qed

end
