(* ===== verification/Lockstep.thy ===== *)
theory Lockstep
  imports Delivery
begin

text \<open>
  Question and answer: a client of the harness that waits for a reply after each command. Between
  two commands the server is in one of the four states that take commands (\<open>on_duty\<close>); a line that
  is no DATA command is answered with one well-formed reply and leaves it there, or says goodbye
  with 221 or 421 (\<open>duty_piece\<close>); and the exchanges of a script follow one another until it is done or
  the session has returned. As in \<open>Delivery\<close>, one schedule is followed, and all others meet it.
\<close>

section \<open>The server at ease\<close>

definition commanding :: "State set" where
  "commanding = {StateGreeted, StateIdentified, StateMailFrom, StateRcptTo}"

text \<open>Any transaction may be open, with the builder of the package.\<close>

definition unfinished :: "('b, 'v) business" where
  "unfinished x n st \<longleftrightarrow> (case x of None \<Rightarrow> True | Some b \<Rightarrow> \<exists>s. b = StdB s)"

lemma unfinished_simps [simp]: "unfinished None n st" "unfinished (Some (StdB b)) n st"
  by (simp_all add: unfinished_def)

definition on_duty :: "'v Runtime \<Rightarrow> Registry \<Rightarrow> State \<Rightarrow> ('b, 'v MemWorld) Engine \<Rightarrow> bool" where
  "on_duty rt m st e \<longleftrightarrow> engine_inv e \<and> standing rt m st unfinished e"

lemma new_envelope_world:
  "mw_Mailbox (snd (NewStandardEnvelopeBuilder (lift_rt rt) md w)) = mw_Mailbox w"
  by (simp add: NewStandardEnvelopeBuilder_def generateEnvelopeID_def case_prod_beta)

lemma reset_standing:
  assumes "standing rt m st unfinished e"
  shows "standing rt m st unfinished (resetTransaction (lift_rt rt) e)"
    and "e_sm (resetTransaction (lift_rt rt) e) = e_sm e"
proof -
  have "mw_Mailbox (snd (Builder_Reset (lift_rt rt) b w)) = mw_Mailbox w" for b w
    by (simp add: Builder_Reset_def generateEnvelopeID_def case_prod_beta)
  with assms show "standing rt m st unfinished (resetTransaction (lift_rt rt) e)"
    by (auto simp: resetTransaction_def standing_def unfinished_def case_prod_beta writable_def split: option.splits)
qed (simp add: resetTransaction_def split: option.split)

lemma step_standing:
  assumes "standing rt m st E e" and "sm_IsCommandAllowed c (e_sm e)"
    and "nextStateForCommand c (e_sm e) = st'" and "ss \<noteq> StateStartTLS"
  shows "standing rt m st' E (set_state ss (sm_command c e))"
  using assms command_moves [OF assms(2)] by (simp add: standing_def set_state_def sm_command_def on_sm_def writable_def)

lemma hello_on_duty:
  assumes "standing rt m st unfinished e" and "st \<in> commanding" and "sm_IsCommandAllowed v (e_sm e)"
    and "v = CmdHELO \<or> v = CmdEHLO"
  shows "standing rt m StateIdentified unfinished (identify (lift_rt rt) v name e)"
proof -
  let ?e = "e\<lparr>e_state := (e_state e)\<lparr>ss_ClientHostname := name\<rparr>\<rparr>"
  have "standing rt m st unfinished ?e" using assms(1) by (simp add: standing_def writable_def)
  moreover have "nextStateForCommand v (e_sm e) = StateIdentified" using assms(4) by (auto simp: nextStateForCommand_def)
  ultimately show ?thesis
    unfolding identify_def using assms(3) by (intro reset_standing step_standing) simp_all
qed

lemma MAIL_on_duty:
  assumes "standing rt m StateIdentified unfinished e"
  shows "\<exists>st \<in> commanding. standing rt m st unfinished (snd (handleMAIL (lift_rt rt) cmd e))"
  using assms new_envelope_world [of rt] command_moves [of CmdMAIL "e_sm e"]
  by (auto simp: handleMAIL_def validate_sender_def NewBuilder_def SetMailFrom_def Let_def case_prod_beta commanding_def
      run_hook_def set_state_def sm_command_def on_sm_def allowed_states nextStateForCommand_def standing_def writable_def
      split: sum.split option.split)

lemma RCPT_on_duty:
  assumes "standing rt m st unfinished e" and "engine_inv e" and "st = StateMailFrom \<or> st = StateRcptTo"
    and "handleRCPT (lift_rt rt) cmd e = Inr (resp, f)"
  shows "\<exists>st \<in> commanding. standing rt m st unfinished f"
proof -
  have "e_config e = harness_config rt []" "sm_state (e_sm e) = st" using assms(1) by (simp_all add: standing_def)
  with assms(2,3) obtain b where "e_envelope e = Some (StdB b)"
    by (auto simp: engine_inv_def envelope_ok_def split: option.splits EnvelopeBuilder.splits)
  then show ?thesis
    using assms(1,3,4) command_moves [of CmdRCPT "e_sm e"]
    by (auto simp: handleRCPT_def accept_recipient_def AddRecipient_def mem_mailbox_def Let_def case_prod_beta commanding_def
        run_hook_def set_state_def sm_command_def on_sm_def allowed_states nextStateForCommand_def standing_def writable_def
        split: sum.splits option.splits if_splits)
qed

lemma RSET_on_duty:
  assumes "standing rt m st unfinished e" and "st \<in> commanding"
  shows "\<exists>st \<in> commanding. standing rt m st unfinished (snd (handleRSET (lift_rt rt) cmd e))"
  using reset_standing [OF assms(1)] assms(2)
  by (auto simp: handleRSET_def Let_def commanding_def set_state_def on_sm_def standing_def writable_def sm_state_Reset)

lemma QUIT_on_duty:
  assumes "standing rt m st unfinished e" and "st \<in> commanding"
  shows "fst (handleQUIT cmd e) = ResponseBye \<and> standing rt m StateTerminated unfinished (snd (handleQUIT cmd e))"
  using assms command_moves [of CmdQUIT "e_sm e"]
  by (auto simp: handleQUIT_def commanding_def sm_command_def on_sm_def standing_def writable_def sm_state_Terminate
      allowed_states nextStateForCommand_def)

lemma command_on_duty:
  assumes "on_duty rt m st e" and "st \<in> commanding" and "sm_IsCommandAllowed (cmd_Verb cmd) (e_sm e)"
    and "cmd_Verb cmd \<noteq> CmdDATA" and "handleCommand (lift_rt rt) cmd e = Inr (resp, f)"
  shows "(\<exists>st \<in> commanding. on_duty rt m st f) \<or> resp = ResponseBye \<and> on_duty rt m StateTerminated f"
proof -
  have e: "standing rt m st unfinished e" "engine_inv e" using assms(1) by (simp_all add: on_duty_def)
  have sm: "sm_state (e_sm e) = st" and cfg: "e_config e = harness_config rt []" using e(1) by (simp_all add: standing_def)
  have f: "engine_inv f" using inv_handleCommand [OF assms(3) e(2) assms(5)] .
  let ?on = "\<lambda>f. \<exists>st \<in> commanding. standing rt m st unfinished f"
  have same: "?on e" using e(1) assms(2) by blast
  have "?on f \<or> resp = ResponseBye \<and> standing rt m StateTerminated unfinished f"
  proof (cases "cmd_Verb cmd")
    case CmdHELO
    then show ?thesis using hello_on_duty [OF e(1) assms(2,3)] same assms(5)
      by (auto simp: handleCommand_def handleHELO_def commanding_def split: sum.splits)
  next
    case CmdEHLO
    then show ?thesis using hello_on_duty [OF e(1) assms(2,3)] same assms(5)
      by (auto simp: handleCommand_def handleEHLO_def Let_def commanding_def split: sum.splits)
  next
    case CmdMAIL
    then have "st = StateIdentified" using assms(3) sm by (simp add: allowed_states)
    moreover have "f = snd (handleMAIL (lift_rt rt) cmd e)" using CmdMAIL assms(5) by (simp add: handleCommand_def)
    ultimately show ?thesis using MAIL_on_duty [of rt m e cmd] e(1) by simp
  next
    case CmdRCPT
    with RCPT_on_duty [OF e(1,2), of cmd resp f] assms(3,5) sm show ?thesis by (simp add: handleCommand_def allowed_states)
  next
    case CmdRSET
    then have "f = snd (handleRSET (lift_rt rt) cmd e)" using assms(5) by (simp add: handleCommand_def)
    then show ?thesis using RSET_on_duty [OF e(1) assms(2), of cmd] by simp
  next
    case CmdQUIT
    then have "(resp, f) = handleQUIT cmd e" using assms(5) by (simp add: handleCommand_def)
    then show ?thesis using QUIT_on_duty [OF e(1) assms(2), of cmd] by (metis fst_conv snd_conv)
  qed (use assms(4,5) same cfg in \<open>auto simp: handleCommand_def handleSTARTTLS_def handleNOOP_def handleVRFY_def handleHELP_def
      split: if_splits\<close>)
  with f show ?thesis by (auto simp: on_duty_def)
qed

section \<open>A command and its reply\<close>

lemma mem_mailbox_reply:
  "policy_reply (harness_config rt []) verb resp \<Longrightarrow> reply_ok resp"
  by (auto simp: policy_reply_def mem_mailbox_def ValidateRecipient_def recipient_accepted_def recipient_rejected_def Let_def
      split: option.splits if_splits)

lemma leaf_harmless:
  assumes "Unwrap k = None" and "\<And>t m. k \<noteq> NetError t m" and "k \<notin> {CtxDeadlineExceeded, ErrDeadlineExceeded}"
  shows "\<not> is_timeout (ParseError k p a b)"
proof -
  have k: "errors_Is k t \<longleftrightarrow> k = t" for t by (subst errors_Is.simps) (simp add: assms(1))
  have "errors_Is (ParseError k p a b) t \<longleftrightarrow> ParseError k p a b = t \<or> k = t" for t
    by (subst errors_Is.simps) (simp add: k)
  moreover have "\<not> isTimeoutError k"
    by (subst isTimeoutError.simps) (use assms in \<open>auto split: goerror.splits\<close>)
  moreover have "isTimeoutError (ParseError k p a b) = isTimeoutError k" by (subst isTimeoutError.simps) simp
  ultimately show ?thesis using assms(3) by (simp add: is_timeout_def)
qed

lemma parse_error_harmless: "ParseCommand U n line = Inl err \<Longrightarrow> \<not> fatal err"
  by (auto simp: ParseCommand_def Let_def case_prod_beta fatal_def isIOError_def leaf_harmless split: if_splits)

lemma write_on_duty:
  assumes "on_duty rt m st f"
  shows "fst (writeResponse r f) = None" and "on_duty rt m st (snd (writeResponse r f))"
    and "sent (snd (writeResponse r f)) = sent f @ Response_Bytes r"
proof -
  have "standing rt m st unfinished f" using assms by (simp add: on_duty_def)
  from write_standing [OF this, of r] obtain g where "writeResponse r f = (None, g)" "standing rt m st unfinished g"
    "sent g = sent f @ Response_Bytes r" .
  moreover have "engine_inv (snd (writeResponse r f))" using assms by (simp add: on_duty_def)
  ultimately show "fst (writeResponse r f) = None" "on_duty rt m st (snd (writeResponse r f))"
    "sent (snd (writeResponse r f)) = sent f @ Response_Bytes r" by (simp_all add: on_duty_def)
qed

text \<open>What becomes of a session with the line it has read.\<close>

definition served :: "'v Runtime \<Rightarrow> Registry \<Rightarrow> Response \<Rightarrow> ('b, 'v MemWorld) Engine \<Rightarrow> bool" where
  "served rt m resp f \<longleftrightarrow> reply_ok resp \<and> sent f = Response_Bytes resp
     \<and> ((\<exists>st \<in> commanding. on_duty rt m st f) \<or> r_Code resp = 221 \<and> on_duty rt m StateTerminated f)"

lemma dispatch_served:
  assumes "on_duty rt m st e" and "st \<in> commanding" and "sent e = []" and "CHR 0x0A \<notin> set (cmd_Argument cmd)"
    and "cmd_Verb cmd \<noteq> CmdDATA"
  shows "\<exists>resp f. dispatch (lift_rt rt) cmd e = Inr (None, f) \<and> served rt m resp f"
proof -
  have inv: "engine_inv e" and cfg: "e_config e = harness_config rt []" using assms(1) by (simp_all add: on_duty_def standing_def)
  have hook: "command_hook cmd e = (None, e)" by (simp add: command_hook_def cfg)
  show ?thesis
  proof (cases "sm_IsCommandAllowed (cmd_Verb cmd) (e_sm e)")
    case False
    have "on_duty rt m st (bump_errors e)"
      using assms(1) by (simp add: on_duty_def standing_def bump_errors_def writable_def)
    note w = write_on_duty [OF this, of ResponseBadSequence]
    have "sent (bump_errors e) = []" using assms(3) by (simp add: sent_def bump_errors_def)
    with False w hook assms(2) show ?thesis
      by (auto simp: dispatch_def served_def intro!: exI [of _ ResponseBadSequence])
  next
    case True
    obtain resp f where h: "handleCommand (lift_rt rt) cmd e = Inr (resp, f)"
      using no_panic_handleCommand [OF True inv] by (cases "handleCommand (lift_rt rt) cmd e") (auto simp: cfg)
    have "proper_reply (e_config e) (cmd_Verb cmd) resp"
      using handleCommand_proper [OF inv True _ _ assms(4) h] assms(5) cfg by simp
    then have ok: "reply_ok resp" using mem_mailbox_reply unfolding proper_reply_def cfg by blast
    have sent: "sent f = []" using sent_writable_out [OF handleCommand_out [OF h assms(5)]] assms(3) by simp
    have reply: "fst (send_reply resp f) = None \<and> on_duty rt m st' (snd (send_reply resp f))
        \<and> sent (snd (send_reply resp f)) = Response_Bytes resp" if "on_duty rt m st' f" for st'
    proof -
      have "standing rt m st' unfinished f" using that by (simp add: on_duty_def)
      from send_reply_standing [OF this, of resp] obtain g where "send_reply resp f = (None, g)"
        "standing rt m st' unfinished g" "sent g = sent f @ Response_Bytes resp" .
      moreover have "engine_inv (snd (send_reply resp f))" using that by (simp add: on_duty_def)
      ultimately show ?thesis using sent by (simp add: on_duty_def)
    qed
    have "served rt m resp (snd (send_reply resp f))" "fst (send_reply resp f) = None"
      using command_on_duty [OF assms(1,2) True assms(5) h] reply ok by (auto simp: served_def ResponseBye_def)
    moreover have "dispatch (lift_rt rt) cmd e = Inr (send_reply resp f)"
      using True h hook by (simp add: dispatch_def)
    ultimately show ?thesis by (metis prod.collapse)
  qed
qed


lemma piece_settled:
  assumes "needs_line (lift_rt rt) e" and "prompt rt" and "ctx_done (lift_rt rt) (feed line e) = (None, e0)"
    and "data_opened (lift_rt rt) (feed line e) = None"
    and "processOneCommand (lift_rt rt) e0 = Inr (r, f)"
  shows "piece (lift_rt rt) line (AtCommand e) =
    Some (settled (case r of None \<Rightarrow> Continue f | Some err \<Rightarrow> after_error (lift_rt rt) err f))"
proof -
  have "e_sm e0 = e_sm e" "e_state e0 = e_state e" using assms(3) by (auto simp: ctx_done_def split: prod.splits)
  with assms show ?thesis by (simp add: run_step_def needs_line_def split: option.split)
qed

text \<open>Refused for too many errors: the session is aborted, and returns at once.\<close>

lemma aborted_leaves:
  assumes "standing rt m st E f" and "st \<in> commanding"
  shows "\<exists>g. after_error (lift_rt rt) err (on_sm (\<lambda>m. snd (Abort m)) f) = Return None g \<and> sent g = sent f"
proof -
  let ?f = "on_sm (\<lambda>m. snd (Abort m)) f"
  have cfg: "Hooks (e_config f) = None" and "sm_state (e_sm f) \<in> commanding" using assms by (simp_all add: standing_def)
  then have "sm_state (e_sm ?f) = StateAborted" by (auto simp: on_sm_def sm_state_Abort commanding_def IsTerminal_def)
  then have "after_error (lift_rt rt) err ?f = leave (lift_rt rt) DisconnectNormal None ?f"
    by (simp add: after_error_def IsTerminal_def)
  moreover obtain t h where now: "engine_now (lift_rt rt) (?f\<lparr>e_closed := True\<rparr>) = (t, h)" by fastforce
  then have "e_config h = e_config f" "e_conn h = e_conn f" by (auto simp: engine_now_def on_sm_def split: prod.splits)
  ultimately show ?thesis
    using cfg now by (auto simp: leave_def handleDisconnect_def run_hook_def sent_def on_sm_def)
qed

text \<open>A line that is no DATA command gets one reply; then the session waits for the next one, or it
  has said 221 and is about to return, or it has said 421 and returned.\<close>

lemma duty_piece:
  assumes "on_duty rt m st e" and "st \<in> commanding" and "prompt rt" and "is_line line"
    and "\<And>cmd. ParseCommand (rt_Unicode rt) 512 line = Inr cmd \<Longrightarrow> cmd_Verb cmd \<noteq> CmdDATA"
  shows "\<exists>resp g. piece (lift_rt rt) line (AtCommand e) = Some g \<and> said g = Response_Bytes resp \<and> reply_ok resp
    \<and> ((\<exists>f. g = AtCommand f \<and> served rt m resp f) \<or> r_Code resp = 421 \<and> (\<exists>f. g = Over None f))"
proof -
  have st: "standing rt m st unfinished e" using assms(1) by (simp add: on_duty_def)
  then have needs: "needs_line (lift_rt rt) e"
    using assms(2) prompt_lift [OF assms(3)]
    by (auto simp: needs_line_def standing_def IsTerminal_def ctx_done_def prompt_def case_prod_beta commanding_def)
  from fed_readLine [OF st assms(3,4)] obtain e0 f where
    rd: "ctx_done (lift_rt rt) (feed line e) = (None, e0)"
      "readLine (lift_rt rt) (command_timeout (Limits (e_config e))) e0 = (Inr line, f)"
    and f: "standing rt m st unfinished f" "sent f = []" .
  have "engine_inv (feed line e)" using assms(1) by (simp add: on_duty_def engine_inv_core [of "feed line e" e] core_def)
  then have inv: "engine_inv f"
    using engine_inv_ops(4) [of "lift_rt rt" "feed line e"] engine_inv_ops(3) [of "lift_rt rt" "command_timeout (Limits (e_config e))" e0] rd
    by simp
  have e0: "e_config e0 = e_config e" using rd(1) by (auto simp: ctx_done_def split: prod.splits)
  have len: "e_maxCommandLength f = 512" and cfg: "e_config f = harness_config rt []" using f(1) by (simp_all add: standing_def)
  let ?f = "counted f"
  have f': "on_duty rt m st ?f" "sent ?f = []"
    using standing_stats [OF f(1)] inv f(2) by (simp_all add: on_duty_def counted_def sent_def)
  have lim: "Limits (e_config (bump_errors ?f)) = DefaultSessionLimits" by (simp add: cfg)
  have len': "e_maxCommandLength ?f = 512" by (simp add: counted_def len)
  show ?thesis
  proof (cases "ParseCommand (rt_Unicode rt) 512 line")
    case (Inl err)
    have proc: "processOneCommand (lift_rt rt) e0 = Inr (reject_line err ?f)"
      using rd(2) Inl len e0 by (simp add: processOneCommand_def counted_def Let_def)
    have closed: "data_opened (lift_rt rt) (feed line e) = None"
      using rd Inl len by (simp add: data_opened_def Let_def)
    have b: "on_duty rt m st (bump_errors ?f)" "sent (bump_errors ?f) = []"
      using f' by (simp_all add: on_duty_def standing_def bump_errors_def writable_def sent_def)
    note w = write_on_duty [OF b(1)]
    show ?thesis
    proof (cases "checkErrorLimit (bump_errors ?f)")
      case None
      let ?g = "snd (writeResponse ResponseSyntaxError (bump_errors ?f))"
      have "\<not> IsTerminal (sm_state (e_sm ?g))"
        using w(2) [of ResponseSyntaxError] assms(2) by (auto simp: on_duty_def standing_def commanding_def IsTerminal_def)
      then have "after_error (lift_rt rt) err ?g = Continue ?g"
        using parse_error_harmless [OF Inl] by (simp add: after_error_def fatal_def)
      moreover have "reject_line err ?f = (Some err, ?g)" using None by (simp add: reject_line_def Let_def)
      ultimately have "piece (lift_rt rt) line (AtCommand e) = Some (AtCommand ?g)"
        using piece_settled [OF needs assms(3) rd(1) closed, of "Some err" ?g] proc by simp
      moreover have "reply_ok ResponseSyntaxError" by (simp add: ResponseSyntaxError_def)
      ultimately show ?thesis
        using w b(2) assms(2) by (auto simp: served_def said_def intro!: exI [of _ ResponseSyntaxError])
    next
      case (Some x)
      let ?r = "NewResponse Reply421ServiceNotAvailable ''Too many errors, closing connection''"
      let ?g = "snd (writeResponse ?r (bump_errors ?f))"
      have "standing rt m st unfinished ?g" using w(2) [of ?r] by (simp add: on_duty_def)
      from aborted_leaves [OF this assms(2), of x] obtain g where
        g: "after_error (lift_rt rt) x (on_sm (\<lambda>m. snd (Abort m)) ?g) = Return None g" "sent g = sent ?g" by blast
      have "reject_line err ?f = (Some x, on_sm (\<lambda>m. snd (Abort m)) ?g)" using Some by (simp add: reject_line_def Let_def)
      then have "piece (lift_rt rt) line (AtCommand e) = Some (Over None g)"
        using piece_settled [OF needs assms(3) rd(1) closed, of "Some x"] proc g(1) by simp
      moreover have "reply_ok ?r" "r_Code ?r = 421" by (simp_all add: NewResponse_def reply_ok_def)
      ultimately show ?thesis using w(3) [of ?r] b(2) g(2) by (intro exI [of _ ?r] exI [of _ "Over None g"]) (simp add: said_def)
    qed
  next
    case (Inr cmd)
    have verb: "cmd_Verb cmd \<noteq> CmdDATA" by (rule assms(5) [OF Inr])
    have "CHR 0x0A \<notin> set (cmd_Argument cmd)" by (rule parsed_argument [OF assms(4) Inr])
    from dispatch_served [OF f'(1) assms(2) f'(2) this verb] obtain resp g where
      g: "dispatch (lift_rt rt) cmd ?f = Inr (None, g)" "served rt m resp g" by blast
    have "processOneCommand (lift_rt rt) e0 = Inr (None, g)"
      using rd(2) Inr len e0 g(1) by (simp add: processOneCommand_def counted_def Let_def)
    moreover have "data_opened (lift_rt rt) (feed line e) = None"
      using rd Inr len verb by (simp add: data_opened_def Let_def case_prod_beta split: option.split)
    ultimately have "piece (lift_rt rt) line (AtCommand e) = Some (AtCommand g)"
      using piece_settled [OF needs assms(3) rd(1), of None g] by simp
    then show ?thesis using g(2) by (auto simp: served_def said_def)
  qed
qed

section \<open>Question and answer\<close>

definition ask :: "string \<Rightarrow> ConversationStep" where
  "ask line = (line_step line 0)\<lparr>cs_ExpectAny := True\<rparr>"

definition lockstep_script :: "string list \<Rightarrow> ConversationStep list" where
  "lockstep_script lines = line_step [] 220 # map ask lines"

definition asks_data :: "unicode \<Rightarrow> string \<Rightarrow> bool" where
  "asks_data U line = (case ParseCommand U 512 (line @ CRLF) of Inr cmd \<Rightarrow> cmd_Verb cmd = CmdDATA | Inl _ \<Rightarrow> False)"

lemma tasks_of_ask: "line \<noteq> [] \<Longrightarrow> tasks_of (ask line) = [(ask line, SendLine line), (ask line, ExpectReply)]"
  by (simp add: tasks_of_def ask_def line_step_def)

lemma client_listens_any:
  assumes "at_table ((step, ExpectReply) # tasks) inp (Response_Bytes r @ outp) g s" and "prompt crt" and "reply_ok r"
  shows "\<exists>t. turn (client_turn quote crt) (server_turn rt) s t \<and> at_table tasks inp outp g t \<and> heard t = heard s @ reply_lines r"
proof -
  let ?c = "cn_client s"
  have op: "\<not> pb_closed (h_Input ?c)" "\<not> pb_closed (h_Output ?c)" using assms(1) by (simp_all add: at_table_def pipes_open_def)
  have "\<forall>w. fst (rt_CtxDone crt w) = None" using assms(2) by (simp add: prompt_def)
  moreover have "pb_buf (h_Output ?c) = Response_Bytes r @ outp" using assms(1) by (simp add: at_table_def)
  ultimately obtain c w where rr: "readResponse crt [] ?c (cn_clock s) = ((ReplyDone ([] @ reply_lines r) None, c), w)"
    "pb_buf (h_Output c) = outp" "server_entries (h_Transcript c) = server_entries (h_Transcript ?c) @ reply_lines r"
    using readResponse_reply [OF _ assms(3), of crt ?c outp "[]" "cn_clock s"] by blast
  then have ex: "ExpectAny crt ?c (cn_clock s) = ((Some (reply_lines r, None), c), w)" by (simp add: ExpectAny_def)
  let ?t = "s\<lparr>cn_client := c, cn_clock := w, cn_tasks := tasks, cn_result := None\<rparr>"
  have "client_turn quote crt s = Some ?t" using assms(1) ex by (simp add: client_turn_def at_table_def replied_to_def)
  moreover have "at_table tasks inp outp g ?t" "heard ?t = heard s @ reply_lines r"
    using ExpectAny_meanwhile [OF ex op(2)] rr(2,3) assms(1) op(1) by (simp_all add: at_table_def pipes_open_def heard_def)
  ultimately show ?thesis by (auto simp: turn_def)
qed

text \<open>How a conversation ends: every line has its reply and the script is done, or the last reply was
  221 or 421, the session has returned, and the client goes on waiting all the same.\<close>

definition answered_all :: "bytes list \<Rightarrow> Response list \<Rightarrow> string list \<Rightarrow> ('b, 'w, 'c) Conversation \<Rightarrow> bool" where
  "answered_all before resps lines t \<longleftrightarrow>
     heard t = before @ concat (map reply_lines resps) \<and> list_all reply_ok resps \<and> pb_buf (h_Output (cn_client t)) = []
     \<and> (cn_result t = Some None \<and> length resps = length lines
        \<or> cn_result t = None \<and> resps \<noteq> [] \<and> length resps < length lines \<and> r_Code (last resps) \<in> {221, 421}
          \<and> (\<exists>f. cn_server t = Over None f))"

lemma client_done:
  assumes "at_table [] [] [] g s" and "server_turn rt (s\<lparr>cn_result := Some None\<rparr>) = None"
  shows "\<exists>t. turn (client_turn quote crt) (server_turn rt) s t \<and> settled_pair (client_turn quote crt) (server_turn rt) t
    \<and> answered_all (heard s) [] [] t"
  using assms by (intro exI [of _ "s\<lparr>cn_result := Some None\<rparr>"])
    (simp add: turn_def client_turn_def at_table_def settled_pair_def answered_all_def heard_def)

lemma client_waits:
  assumes "at_table ((step, ExpectReply) # tasks) inp [] g s" and "prompt crt"
  shows "client_turn quote crt s = None"
proof -
  have "\<not> pb_closed (h_Output (cn_client s))" "pb_buf (h_Output (cn_client s)) = []"
    using assms(1) by (simp_all add: at_table_def pipes_open_def)
  moreover have ctx: "\<exists>w'. rt_CtxDone crt w = (None, w')" for w
    using assms(2) by (metis prompt_def prod.collapse)
  ultimately have "\<exists>p h w'. readResponse crt [] (cn_client s) w = ((ReplyWaits [] p, h), w')" for w
    using ctx [of w] ctx by (simp add: readResponse.simps [of crt "[]" "cn_client s" w] pb_ReadLine_def split: option.split prod.split)
      (metis option.distinct(1) prod.inject)
  then obtain p h w' where "readResponse crt [] (cn_client s) (cn_clock s) = ((ReplyWaits [] p, h), w')" by blast
  then show ?thesis
    using assms(1) by (simp add: client_turn_def at_table_def replied_to_def ExpectAny_def)
qed

lemma asks_exchange:
  assumes "at_table (concat (map tasks_of (map ask (line # lines)))) [] [] g s" and "prompt crt" and "line \<noteq> []"
    and "CHR 0x0A \<notin> set line" and "thirsty rt g" and "piece rt (line @ CRLF) g = Some g'" and "said g' = Response_Bytes r"
    and "reply_ok r"
  shows "\<exists>t. (turn (client_turn quote crt) (server_turn rt))\<^sup>*\<^sup>* s t
    \<and> at_table (concat (map tasks_of (map ask lines))) [] [] g' t \<and> heard t = heard s @ reply_lines r"
proof -
  let ?T = "turn (client_turn quote crt) (server_turn rt)" and ?rest = "concat (map tasks_of (map ask lines))"
  have tasks: "at_table ((ask line, SendLine line) # (ask line, ExpectReply) # ?rest) [] [] g s"
    using assms(1) by (simp add: tasks_of_ask [OF assms(3)])
  from client_speaks [OF this, of "line @ CRLF" quote crt rt] obtain s1 where
    s1: "?T s s1" "at_table ((ask line, ExpectReply) # ?rest) (line @ CRLF) [] g s1" "heard s1 = heard s" by auto
  have "is_line (line @ CRLF)" by (rule is_line_append [OF assms(4) is_line_CRLF])
  from next_line_line [OF this, of "[]"] assms(5,6) have "advance_lines rt (line @ CRLF) g = Some ([], g')"
    by (simp add: advance_lines_def)
  from server_serves [OF s1(2) this, of quote crt] obtain s2 where
    s2: "?T s1 s2" "at_table ((ask line, ExpectReply) # ?rest) [] (Response_Bytes r @ []) g' s2" "heard s2 = heard s1"
    using assms(7) by auto
  from client_listens_any [OF s2(2) assms(2,8), of quote rt] obtain t where
    "?T s2 t" "at_table ?rest [] [] g' t" "heard t = heard s2 @ reply_lines r" by blast
  with s1 s2 show ?thesis
    by (metis (no_types, lifting) converse_rtranclp_into_rtranclp rtranclp.rtrancl_refl)
qed

lemma answered_Cons:
  "reply_ok r \<Longrightarrow> answered_all (before @ reply_lines r) resps lines t \<Longrightarrow> answered_all before (r # resps) (line # lines) t"
  by (auto simp: answered_all_def)

text \<open>The session has returned after 221 or 421.\<close>

lemma over_ends:
  assumes "at_table (concat (map tasks_of (map ask lines))) [] [] (Over None f) s" and "prompt crt"
    and "list_all (\<lambda>l. l \<noteq> []) lines" and "reply_ok r" and "r_Code r \<in> {221, 421}" and "heard s = before @ reply_lines r"
  shows "\<exists>t. (turn (client_turn quote crt) (server_turn rt))\<^sup>*\<^sup>* s t
    \<and> settled_pair (client_turn quote crt) (server_turn rt) t \<and> answered_all before [r] (line # lines) t"
proof (cases lines)
  case Nil
  have quiet: "server_turn rt (s\<lparr>cn_result := Some None\<rparr>) = None"
    using assms(1) by (simp add: server_turn_def advance_lines_def at_table_def)
  have "at_table [] [] [] (Over None f) s" using assms(1) Nil by simp
  from client_done [OF this quiet, of quote crt] obtain t where "turn (client_turn quote crt) (server_turn rt) s t"
    "settled_pair (client_turn quote crt) (server_turn rt) t" "answered_all (heard s) [] [] t" by blast
  with assms(4,6) Nil show ?thesis by (metis answered_Cons r_into_rtranclp)
next
  case (Cons l ls)
  let ?T = "turn (client_turn quote crt) (server_turn rt)"
  have "at_table ((ask l, SendLine l) # (ask l, ExpectReply) # concat (map tasks_of (map ask ls))) [] [] (Over None f) s"
    using assms(1,3) Cons by (simp add: tasks_of_ask)
  from client_speaks [OF this, of "l @ CRLF" quote crt rt] obtain t where
    t: "?T s t" "at_table ((ask l, ExpectReply) # concat (map tasks_of (map ask ls))) (l @ CRLF) [] (Over None f) t" "heard t = heard s"
    by auto
  have "settled_pair (client_turn quote crt) (server_turn rt) t"
    using client_waits [OF t(2) assms(2)] t(2) by (simp add: settled_pair_def server_turn_def advance_lines_def at_table_def)
  moreover have "answered_all before [r] (line # lines) t"
    using t(2,3) assms(4-6) Cons by (simp add: answered_all_def at_table_def)
  ultimately show ?thesis using t(1) by blast
qed

lemma terminated_quiet:
  assumes "on_duty rt m StateTerminated e" and "prompt rt"
  shows "\<exists>f. advance_lines (lift_rt rt) [] (AtCommand e) = Some ([], Over None f) \<and> sent f = []"
proof -
  have st: "standing rt m StateTerminated unfinished e" using assms(1) by (simp add: on_duty_def)
  from terminated_piece [OF this assms(2)] obtain f where f: "piece (lift_rt rt) [] (AtCommand e) = Some (Over None f)" "sent f = []"
    by blast
  have "\<not> thirsty (lift_rt rt) (AtCommand e)" using st by (simp add: needs_line_def standing_def IsTerminal_def)
  with f show ?thesis by (simp add: advance_lines_def del: piece.simps)
qed

lemma lockstep_ends:
  assumes "at_table (concat (map tasks_of (map ask lines))) [] [] (AtCommand e) s"
    and "on_duty rt m st e" and "st \<in> commanding" and "prompt rt" and "prompt crt"
    and "list_all (\<lambda>l. l \<noteq> [] \<and> CHR 0x0A \<notin> set l \<and> \<not> asks_data (rt_Unicode rt) l) lines"
  shows "\<exists>t resps. (turn (client_turn quote crt) (server_turn (lift_rt rt)))\<^sup>*\<^sup>* s t
    \<and> settled_pair (client_turn quote crt) (server_turn (lift_rt rt)) t \<and> answered_all (heard s) resps lines t"
  using assms(1,2,3,6)
proof (induction lines arbitrary: e s st)
  case Nil
  have "thirsty (lift_rt rt) (AtCommand e)"
    using standing_thirsty [of rt m st unfinished e] Nil.prems(2,3) assms(4)
    by (auto simp: on_duty_def commanding_def IsTerminal_def)
  then have "server_turn (lift_rt rt) (s\<lparr>cn_result := Some None\<rparr>) = None"
    using Nil.prems(1) by (simp add: server_turn_def advance_lines_def at_table_def next_line_def)
  with client_done [of "AtCommand e" s "lift_rt rt" quote crt] Nil.prems(1) show ?case by auto
next
  case (Cons line lines)
  let ?T = "turn (client_turn quote crt) (server_turn (lift_rt rt))"
  have line: "line \<noteq> []" "CHR 0x0A \<notin> set line" "\<not> asks_data (rt_Unicode rt) line" using Cons.prems(4) by simp_all
  have thirst: "thirsty (lift_rt rt) (AtCommand e)"
    using standing_thirsty [of rt m st unfinished e] Cons.prems(2,3) assms(4)
    by (auto simp: on_duty_def commanding_def IsTerminal_def)
  have "is_line (line @ CRLF)" by (rule is_line_append [OF line(2) is_line_CRLF])
  from duty_piece [OF Cons.prems(2,3) assms(4) this] line(3) obtain r g where
    g: "piece (lift_rt rt) (line @ CRLF) (AtCommand e) = Some g" "said g = Response_Bytes r" "reply_ok r"
    and after: "(\<exists>f. g = AtCommand f \<and> served rt m r f) \<or> r_Code r = 421 \<and> (\<exists>f. g = Over None f)"
    by (fastforce simp: asks_data_def)
  from asks_exchange [OF Cons.prems(1) assms(5) line(1,2) thirst g, of quote] obtain s1 where
    s1: "?T\<^sup>*\<^sup>* s s1" "at_table (concat (map tasks_of (map ask lines))) [] [] g s1" "heard s1 = heard s @ reply_lines r" by blast
  have ne: "list_all (\<lambda>l. l \<noteq> []) lines" using Cons.prems(4) by (simp add: list_all_iff)
  from after consider (on) f st' where "g = AtCommand f" "st' \<in> commanding" "on_duty rt m st' f"
    | (bye) f where "g = AtCommand f" "r_Code r = 221" "on_duty rt m StateTerminated f"
    | (over) f where "g = Over None f" "r_Code r = 421"
    by (auto simp: served_def)
  then show ?case
  proof cases
    case on
    have "list_all (\<lambda>l. l \<noteq> [] \<and> CHR 0x0A \<notin> set l \<and> \<not> asks_data (rt_Unicode rt) l) lines" using Cons.prems(4) by simp
    from Cons.IH [OF s1(2) [unfolded on(1)] on(3,2) this] obtain t resps where
      t: "?T\<^sup>*\<^sup>* s1 t" "settled_pair (client_turn quote crt) (server_turn (lift_rt rt)) t" "answered_all (heard s1) resps lines t" by blast
    have "answered_all (heard s) (r # resps) (line # lines) t"
      by (rule answered_Cons [OF g(3)]) (use t(3) s1(3) in simp)
    with s1(1) t(1,2) show ?thesis by (meson rtranclp_trans)
  next
    case bye
    from terminated_quiet [OF bye(3) assms(4)] obtain f' where
      f': "advance_lines (lift_rt rt) [] (AtCommand f) = Some ([], Over None f')" "sent f' = []" by blast
    from server_serves [OF s1(2) [unfolded bye(1)] f'(1), of quote crt] f'(2) obtain s2 where
      s2: "?T s1 s2" "at_table (concat (map tasks_of (map ask lines))) [] [] (Over None f') s2" "heard s2 = heard s1"
      by (auto simp: said_def)
    have "heard s2 = heard s @ reply_lines r" "r_Code r \<in> {221, 421}" using s1(3) s2(3) bye(2) by simp_all
    from over_ends [OF s2(2) assms(5) ne g(3) this(2,1), of quote "lift_rt rt" line] s1(1) s2(1)
    show ?thesis by (meson rtranclp.rtrancl_into_rtrancl rtranclp_trans)
  next
    case over
    have "r_Code r \<in> {221, 421}" using over(2) by simp
    from over_ends [OF s1(2) [unfolded over(1)] assms(5) ne g(3) this s1(3), of quote "lift_rt rt" line] s1(1)
    show ?thesis by (meson rtranclp_trans)
  qed
qed

text \<open>
  (C13) A client that waits for a reply to each command is never left waiting by a session that goes on.
  It runs against a new harness with its default configuration and an empty storage; its script
  waits for the greeting, then sends commands one by one, each a line without a line feed that is
  no DATA command, and waits for any reply to each; no party waits so long that a deadline passes.
  Then every schedule of client and engine leads to the same end. There the client has read the
  greeting and a sequence of well-formed replies, and nothing unread is left. Either the script is
  done without an error and each command has had exactly one reply; or the last reply was 221 or
  421, the session has returned, and the client waits for more, which \<open>Expect\<close> never gives up.
\<close>

theorem lockstep_is_answered:
  fixes w :: "'v MemWorld" and h :: "('b, 'v MemWorld) Harness"
  assumes "prompt rt" and "prompt crt" and "mw_Storage w = NewStorage" and "h = fst (NewHarness rt [] v)"
    and "list_all (\<lambda>l. l \<noteq> [] \<and> CHR 0x0A \<notin> set l \<and> \<not> asks_data (rt_Unicode rt) l) lines"
  shows "\<exists>n t resps. (\<forall>k s. (turn (client_turn quote crt) (server_turn (lift_rt rt)) ^^ k)
           (open_conversation (lift_rt rt) (lockstep_script lines) h w cw) s \<longrightarrow>
         k \<le> n \<and> (turn (client_turn quote crt) (server_turn (lift_rt rt)) ^^ (n - k)) s t)
    \<and> settled_pair (client_turn quote crt) (server_turn (lift_rt rt)) t
    \<and> heard t = reply_lines hello_reply @ concat (map reply_lines resps) \<and> list_all reply_ok resps
    \<and> pb_buf (h_Output (cn_client t)) = []
    \<and> (cn_result t = Some None \<and> length resps = length lines
       \<or> cn_result t = None \<and> resps \<noteq> [] \<and> length resps < length lines \<and> r_Code (last resps) \<in> {221, 421}
         \<and> (\<exists>f. cn_server t = Over None f))"
proof -
  let ?T = "turn (client_turn quote crt) (server_turn (lift_rt rt))"
  let ?s = "open_conversation (lift_rt rt) (lockstep_script lines) h w cw"
  have "concat (map tasks_of (lockstep_script lines)) = (line_step [] 220, ExpectCode 220) # concat (map tasks_of (map ask lines))"
    by (simp add: lockstep_script_def tasks_of_line_step)
  from greeting_exchange [OF this assms(3,2), of quote rt v cw] obtain s e where
    s: "?T\<^sup>*\<^sup>* ?s s" "at_table (concat (map tasks_of (map ask lines))) [] [] (AtCommand e) s" "heard s = reply_lines hello_reply"
    and e: "standing rt (mw_Mailbox w) StateGreeted nothing_yet e" "ss_State (e_state e) = StateGreeted"
    unfolding assms(4) by blast
  have "on_duty rt (mw_Mailbox w) StateGreeted e"
    using e by (simp add: on_duty_def standing_def engine_inv_def nothing_yet_def)
  moreover have "StateGreeted \<in> commanding" by (simp add: commanding_def)
  ultimately obtain t resps where t: "?T\<^sup>*\<^sup>* s t" "settled_pair (client_turn quote crt) (server_turn (lift_rt rt)) t"
    "answered_all (heard s) resps lines t"
    using lockstep_ends [OF s(2) _ _ assms(1,2,5)] by blast
  from s(1) t(1) have "?T\<^sup>*\<^sup>* ?s t" by (rule rtranclp_trans)
  then obtain n where n: "(?T ^^ n) ?s t" by (auto simp: rtranclp_power)
  have "pipes_open ?s"
    by (simp add: pipes_open_def open_conversation_def NewPipeBuffer_def NewHarness_def assms(4))
  then have "\<forall>k s'. (?T ^^ k) ?s s' \<longrightarrow> k \<le> n \<and> (?T ^^ (n - k)) s' t"
    using talk.turns_saved [OF _ n t(2)] by blast
  with t(2,3) show ?thesis unfolding answered_all_def s(3) by blast
qed

definition sample_questions :: "string list" where
  "sample_questions = [''HELO client.example'', ''NONSENSE'', ''RCPT TO:<a@b.c>'', ''QUIT'', ''NOOP'']"

theorem lockstep_is_answered_witness:
  "\<exists>(t :: (unit, unit MemWorld, unit) Conversation) resps.
    settled_pair (client_turn id rt_const) (server_turn (lift_rt rt_const)) t
    \<and> heard t = reply_lines hello_reply @ concat (map reply_lines resps) \<and> list_all reply_ok resps"
proof -
  have "prompt rt_const" by (simp add: prompt_def rt_const_def Minute_def Second_def)
  moreover have "mw_Storage sample_world = NewStorage" by (simp add: sample_world_def)
  moreover have "list_all (\<lambda>l. l \<noteq> [] \<and> CHR 0x0A \<notin> set l \<and> \<not> asks_data (rt_Unicode rt_const) l) sample_questions"
    by code_simp
  ultimately show ?thesis
    using lockstep_is_answered [of rt_const rt_const sample_world "fst (NewHarness rt_const [] ()) :: (unit, unit MemWorld) Harness"
        "()" sample_questions id "()"] by blast
qed

end
