(* ===== verification/Engine_Stream.thy ===== *)
theory Engine_Stream
  imports Engine_End
begin

text \<open>
  A session sees a stream of bytes, not packets. TCP may hand the bytes of a client to the engine
  in any pieces; two sessions that differ only in how the same bytes are cut do the same. The
  relation \<open>same\<close> holds of two engines that agree in everything but the division of the pending
  input between buffer and transport, and every operation of the engine respects it. Not covered
  is the TLS upgrade, which by design throws away what happens to be buffered.
\<close>

section \<open>Connections with the same input\<close>

fun wire :: "Conn \<Rightarrow> Conn" where
  "wire (Net c) = Net (c\<lparr>nc_conn := (nc_conn c)\<lparr>tr_reads := []\<rparr>\<rparr>)"
| "wire (Pipe c) = Pipe (c\<lparr>pc_rw := (pc_rw c)\<lparr>tr_reads := []\<rparr>\<rparr>)"

definition same_stream :: "BufferedConn \<Rightarrow> BufferedConn \<Rightarrow> bool" where
  "same_stream b b' \<longleftrightarrow> clean b \<and> clean b' \<and> stream b = stream b' \<and> wire (bc_conn b) = wire (bc_conn b')"

lemma clean_upd: "clean b \<Longrightarrow> conn_reads c = conn_reads (bc_conn b) \<Longrightarrow> wire c = Net n \<Longrightarrow> clean (b\<lparr>bc_conn := c\<rparr>)"
  by (cases c) (auto simp: clean_def)

lemma wire_Net: "wire c = Net n \<longleftrightarrow> (\<exists>m. c = Net m \<and> n = m\<lparr>nc_conn := (nc_conn m)\<lparr>tr_reads := []\<rparr>\<rparr>)"
  by (cases c) auto

lemma same_stream_SetReadDeadline:
  assumes "same_stream b b'"
  shows "same_stream (b\<lparr>bc_conn := Conn_SetReadDeadline d (bc_conn b)\<rparr>) (b'\<lparr>bc_conn := Conn_SetReadDeadline d (bc_conn b')\<rparr>)"
proof -
  have "wire (Conn_SetReadDeadline d c) = Conn_SetReadDeadline d (wire c)" for c
    by (cases c) (simp_all add: Pipe_SetReadDeadline_def Let_def)
  with assms show ?thesis by (simp add: same_stream_def)
qed

lemma wire_Write:
  "fst (Conn_Write p (wire c)) = fst (Conn_Write p c)" "snd (Conn_Write p (wire c)) = wire (snd (Conn_Write p c))"
  by (cases c; auto simp: Net_Write_def Pipe_Write_def tr_Write_def split: list.split prod.split)+

lemma same_stream_Write:
  assumes "same_stream b b'"
  shows "fst (Conn_Write p (bc_conn b)) = fst (Conn_Write p (bc_conn b'))"
    and "same_stream (b\<lparr>bc_conn := snd (Conn_Write p (bc_conn b))\<rparr>) (b'\<lparr>bc_conn := snd (Conn_Write p (bc_conn b'))\<rparr>)"
proof -
  have w: "wire (bc_conn b) = wire (bc_conn b')" and cl: "clean b" "clean b'"
    using assms by (simp_all add: same_stream_def)
  then show "fst (Conn_Write p (bc_conn b)) = fst (Conn_Write p (bc_conn b'))"
    by (metis wire_Write(1))
  have "wire (snd (Conn_Write p (bc_conn b))) = wire (snd (Conn_Write p (bc_conn b')))"
    using w by (metis wire_Write(2))
  moreover have "clean (c\<lparr>bc_conn := snd (Conn_Write p (bc_conn c))\<rparr>)" if "clean c" for c
  proof -
    from that obtain n where "bc_conn c = Net n" by (auto simp: clean_def)
    then have "\<exists>m. wire (snd (Conn_Write p (bc_conn c))) = Net m" by (simp add: case_prod_beta)
    with that show ?thesis by (auto intro: clean_upd)
  qed
  ultimately show "same_stream (b\<lparr>bc_conn := snd (Conn_Write p (bc_conn b))\<rparr>)
      (b'\<lparr>bc_conn := snd (Conn_Write p (bc_conn b'))\<rparr>)"
    using assms cl by (simp add: same_stream_def)
qed

lemma wire_fill_clean:
  assumes "clean b" and "conn_reads (bc_conn b) \<noteq> []"
  shows "wire (bc_conn (fst (fill rt b w))) = wire (bc_conn b)"
proof -
  from assms(1) obtain c where c: "bc_conn b = Net c" "bc_err b = None"
    and ok: "list_all (\<lambda>(d, e). d \<noteq> [] \<and> e = None) (tr_reads (nc_conn c))"
    unfolding clean_def by blast
  with assms(2) obtain d evs where evs: "tr_reads (nc_conn c) = (d, None) # evs" "d \<noteq> []"
    by (cases "tr_reads (nc_conn c)") auto
  then show ?thesis
    unfolding fill_Suc fill_loop.simps(2) using c(1) by (simp add: Net_Read_def tr_Read_def)
qed

text \<open>A read without a line feed to come hands out everything with the end of file.\<close>

lemma ReadBytes_last:
  assumes "clean b" and "CHR 0x0A \<notin> set (stream b)"
  shows "\<exists>b'. ReadBytes rt b w = (((stream b, Some EOF), b'), w) \<and> clean b' \<and> stream b' = []
    \<and> wire (bc_conn b') = wire (bc_conn b)"
  using assms
proof (induction rt b w rule: ReadBytes.induct)
  case (1 rt b w)
  have no: "index_of CHR 0x0A (bc_buf b) = None" and noerr: "bc_err b = None"
    using "1.prems" by (auto simp: stream_def index_of_None clean_def)
  show ?case
  proof (cases "conn_reads (bc_conn b) = []")
    case True
    with "1.prems"(1) obtain c where c: "bc_conn b = Net c" "tr_reads (nc_conn c) = []"
      by (auto simp: clean_def)
    have "fill rt b w = (b\<lparr>bc_err := Some EOF\<rparr>, w)"
      unfolding fill_Suc fill_loop.simps(2) using c by (simp add: Net_Read_def tr_Read_def)
    with no noerr True c "1.prems"(1) show ?thesis
      by (simp add: ReadBytes.simps [of rt b] ReadBytes.simps [of rt "b\<lparr>bc_err := Some EOF\<rparr>"]
          stream_def clean_def)
  next
    case False
    let ?f = "fst (fill rt b w)"
    have "stream ?f = stream b"
      using fill_loop_stream [of rt 100 b w] by (simp add: fill_def prod_eq_iff)
    with "1.IH" [OF no noerr] fill_clean [OF "1.prems"(1) False, of rt w] wire_fill_clean [OF "1.prems"(1) False, of rt w]
      "1.prems"(2)
    show ?thesis by (simp add: ReadBytes.simps [of rt b] no noerr)
  qed
qed

lemma wire_ReadBytes:
  assumes "clean b" and "CHR 0x0A \<in> set (stream b)"
  shows "wire (bc_conn (snd (fst (ReadBytes rt b w)))) = wire (bc_conn b)"
  using assms
proof (induction rt b w rule: ReadBytes.induct)
  case (1 rt b w)
  show ?case
  proof (cases "index_of CHR 0x0A (bc_buf b)")
    case None
    have noerr: "bc_err b = None" using "1.prems"(1) by (simp add: clean_def)
    have reads: "conn_reads (bc_conn b) \<noteq> []" using "1.prems"(2) None by (auto simp: stream_def)
    let ?f = "fst (fill rt b w)"
    have "stream ?f = stream b"
      using fill_loop_stream [of rt 100 b w] by (simp add: fill_def prod_eq_iff)
    with "1.IH" [OF None noerr] fill_clean [OF "1.prems"(1) reads, of rt w]
      wire_fill_clean [OF "1.prems"(1) reads, of rt w] "1.prems"(2)
    show ?thesis by (simp add: ReadBytes.simps [of rt b] None noerr)
  qed (simp add: ReadBytes.simps [of rt b])
qed

lemma same_stream_ReadBytes:
  assumes "same_stream b b'"
  obtains res b1 b1' where "ReadBytes rt b w = ((res, b1), w)" "ReadBytes rt b' w = ((res, b1'), w)"
    "same_stream b1 b1'"
proof (cases "CHR 0x0A \<in> set (stream b)")
  case True
  have b: "clean b" "clean b'" "stream b = stream b'" "wire (bc_conn b) = wire (bc_conn b')"
    using assms by (simp_all add: same_stream_def)
  from ReadBytes_clean [OF b(1) True, of rt w] obtain d b1
    where r: "ReadBytes rt b w = (((d, None), b1), w)" "clean b1" by blast
  from ReadBytes_clean [OF b(2), of rt w] True b(3) obtain d' b1'
    where r': "ReadBytes rt b' w = (((d', None), b1'), w)" "clean b1'" by auto
  have "d = d' \<and> stream b1 = stream b1'"
    using bytes_source.chunking_irrelevant [of rt "(b, w)" d "(b1, w)" "(b', w)" d' "(b1', w)"] r r' b(3)
    by (simp add: ReadBytes_step_def)
  moreover have "wire (bc_conn b1) = wire (bc_conn b1')"
    using wire_ReadBytes [OF b(1) True, of rt w] wire_ReadBytes [OF b(2), of rt w] True b r r' by simp
  ultimately show thesis using that r r' by (simp add: same_stream_def)
next
  case False
  have b: "clean b" "clean b'" "stream b = stream b'" "wire (bc_conn b) = wire (bc_conn b')"
    using assms by (simp_all add: same_stream_def)
  from ReadBytes_last [OF b(1) False, of rt w] ReadBytes_last [OF b(2), of rt w] False b that
  show thesis by (auto simp: same_stream_def)
qed

lemma same_stream_ReadLine:
  assumes "same_stream b b'"
  obtains res b1 b1' w1 where "ReadLine rt t b w = ((res, b1), w1)" "ReadLine rt t b' w = ((res, b1'), w1)"
    "same_stream b1 b1'"
proof (cases "t > 0")
  case True
  obtain now w1 where now: "rt_Now rt w = (now, w1)" by fastforce
  from same_stream_ReadBytes [OF same_stream_SetReadDeadline [OF assms, of "Some (now + t)"], of rt w1]
  obtain res b1 b1' where
    "ReadBytes rt (b\<lparr>bc_conn := Conn_SetReadDeadline (Some (now + t)) (bc_conn b)\<rparr>) w1 = ((res, b1), w1)"
    "ReadBytes rt (b'\<lparr>bc_conn := Conn_SetReadDeadline (Some (now + t)) (bc_conn b')\<rparr>) w1 = ((res, b1'), w1)"
    "same_stream b1 b1'" by metis
  with True now that [OF _ _ same_stream_SetReadDeadline [of b1 b1' None]] show thesis
    by (simp add: ReadLine_def)
next
  case False
  then have "ReadLine rt t x w = ReadBytes rt x w" for x by (simp add: ReadLine_def)
  with same_stream_ReadBytes [OF assms, of rt w] that show thesis by metis
qed

section \<open>Engines with the same input\<close>

definition same :: "('b, 'w) Engine \<Rightarrow> ('b, 'w) Engine \<Rightarrow> bool" where
  "same e e' \<longleftrightarrow> same_stream (e_conn e) (e_conn e') \<and> e' = e\<lparr>e_conn := e_conn e'\<rparr>"

lemma same_obtain:
  assumes "same e e'"
  obtains c where "e' = e\<lparr>e_conn := c\<rparr>" "same_stream (e_conn e) c"
  using assms by (auto simp: same_def)

lemma same_intro: "same_stream (e_conn e) c \<Longrightarrow> same e (e\<lparr>e_conn := c\<rparr>)"
  by (simp add: same_def)

lemma same_fields:
  assumes "same e e'"
  shows "e_config e' = e_config e" "e_sm e' = e_sm e" "e_state e' = e_state e" "e_stats e' = e_stats e"
    "e_envelope e' = e_envelope e" "e_world e' = e_world e" "e_maxCommandLength e' = e_maxCommandLength e"
    "e_closed e' = e_closed e"
  using assms by (auto elim!: same_obtain)

text \<open>Operations that do not touch the connection commute with an update of it.\<close>

definition conn_free :: "(('b, 'w) Engine \<Rightarrow> 'r \<times> ('b, 'w) Engine) \<Rightarrow> bool" where
  "conn_free h \<longleftrightarrow> (\<forall>e c. h (e\<lparr>e_conn := c\<rparr>) = (fst (h e), (snd (h e))\<lparr>e_conn := c\<rparr>))"

lemma same_conn_free:
  assumes "conn_free h" and "same e e'"
  shows "rel_prod (=) same (h e) (h e')"
proof -
  obtain c where c: "e' = e\<lparr>e_conn := c\<rparr>" "same_stream (e_conn e) c" using assms(2) by (rule same_obtain)
  have "h (e\<lparr>e_conn := e_conn e\<rparr>) = (fst (h e), (snd (h e))\<lparr>e_conn := e_conn e\<rparr>)"
    using assms(1) unfolding conn_free_def by blast
  then have "e_conn (snd (h e)) = e_conn e" by (cases "h e") (metis Engine.select_convs(2) Engine.surjective Engine.update_convs(2) snd_conv)
  with c assms(1) show ?thesis by (simp add: conn_free_def rel_prod_sel same_intro)
qed

lemma conn_upd_commute [simp]:
  "e\<lparr>e_conn := c, e_world := w\<rparr> = e\<lparr>e_world := w, e_conn := c\<rparr>"
  "e\<lparr>e_conn := c, e_envelope := x\<rparr> = e\<lparr>e_envelope := x, e_conn := c\<rparr>"
  "e\<lparr>e_conn := c, e_state := s\<rparr> = e\<lparr>e_state := s, e_conn := c\<rparr>"
  "e\<lparr>e_conn := c, e_stats := st\<rparr> = e\<lparr>e_stats := st, e_conn := c\<rparr>"
  "e\<lparr>e_conn := c, e_closed := cl\<rparr> = e\<lparr>e_closed := cl, e_conn := c\<rparr>"
  "e\<lparr>e_conn := c, e_sm := m\<rparr> = e\<lparr>e_sm := m, e_conn := c\<rparr>"
  by (rule Engine.equality; simp)+

lemma conn_commute [simp]:
  "session_info (e\<lparr>e_conn := c\<rparr>) = session_info e"
  "run_hook f (e\<lparr>e_conn := c\<rparr>) = (run_hook f e)\<lparr>e_conn := c\<rparr>"
  "set_state s (e\<lparr>e_conn := c\<rparr>) = (set_state s e)\<lparr>e_conn := c\<rparr>"
  "on_sm g (e\<lparr>e_conn := c\<rparr>) = (on_sm g e)\<lparr>e_conn := c\<rparr>"
  "sm_command v (e\<lparr>e_conn := c\<rparr>) = (sm_command v e)\<lparr>e_conn := c\<rparr>"
  "add_bytes_read n (e\<lparr>e_conn := c\<rparr>) = (add_bytes_read n e)\<lparr>e_conn := c\<rparr>"
  "resetTransaction rt (e\<lparr>e_conn := c\<rparr>) = (resetTransaction rt e)\<lparr>e_conn := c\<rparr>"
  "bump_errors (e\<lparr>e_conn := c\<rparr>) = (bump_errors e)\<lparr>e_conn := c\<rparr>"
  by (simp_all add: session_info_def CurrentMailFrom_def CurrentRecipientCount_def run_hook_def set_state_def
      on_sm_def sm_command_def add_bytes_read_def resetTransaction_def bump_errors_def split: option.split)

lemma conn_reads_only [simp]:
  "checkErrorLimit (e\<lparr>e_conn := c\<rparr>) = checkErrorLimit e"
  "envelope_metadata rt (e\<lparr>e_conn := c\<rparr>) = envelope_metadata rt e"
  "size_rejected (e\<lparr>e_conn := c\<rparr>) cmd = size_rejected e cmd"
  "recipients_full b (e\<lparr>e_conn := c\<rparr>) = recipients_full b e"
  "hello (e\<lparr>e_conn := c\<rparr>) = hello e"
  "ehlo_lines (e\<lparr>e_conn := c\<rparr>) = ehlo_lines e"
  by (auto simp: checkErrorLimit_def envelope_metadata_def size_rejected_def recipients_full_def hello_def ehlo_lines_def
      fun_eq_iff split: option.split)

lemma conn_free_intro: "(\<And>e c. h (e\<lparr>e_conn := c\<rparr>) = (fst (h e), (snd (h e))\<lparr>e_conn := c\<rparr>)) \<Longrightarrow> conn_free h"
  by (simp add: conn_free_def)

lemma conn_free_basic:
  "conn_free (engine_now rt)" "conn_free (ctx_done rt)" "conn_free (command_hook cmd)"
  "conn_free (validate_sender p)" "conn_free (store_message env)" "conn_free (abandon_data r)"
  "conn_free (message_accepted env)" "conn_free (accept_recipient p b)"
  by (rule conn_free_intro, simp add: engine_now_def ctx_done_def command_hook_def validate_sender_def
      store_message_def abandon_data_def message_accepted_def accept_recipient_def case_prod_beta Let_def
      split: option.split sum.split)+

lemma conn_free_handlers:
  "conn_free (handleHELO rt cmd)" "conn_free (handleEHLO rt cmd)" "conn_free (handleRSET rt cmd)"
  "conn_free (handleNOOP cmd)" "conn_free (handleQUIT cmd)" "conn_free (handleVRFY cmd)"
  "conn_free (handleHELP cmd)" "conn_free (handleSTARTTLS cmd)"
  by (rule conn_free_intro, simp add: handleHELO_def handleEHLO_def handleRSET_def handleNOOP_def handleQUIT_def
      handleVRFY_def handleHELP_def handleSTARTTLS_def identify_def Let_def split: sum.split)+

lemma conn_free_finish_data: "conn_free (finish_data wr b :: ('b, 'w) Engine \<Rightarrow> _)"
proof (rule conn_free_intro)
  fix e :: "('b, 'w) Engine" and c
  have store: "store_message env (e\<lparr>e_world := w, e_conn := c\<rparr>)
      = (fst (store_message env (e\<lparr>e_world := w\<rparr>)), (snd (store_message env (e\<lparr>e_world := w\<rparr>)))\<lparr>e_conn := c\<rparr>)" for env w
    using conn_free_basic(5) [of env] unfolding conn_free_def by blast
  have ends: "abandon_data r (f\<lparr>e_conn := c\<rparr>) = (fst (abandon_data r f), (snd (abandon_data r f))\<lparr>e_conn := c\<rparr>)"
    "message_accepted env (f\<lparr>e_conn := c\<rparr>) = (fst (message_accepted env f), (snd (message_accepted env f))\<lparr>e_conn := c\<rparr>)"
    for r env f
    using conn_free_basic(6) [of r] conn_free_basic(7) [of env] unfolding conn_free_def by blast+
  show "finish_data wr b (e\<lparr>e_conn := c\<rparr>) = (fst (finish_data wr b e), (snd (finish_data wr b e))\<lparr>e_conn := c\<rparr>)"
    by (simp add: finish_data_def store ends case_prod_beta split: option.split sum.split)
qed

lemma conn_free_handleMAIL: "conn_free (handleMAIL rt cmd :: ('b, 'w) Engine \<Rightarrow> _)"
proof (rule conn_free_intro)
  fix e :: "('b, 'w) Engine" and c
  have valid: "validate_sender p (e\<lparr>e_conn := c\<rparr>) = (fst (validate_sender p e), (snd (validate_sender p e))\<lparr>e_conn := c\<rparr>)" for p
    using conn_free_basic(4) [of p] unfolding conn_free_def by blast
  show "handleMAIL rt cmd (e\<lparr>e_conn := c\<rparr>) = (fst (handleMAIL rt cmd e), (snd (handleMAIL rt cmd e))\<lparr>e_conn := c\<rparr>)"
    by (simp add: handleMAIL_def valid case_prod_beta Let_def split: option.split sum.split)
qed

abbreviation same_result where
  "same_result \<equiv> rel_sum (=) (rel_prod (=) same)"

lemma same_handleRCPT:
  assumes "same e e'"
  shows "same_result (handleRCPT rt cmd e) (handleRCPT rt cmd e')"
proof -
  obtain c where c: "e' = e\<lparr>e_conn := c\<rparr>" using assms by (rule same_obtain)
  have "same (e\<lparr>e_world := w\<rparr>) (e\<lparr>e_world := w, e_conn := c\<rparr>)" for w
    using assms c by (auto simp: same_def)
  then have acc: "rel_prod (=) same (accept_recipient p b (e\<lparr>e_world := w\<rparr>)) (accept_recipient p b (e\<lparr>e_world := w, e_conn := c\<rparr>))"
    and "same (e\<lparr>e_world := w\<rparr>) (e\<lparr>e_world := w, e_conn := c\<rparr>)" for p b w
    using same_conn_free [OF conn_free_basic(8)] by blast+
  with assms show ?thesis
    by (simp add: c handleRCPT_def case_prod_beta Let_def split: option.split sum.split)
qed

section \<open>Operations on the connection\<close>

lemma same_upd:
  assumes "same e e'"
  shows "same (e\<lparr>e_world := w\<rparr>) (e'\<lparr>e_world := w\<rparr>)" "same (e\<lparr>e_state := s\<rparr>) (e'\<lparr>e_state := s\<rparr>)"
    "same (e\<lparr>e_stats := st\<rparr>) (e'\<lparr>e_stats := st\<rparr>)" "same (set_state x e) (set_state x e')"
    "same (on_sm g e) (on_sm g e')" "same (run_hook f e) (run_hook f e')"
    "same (sm_command v e) (sm_command v e')" "same (bump_errors e) (bump_errors e')"
proof -
  obtain c where c: "e' = e\<lparr>e_conn := c\<rparr>" "same_stream (e_conn e) c" using assms by (rule same_obtain)
  show "same (e\<lparr>e_world := w\<rparr>) (e'\<lparr>e_world := w\<rparr>)" "same (e\<lparr>e_state := s\<rparr>) (e'\<lparr>e_state := s\<rparr>)"
    "same (e\<lparr>e_stats := st\<rparr>) (e'\<lparr>e_stats := st\<rparr>)" "same (set_state x e) (set_state x e')"
    "same (on_sm g e) (on_sm g e')" "same (run_hook f e) (run_hook f e')"
    "same (sm_command v e) (sm_command v e')" "same (bump_errors e) (bump_errors e')"
    using c(2) by (simp_all add: c(1) same_def run_hook_def set_state_def on_sm_def sm_command_def bump_errors_def
        split: option.split)
qed

lemma same_writeResponse:
  assumes "same e e'"
  shows "rel_prod (=) same (writeResponse r e) (writeResponse r e')"
proof -
  obtain c where c: "e' = e\<lparr>e_conn := c\<rparr>" "same_stream (e_conn e) c" using assms by (rule same_obtain)
  from same_stream_Write [OF c(2), of "Response_Bytes r"] show ?thesis
    by (simp add: c(1) writeResponse_def case_prod_beta same_def)
qed

lemma same_readLine:
  assumes "same e e'"
  shows "rel_prod (=) same (readLine rt t e) (readLine rt t e')"
proof -
  obtain c where c: "e' = e\<lparr>e_conn := c\<rparr>" "same_stream (e_conn e) c" using assms by (rule same_obtain)
  from same_stream_ReadLine [OF c(2), of rt t "e_world e"] obtain d x b1 b1' w1 where
    "ReadLine rt t (e_conn e) (e_world e) = (((d, x), b1), w1)" "ReadLine rt t c (e_world e) = (((d, x), b1'), w1)"
    "same_stream b1 b1'" by (metis prod.exhaust)
  then show ?thesis
    by (auto simp: c(1) readLine_def Let_def same_def add_bytes_read_def split: option.split)
qed

lemma same_set_read_deadline:
  assumes "same e e'"
  shows "same (set_read_deadline d e) (set_read_deadline d e')"
proof -
  obtain c where c: "e' = e\<lparr>e_conn := c\<rparr>" "same_stream (e_conn e) c" using assms by (rule same_obtain)
  from same_stream_SetReadDeadline [OF c(2)] show ?thesis by (simp add: c(1) same_def set_read_deadline_def)
qed

lemma same_engine_now:
  assumes "same e e'"
  obtains t f f' where "engine_now rt e = (t, f)" "engine_now rt e' = (t, f')" "same f f'"
  using same_conn_free [OF conn_free_basic(1) assms, of rt] that
  by (cases "engine_now rt e"; cases "engine_now rt e'") auto

lemma same_ctx_done:
  assumes "same e e'"
  obtains t f f' where "ctx_done rt e = (t, f)" "ctx_done rt e' = (t, f')" "same f f'"
  using same_conn_free [OF conn_free_basic(2) assms, of rt] that
  by (cases "ctx_done rt e"; cases "ctx_done rt e'") auto

lemma same_read_data_line:
  assumes "same e e'"
  shows "rel_prod (=) same (read_data_line rt t e) (read_data_line rt t e')"
proof -
  from same_ctx_done [OF assms, of rt] obtain d f f' where ctx: "ctx_done rt e = (d, f)" "ctx_done rt e' = (d, f')"
    "same f f'" .
  from ctx(3) obtain c where c: "f' = f\<lparr>e_conn := c\<rparr>" "same_stream (e_conn f) c" by (rule same_obtain)
  from same_stream_ReadBytes [OF c(2), of rt "e_world f"] obtain l x b1 b1' where
    rd: "ReadBytes rt (e_conn f) (e_world f) = (((l, x), b1), e_world f)"
      "ReadBytes rt c (e_world f) = (((l, x), b1'), e_world f)" "same_stream b1 b1'"
    by (metis prod.exhaust)
  have "same (f\<lparr>e_conn := b1\<rparr>) (f\<lparr>e_conn := b1'\<rparr>)"
    using rd(3) by (simp add: same_def)
  moreover have "same (add_bytes_read n (f\<lparr>e_conn := b1\<rparr>)) (add_bytes_read n (f\<lparr>e_conn := b1'\<rparr>))" for n
    using rd(3) by (simp add: same_def add_bytes_read_def)
  then obtain t1 g g' where "engine_now rt (add_bytes_read (length l) (f\<lparr>e_conn := b1\<rparr>)) = (t1, g)"
    "engine_now rt (add_bytes_read (length l) (f\<lparr>e_conn := b1'\<rparr>)) = (t1, g')" "same g g'"
    by (rule same_engine_now)
  ultimately show ?thesis
    using ctx same_set_read_deadline [of g g' "Some (t1 + t)"]
    by (simp add: read_data_line_def c(1) rd split: option.split)
qed

lemma same_stream_loop:
  assumes "same e e'"
  shows "rel_prod (=) (rel_prod (=) same) (stream_loop rt wr t n b e) (stream_loop rt wr t n b e')"
  using assms
proof (induction rt wr t n b e arbitrary: e' rule: stream_loop.induct)
  case (1 rt wr t n b e)
  from same_read_data_line [OF "1.prems", of rt t] obtain r f f' where
    rd: "read_data_line rt t e = (r, f)" "read_data_line rt t e' = (r, f')" "same f f'"
    by (cases "read_data_line rt t e"; cases "read_data_line rt t e'") auto
  show ?case
  proof (cases r)
    case (Inr line)
    obtain k x b' w where wr: "eb_Write wr (UnstuffLine line) b (e_world f) = (((k, x), b'), w)"
      by (metis prod.exhaust)
    have "rel_prod (=) (rel_prod (=) same) (stream_loop rt wr t (i64 (n + int k)) b' (f\<lparr>e_world := w\<rparr>))
        (stream_loop rt wr t (i64 (n + int k)) b' (f'\<lparr>e_world := w\<rparr>))"
      if "\<not> IsTerminator line" "\<not> line_too_long (Limits (e_config f)) line"
        "\<not> message_too_large (Limits (e_config f)) n (UnstuffLine line)" "x = None"
      using "1.IH" [OF rd(1) [symmetric] Inr that(1-3) wr [symmetric] refl refl that(4) same_upd(1) [OF rd(3)]] .
    with rd Inr wr same_upd(1) [OF rd(3)] same_fields [OF rd(3)] show ?thesis
      by (simp add: stream_loop.simps [of rt wr t n b] split: option.split)
  qed (simp add: stream_loop.simps [of rt wr t n b] rd)
qed

lemma same_streamData:
  assumes "same e e'"
  shows "rel_prod (=) (rel_prod (=) same) (streamData rt wr t b e) (streamData rt wr t b e')"
proof -
  from same_engine_now [OF assms, of rt] obtain now f f' where now: "engine_now rt e = (now, f)"
    "engine_now rt e' = (now, f')" "same f f'" .
  from same_stream_loop [OF same_set_read_deadline [OF now(3)]] show ?thesis
    by (simp add: streamData_def now case_prod_beta rel_prod_sel same_set_read_deadline)
qed

lemma same_receive_data:
  assumes "same e e'"
  shows "rel_prod (=) same (receive_data rt b e) (receive_data rt b e')"
proof -
  note fin = same_conn_free [OF conn_free_finish_data] and ab = same_conn_free [OF conn_free_basic(6)]
  have "rel_prod (=) same (case streamData rt wr t b1 (e\<lparr>e_world := w\<rparr>) of
        ((n, Some err), b2, e2) \<Rightarrow> (case eb_Close wr b2 (e_world e2) of
            (_, w3) \<Rightarrow> abandon_data (data_error_response err) (e2\<lparr>e_world := w3\<rparr>))
      | ((n, None), b2, e2) \<Rightarrow> finish_data wr b2 e2)
      (case streamData rt wr t b1 (e'\<lparr>e_world := w\<rparr>) of
        ((n, Some err), b2, e2) \<Rightarrow> (case eb_Close wr b2 (e_world e2) of
            (_, w3) \<Rightarrow> abandon_data (data_error_response err) (e2\<lparr>e_world := w3\<rparr>))
      | ((n, None), b2, e2) \<Rightarrow> finish_data wr b2 e2)" for wr t b1 w
  proof -
    from same_streamData [OF same_upd(1) [OF assms], of rt wr t b1 w] obtain n x b2 f f' where
      "streamData rt wr t b1 (e\<lparr>e_world := w\<rparr>) = ((n, x), b2, f)"
      "streamData rt wr t b1 (e'\<lparr>e_world := w\<rparr>) = ((n, x), b2, f')" "same f f'"
      by (cases "streamData rt wr t b1 (e\<lparr>e_world := w\<rparr>)"; cases "streamData rt wr t b1 (e'\<lparr>e_world := w\<rparr>)") auto
    then show ?thesis
      using fin [of f f' wr b2] ab [OF same_upd(1) [of f f']]
      by (cases x) (simp_all add: case_prod_beta same_fields(6))
  qed
  with assms ab [OF same_upd(1) [OF assms]] show ?thesis
    by (simp add: receive_data_def same_fields case_prod_beta split: sum.split)
qed

section \<open>Commands and sessions\<close>

lemma same_handleDATA:
  assumes "same e e'"
  shows "same_result (handleDATA rt cmd e) (handleDATA rt cmd e')"
proof -
  let ?start = "\<lambda>e. writeResponse ResponseStartMailInput (run_hook OnDataStart (set_state StateData (sm_command CmdDATA e)))"
  have "rel_prod (=) same (?start e) (?start e')"
    by (intro same_writeResponse same_upd assms)
  then obtain r f f' where w: "?start e = (r, f)" "?start e' = (r, f')" "same f f'"
    by (cases "?start e"; cases "?start e'") auto
  with same_receive_data [OF w(3), of rt] same_upd(5) [OF w(3)] same_fields(5) [OF w(3)] show ?thesis
    by (simp add: handleDATA_def split: option.split)
qed

lemma same_handleCommand:
  assumes "same e e'"
  shows "same_result (handleCommand rt cmd e) (handleCommand rt cmd e')"
  using same_conn_free [OF conn_free_handlers(1) assms, of rt cmd] same_conn_free [OF conn_free_handlers(2) assms, of rt cmd]
    same_conn_free [OF conn_free_handlers(3) assms, of rt cmd] same_conn_free [OF conn_free_handlers(4) assms, of cmd]
    same_conn_free [OF conn_free_handlers(5) assms, of cmd] same_conn_free [OF conn_free_handlers(6) assms, of cmd]
    same_conn_free [OF conn_free_handlers(7) assms, of cmd] same_conn_free [OF conn_free_handlers(8) assms, of cmd]
    same_conn_free [OF conn_free_handleMAIL assms, of rt cmd] same_handleRCPT [OF assms, of rt cmd]
    same_handleDATA [OF assms, of rt cmd] assms
  by (simp add: handleCommand_def split: CommandVerb.split)

lemma same_send_reply:
  assumes "same e e'"
  shows "rel_prod (=) same (send_reply r e) (send_reply r e')"
proof -
  from same_writeResponse [OF assms, of r] obtain x f f' where w: "writeResponse r e = (x, f)"
    "writeResponse r e' = (x, f')" "same f f'" by (cases "writeResponse r e"; cases "writeResponse r e'") auto
  with same_upd(2) [OF w(3)] same_fields(3) [OF w(3)] show ?thesis
    by (simp add: send_reply_def split: option.split)
qed

lemma same_snd_write: "same e e' \<Longrightarrow> same (snd (writeResponse r e)) (snd (writeResponse r e'))"
  using same_writeResponse [of e e' r] by (simp add: rel_prod_sel)

lemma same_dispatch:
  assumes "same e e'"
  shows "same_result (dispatch rt cmd e) (dispatch rt cmd e')"
proof -
  from same_conn_free [OF conn_free_basic(3) assms, of cmd] obtain x f f' where
    hook: "command_hook cmd e = (x, f)" "command_hook cmd e' = (x, f')" "same f f'"
    by (cases "command_hook cmd e"; cases "command_hook cmd e'") auto
  have "same_result (case handleCommand rt cmd f of Inl p \<Rightarrow> Inl p | Inr (resp, e2) \<Rightarrow> Inr (send_reply resp e2))
      (case handleCommand rt cmd f' of Inl p \<Rightarrow> Inl p | Inr (resp, e2) \<Rightarrow> Inr (send_reply resp e2))"
    using same_handleCommand [OF hook(3), of rt cmd]
    by (cases rule: rel_sum.cases) (auto simp: same_send_reply elim: rel_prod.cases)
  with hook same_snd_write [OF hook(3)] same_snd_write [OF same_upd(8) [OF hook(3)]] same_fields(2) [OF hook(3)]
  show ?thesis by (simp add: dispatch_def split: option.split)
qed

lemma same_reject_line:
  assumes "same e e'"
  shows "rel_prod (=) same (reject_line err e) (reject_line err e')"
proof -
  note b = same_upd(8) [OF assms]
  have "checkErrorLimit (bump_errors e') = checkErrorLimit (bump_errors e)"
    using same_fields [OF b] by (simp add: checkErrorLimit_def)
  with same_snd_write [OF b] same_upd(5) [OF same_snd_write [OF b]] show ?thesis
    by (simp add: reject_line_def Let_def split: option.split)
qed

lemma same_processOneCommand:
  assumes "same e e'"
  shows "same_result (processOneCommand rt e) (processOneCommand rt e')"
proof -
  let ?t = "command_timeout (Limits (e_config e))"
  from same_readLine [OF assms, of rt ?t] obtain r f f' where rd: "readLine rt ?t e = (r, f)" "readLine rt ?t e' = (r, f')"
    "same f f'" by (cases "readLine rt ?t e"; cases "readLine rt ?t e'") auto
  note cmd = same_upd(3) [OF rd(3), of "(e_stats f)\<lparr>CommandCount := i64 (CommandCount (e_stats f) + 1)\<rparr>"]
  from rd same_reject_line [OF cmd] same_dispatch [OF cmd] same_fields [OF rd(3)] same_fields [OF assms] show ?thesis
    by (simp add: processOneCommand_def Let_def split: sum.split)
qed

fun same_iteration :: "('b, 'w) iteration \<Rightarrow> ('b, 'w) iteration \<Rightarrow> bool" where
  "same_iteration (Continue e) (Continue e') \<longleftrightarrow> same e e'"
| "same_iteration (Return r e) (Return r' e') \<longleftrightarrow> r = r' \<and> same e e'"
| "same_iteration (Panicked p) (Panicked p') \<longleftrightarrow> p = p'"
| "same_iteration _ _ \<longleftrightarrow> False"

lemma same_handleDisconnect:
  assumes "same e e'"
  shows "rel_prod (=) same (handleDisconnect rt reason err e) (handleDisconnect rt reason err e')"
proof -
  have "same (e\<lparr>e_closed := True\<rparr>) (e'\<lparr>e_closed := True\<rparr>)"
    using assms by (rule same_obtain) (simp add: same_def)
  then obtain t f f' where now: "engine_now rt (e\<lparr>e_closed := True\<rparr>) = (t, f)"
    "engine_now rt (e'\<lparr>e_closed := True\<rparr>) = (t, f')" "same f f'" by (rule same_engine_now)
  from now same_upd(6) [OF same_upd(3) [OF now(3)]] same_fields [OF now(3)] same_fields [OF assms] assms show ?thesis
    by (simp add: handleDisconnect_def)
qed

lemma same_leave: "same e e' \<Longrightarrow> same_iteration (leave rt reason err e) (leave rt reason err e')"
  using same_handleDisconnect [of e e' rt reason err]
  by (cases "handleDisconnect rt reason err e"; cases "handleDisconnect rt reason err e'") (simp add: leave_def)

lemma same_run_step:
  assumes "same e e'" and "ss_State (e_state e) \<noteq> StateStartTLS"
  shows "same_iteration (run_step rt e) (run_step rt e')"
proof -
  from same_ctx_done [OF assms(1), of rt] obtain d f f' where ctx: "ctx_done rt e = (d, f)" "ctx_done rt e' = (d, f')"
    "same f f'" .
  have "ss_State (e_state f) \<noteq> StateStartTLS" using ctx(1) assms(2) ss_State_simps(4) [of rt e] by simp
  moreover have "same_iteration (case processOneCommand rt f of Inl p \<Rightarrow> Panicked p
      | Inr (Some err, e2) \<Rightarrow> after_error rt err e2 | Inr (None, e2) \<Rightarrow> Continue e2)
    (case processOneCommand rt f' of Inl p \<Rightarrow> Panicked p
      | Inr (Some err, e2) \<Rightarrow> after_error rt err e2 | Inr (None, e2) \<Rightarrow> Continue e2)"
    using same_processOneCommand [OF ctx(3), of rt]
    by (cases rule: rel_sum.cases)
      (auto simp: after_error_def same_leave same_fields(2) elim!: rel_prod.cases split: option.split)
  ultimately show ?thesis
    using ctx same_leave [OF ctx(3)] same_fields [OF ctx(3)] by (simp add: run_step_def split: option.split)
qed

text \<open>A session that offers no TLS never starts a handshake.\<close>

definition plaintext :: "('b, 'w) Engine \<Rightarrow> bool" where
  "plaintext e \<longleftrightarrow> (cf_TLSPolicy (e_config e) = TLSDisabled \<or> cf_TLSProvider (e_config e) = None)
     \<and> ss_State (e_state e) \<noteq> StateStartTLS"

lemma plaintext_step:
  assumes "plaintext e" and "run_step rt e = Continue e'"
  shows "plaintext e'"
proof -
  obtain d f where ctx: "ctx_done rt e = (d, f)" by fastforce
  have f: "plaintext f" "e_config f = e_config e"
    using assms(1) ctx by (auto simp: plaintext_def ctx_done_def split: prod.splits)
  with assms ctx obtain r where p: "processOneCommand rt f = Inr (r, e')"
    by (auto simp: run_step_def leave_def plaintext_def split: option.splits sum.splits prod.splits if_splits
        dest: after_error_Continue)
  from processOneCommand_progress(1) [OF p] processOneCommand_starttls [OF p] f show ?thesis
    by (auto simp: plaintext_def keeps_def)
qed

abbreviation same_end where
  "same_end \<equiv> rel_option same_result"

lemma same_run_loop:
  assumes "same e e'" and "plaintext e"
  shows "same_end (run_loop rt e) (run_loop rt e')"
  using assms
proof (induction e arbitrary: e' rule: wf_induct_rule [OF wf_measures [of "[tls_rank, \<lambda>e. conn_size (e_conn e)]"]])
  case (1 e)
  have step: "same_iteration (run_step rt e) (run_step rt e')"
    using same_run_step [OF "1.prems"(1)] "1.prems"(2) by (simp add: plaintext_def)
  show ?case
  proof (cases "run_step rt e")
    case (Continue f)
    with step obtain f' where f': "run_step rt e' = Continue f'" "same f f'" by (cases "run_step rt e'") auto
    from Continue run_step_Continue have "(f, e) \<in> measures [tls_rank, \<lambda>e. conn_size (e_conn e)]" by auto
    from "1.IH" [OF this f'(2) plaintext_step [OF "1.prems"(2) Continue]] Continue f'(1) show ?thesis
      by (simp add: run_loop.simps [of rt e] run_loop.simps [of rt e'])
  next
    case (Return r f)
    with step show ?thesis
      by (cases "run_step rt e'") (simp_all add: run_loop.simps [of rt e] run_loop.simps [of rt e'])
  next
    case (Panicked p)
    with step show ?thesis
      by (cases "run_step rt e'") (simp_all add: run_loop.simps [of rt e] run_loop.simps [of rt e'])
  qed
qed

lemma same_Run:
  assumes "same e e'" and "plaintext e"
  shows "same_end (Run rt e) (Run rt e')"
proof (cases "Connect (e_sm e)")
  case (Pair x m)
  have m: "same (e\<lparr>e_sm := m\<rparr>) (e'\<lparr>e_sm := m\<rparr>)" using same_upd(5) [OF assms(1), of "\<lambda>_. m"] by (simp add: on_sm_def)
  let ?e = "run_hook OnConnect (e\<lparr>e_sm := m\<rparr>)" and ?e' = "run_hook OnConnect (e'\<lparr>e_sm := m\<rparr>)"
  have h: "same ?e ?e'" by (rule same_upd(6) [OF m])
  have greet: "buildGreeting ?e' = buildGreeting ?e" using same_fields(1) [OF h] by (simp add: buildGreeting_def)
  from same_writeResponse [OF h, of "buildGreeting ?e"] obtain y f f' where
    w: "writeResponse (buildGreeting ?e) ?e = (y, f)" "writeResponse (buildGreeting ?e) ?e' = (y, f')" "same f f'"
    by (cases "writeResponse (buildGreeting ?e) ?e"; cases "writeResponse (buildGreeting ?e) ?e'") auto
  have "plaintext (set_state StateGreeted (f\<lparr>e_sm := m2\<rparr>))" for m2
  proof -
    have "keeps e (e\<lparr>e_sm := m\<rparr>)" by (simp add: keeps_def)
    then have "keeps e (snd (writeResponse (buildGreeting ?e) ?e))" by simp
    then have "keeps e f" by (simp add: w(1))
    with assms(2) show ?thesis by (simp add: plaintext_def keeps_def set_state_def)
  qed
  moreover have sm: "same (f\<lparr>e_sm := m2\<rparr>) (f'\<lparr>e_sm := m2\<rparr>)" for m2
    using same_upd(5) [OF w(3), of "\<lambda>_. m2"] by (simp add: on_sm_def)
  ultimately have "same_end (run_loop rt (set_state StateGreeted (f\<lparr>e_sm := m2\<rparr>)))
      (run_loop rt (set_state StateGreeted (f'\<lparr>e_sm := m2\<rparr>)))" for m2
    by (intro same_run_loop same_upd(4) sm) simp
  with greet w sm show ?thesis
    using Pair m same_handleDisconnect [OF w(3)] same_fields [OF w(3)] same_fields [OF assms(1)]
    by (simp add: Run_def Let_def split: option.split prod.split)
qed

text \<open>What can be seen of a session from outside: its result, what it sent, and the engine with all
  its services, but for the connection.\<close>

definition observe :: "('b, 'w) Engine \<Rightarrow> bytes \<times> ('b, 'w) Engine" where
  "observe e = (sent e, e\<lparr>e_conn := NewBufferedConn (net_of [])\<rparr>)"

definition outcome ::
    "(go_panic + goerror option \<times> ('b, 'w) Engine) option
      \<Rightarrow> (go_panic + goerror option \<times> bytes \<times> ('b, 'w) Engine) option" where
  "outcome = map_option (map_sum id (map_prod id observe))"

lemma same_observe: "same e e' \<Longrightarrow> observe e = observe e'"
proof -
  assume "same e e'"
  then obtain c where c: "e' = e\<lparr>e_conn := c\<rparr>" "same_stream (e_conn e) c" by (rule same_obtain)
  have "sent e = sent e'"
  proof -
    from c(2) obtain n n' where "bc_conn (e_conn e) = Net n" "bc_conn c = Net n'"
      "wire (bc_conn (e_conn e)) = wire (bc_conn c)" by (auto simp: same_stream_def clean_def)
    then show ?thesis by (simp add: sent_def c(1)) (metis NetConn.select_convs(1) NetConn.surjective NetConn.update_convs(1) Transport.select_convs(3) Transport.surjective Transport.update_convs(1))
  qed
  then show ?thesis by (simp add: observe_def c(1))
qed

lemma same_outcome: "same_end r r' \<Longrightarrow> outcome r = outcome r'"
  by (cases rule: option.rel_cases [of "same_result" r r'])
    (auto simp: outcome_def same_observe elim!: rel_sum.cases rel_prod.cases)

lemma apply_option_conn: "apply_option opt (e\<lparr>e_conn := b\<rparr>) = (apply_option opt e)\<lparr>e_conn := b\<rparr>"
  and apply_option_state: "e_state (apply_option opt e) = e_state e"
  by (cases opt; simp)+

lemma fold_option:
  "fold apply_option opts (e\<lparr>e_conn := b\<rparr>) = (fold apply_option opts e)\<lparr>e_conn := b\<rparr>"
  "e_state (fold apply_option opts e) = e_state e"
  by (induction opts arbitrary: e) (simp_all add: apply_option_conn apply_option_state)

lemma new_engine_conn:
  "NewEngineWithConn rt c cfg opts w = (NewEngineWithConn rt c' cfg opts w)\<lparr>e_conn := NewBufferedConn c\<rparr>"
  by (simp add: NewEngineWithConn_def Let_def fold_option(1) [symmetric] split: prod.split)

lemma new_engine_state: "ss_State (e_state (NewEngineWithConn rt c cfg opts w)) = StateDisconnected"
  by (simp add: NewEngineWithConn_def Let_def fold_option(2) split: prod.split)

definition in_pieces :: "bytes list \<Rightarrow> Transport \<Rightarrow> Transport" where
  "in_pieces ds t = t\<lparr>tr_reads := map (\<lambda>d. (d, None)) ds\<rparr>"

text \<open>
  (C10) A session depends on the bytes its client sends, not on the pieces the network delivers
  them in. However the same input is cut, \<open>Run\<close> gives the same result, the same bytes are sent in
  reply, and the same messages, statistics and states of policies, hooks and storage are left
  behind. The session offers no TLS: an upgrade discards what is buffered at that moment.
\<close>

theorem segmentation_irrelevant:
  assumes "concat ds = concat ds'" and "list_all (\<lambda>d. d \<noteq> []) ds" and "list_all (\<lambda>d. d \<noteq> []) ds'"
    and "cf_TLSPolicy cfg = TLSDisabled \<or> cf_TLSProvider cfg = None"
  shows "outcome (Run rt (NewEngineFromNetConn rt (in_pieces ds t) cfg opts w))
    = outcome (Run rt (NewEngineFromNetConn rt (in_pieces ds' t) cfg opts w))"
proof -
  let ?e = "\<lambda>ds. NewEngineFromNetConn rt (in_pieces ds t) cfg opts w"
  have conn: "e_conn (?e ds) = NewBufferedConn (Net (WrapNetConn (in_pieces ds t)))" for ds
    by (simp add: NewEngineFromNetConn_def NewEngine_fields(3) [OF refl])
  have "same_stream (e_conn (?e ds)) (e_conn (?e ds'))"
    using assms(1-3) unfolding conn
    by (simp add: same_stream_def clean_def stream_def NewBufferedConn_def WrapNetConn_def in_pieces_def list_all_iff
        comp_def)
  moreover have "?e ds' = (?e ds)\<lparr>e_conn := e_conn (?e ds')\<rparr>"
    by (simp add: NewEngineFromNetConn_def new_engine_conn [of rt "Net (WrapNetConn (in_pieces ds' t))" _ _ _ "Net (WrapNetConn (in_pieces ds t))"])
  ultimately have "same (?e ds) (?e ds')" by (simp add: same_def)
  moreover have "plaintext (?e ds)"
    using assms(4) by (simp add: plaintext_def NewEngineFromNetConn_def NewEngine_fields [OF refl] new_engine_state)
  ultimately show ?thesis by (intro same_outcome same_Run)
qed

definition quiet_line :: Transport where
  "quiet_line = \<lparr>tr_reads = [], tr_writes = [], tr_sent = [], tr_rdeadline = None, tr_wdeadline = None, tr_closed = False\<rparr>"

theorem segmentation_irrelevant_witness:
  "outcome (Run sample_rt (NewEngineFromNetConn sample_rt (in_pieces [''HE'', ''LO a'' @ CRLF @ ''QU'', ''IT'' @ CRLF] quiet_line)
      (sample_config TLSDisabled) [] []))
    = outcome (Run sample_rt (NewEngineFromNetConn sample_rt (in_pieces [crlf_lines [''HELO a'', ''QUIT'']] quiet_line)
      (sample_config TLSDisabled) [] []))"
  by (rule segmentation_irrelevant) (simp_all add: crlf_lines_def CRLF_def sample_config_def)

end
