(* ===== verification/Harness_Pipe.thy ===== *)
theory Harness_Pipe
  imports Harness
begin

text \<open>
  The pipe of the harness between two goroutines. One of them writes, sets deadlines and closes;
  the other reads bytes or lines, and blocks when there are none. Their calls interleave in any
  order: a call is one step, a call that blocks is a step up to its wait, and a waiter can be
  woken at any time, by a broadcast or by a timer. The system keeps the history of what the pipe
  accepted and what it delivered.
\<close>

section \<open>The reader and the system\<close>

text \<open>The reader is between calls, waits in \<open>Read\<close> with the size of its buffer and its copy of the
  deadline, or waits in \<open>ReadLine\<close> with the part of the line it has.\<close>

datatype reader = Idle | InRead nat deadline | InLine bytes

record 'w pipe_system =
  ps_pipe :: PipeBuffer
  ps_reader :: reader
  ps_world :: 'w
  ps_accepted :: bytes
  ps_delivered :: bytes
  ps_eof :: bool

definition new_pipe :: "'w \<Rightarrow> 'w pipe_system" where
  "new_pipe w = \<lparr>ps_pipe = NewPipeBuffer, ps_reader = Idle, ps_world = w, ps_accepted = [], ps_delivered = [], ps_eof = False\<rparr>"

text \<open>A call that returns or waits.\<close>

definition delivered :: "bytes \<Rightarrow> goerror option \<Rightarrow> 'w pipe_system \<Rightarrow> 'w pipe_system" where
  "delivered bs err s = s\<lparr>ps_reader := Idle, ps_delivered := ps_delivered s @ bs, ps_eof := ps_eof s \<or> err = Some EOF\<rparr>"

fun after_read :: "nat \<Rightarrow> (read_result \<times> PipeBuffer) \<times> 'w \<Rightarrow> 'w pipe_system \<Rightarrow> 'w pipe_system" where
  "after_read n ((ReadDone bs err, p), w) s = delivered bs err (s\<lparr>ps_pipe := p, ps_world := w\<rparr>)"
| "after_read n ((ReadWaits d, p), w) s = s\<lparr>ps_pipe := p, ps_world := w, ps_reader := InRead n d\<rparr>"

fun after_line :: "(line_result \<times> PipeBuffer) \<times> 'w \<Rightarrow> 'w pipe_system \<Rightarrow> 'w pipe_system" where
  "after_line ((LineDone line err, p), w) s = delivered line err (s\<lparr>ps_pipe := p, ps_world := w\<rparr>)"
| "after_line ((LineWaits line, p), w) s = s\<lparr>ps_pipe := p, ps_world := w, ps_reader := InLine line\<rparr>"

text \<open>A waiting \<open>ReadLine\<close> that is woken goes on inside its loop.\<close>

definition line_wake :: "'w Runtime \<Rightarrow> bytes \<Rightarrow> PipeBuffer \<Rightarrow> 'w \<Rightarrow> (line_result \<times> PipeBuffer) \<times> 'w" where
  "line_wake rt line p w =
     (case line_inner rt (pb_closed p) line (pb_buf p) w of ((res, buf), w') \<Rightarrow> ((res, p\<lparr>pb_buf := buf\<rparr>), w'))"

inductive pipe_step :: "'w Runtime \<Rightarrow> 'w pipe_system \<Rightarrow> 'w pipe_system \<Rightarrow> bool" for rt where
  written: "pb_Write data (ps_pipe s) = ((n, err), p) \<Longrightarrow>
    pipe_step rt s (s\<lparr>ps_pipe := p, ps_accepted := ps_accepted s @ take n data\<rparr>)"
| closed: "pipe_step rt s (s\<lparr>ps_pipe := pb_Close (ps_pipe s)\<rparr>)"
| set_deadline: "pipe_step rt s (s\<lparr>ps_pipe := pb_SetReadDeadline d (ps_pipe s)\<rparr>)"
| read: "ps_reader s = Idle \<Longrightarrow> pipe_step rt s (after_read n (pb_Read rt n (ps_pipe s) (ps_world s)) s)"
| wake_read: "ps_reader s = InRead n d \<Longrightarrow>
    pipe_step rt s (after_read n (read_wake rt d n (ps_pipe s) (ps_world s)) s)"
| read_line: "ps_reader s = Idle \<Longrightarrow> pipe_step rt s (after_line (pb_ReadLine rt (ps_pipe s) (ps_world s)) s)"
| wake_line: "ps_reader s = InLine line \<Longrightarrow>
    pipe_step rt s (after_line (line_wake rt line (ps_pipe s) (ps_world s)) s)"

section \<open>First in, first out\<close>

fun in_hand :: "reader \<Rightarrow> bytes" where
  "in_hand (InLine line) = line"
| "in_hand _ = []"

definition fifo :: "'w pipe_system \<Rightarrow> bool" where
  "fifo s \<longleftrightarrow> ps_accepted s = ps_delivered s @ in_hand (ps_reader s) @ pb_buf (ps_pipe s)
     \<and> (ps_eof s \<longrightarrow> pb_closed (ps_pipe s) \<and> pb_buf (ps_pipe s) = [] \<and> in_hand (ps_reader s) = [])"

text \<open>What one polling \<open>Read\<close> takes from the buffer is what it returns; and it reports the end only
  of a closed and empty pipe.\<close>

definition took :: "PipeBuffer \<Rightarrow> read_result \<Rightarrow> PipeBuffer \<Rightarrow> bool" where
  "took p res p' \<longleftrightarrow> pb_closed p' = pb_closed p
     \<and> (case res of
          ReadDone bs err \<Rightarrow> pb_buf p = bs @ pb_buf p' \<and> (err = Some EOF \<longrightarrow> pb_closed p \<and> pb_buf p = [])
        | ReadWaits _ \<Rightarrow> pb_buf p' = pb_buf p)"

lemma read_poll_took: "read_poll rt d n p w = ((res, p'), w') \<Longrightarrow> took p res p'"
  by (auto simp: read_poll_def took_def Let_def split: if_splits option.splits prod.splits)

lemma read_wake_took: "read_wake rt d n p w = ((res, p'), w') \<Longrightarrow> took p res p'"
  by (cases d) (auto simp: read_wake_def took_def Let_def split: if_splits prod.splits
      dest!: read_poll_took [unfolded took_def])

definition took_line :: "bytes \<Rightarrow> PipeBuffer \<Rightarrow> line_result \<Rightarrow> PipeBuffer \<Rightarrow> bool" where
  "took_line line p res p' \<longleftrightarrow> pb_closed p' = pb_closed p
     \<and> (case res of
          LineDone l err \<Rightarrow> line @ pb_buf p = l @ pb_buf p' \<and> (err = Some EOF \<longrightarrow> pb_closed p \<and> pb_buf p' = [])
        | LineWaits l \<Rightarrow> line @ pb_buf p = l @ pb_buf p' \<and> \<not> pb_closed p)"

text \<open>The error of a context is not the end of a stream.\<close>

definition ctx_errors :: "'w Runtime \<Rightarrow> bool" where
  "ctx_errors rt \<longleftrightarrow> (\<forall>w. fst (rt_CtxDone rt w) \<in> {None, Some CtxCanceled, Some CtxDeadlineExceeded})"

lemma ctx_errors_EOF: "ctx_errors rt \<Longrightarrow> rt_CtxDone rt w \<noteq> (Some EOF, w')"
  unfolding ctx_errors_def by (metis fst_conv goerror.distinct insertE option.inject option.distinct(1) singletonD)

lemma line_inner_took:
  assumes "ctx_errors rt" and "line_inner rt closed line buf w = ((res, buf'), w')"
  shows "case res of
      LineDone l err \<Rightarrow> line @ buf = l @ buf' \<and> (err = Some EOF \<longrightarrow> closed \<and> buf' = [])
    | LineWaits l \<Rightarrow> line @ buf = l @ buf' \<and> \<not> closed"
  using assms
  by (induction rt closed line buf w rule: line_inner.induct)
    (auto simp: ctx_errors_EOF split: if_splits prod.splits option.splits line_result.split_asm line_result.split)

lemma line_wake_took:
  assumes "ctx_errors rt" and "line_wake rt line p w = ((res, p'), w')"
  shows "took_line line p res p'"
  using assms line_inner_took [OF assms(1)]
  by (auto simp: line_wake_def took_line_def split: prod.splits)

lemma pb_ReadLine_took:
  assumes "ctx_errors rt" and "pb_ReadLine rt p w = ((res, p'), w')"
  shows "took_line [] p res p'"
proof (cases "fst (rt_CtxDone rt w)")
  case None
  with assms(2) have "line_wake rt [] p (snd (rt_CtxDone rt w)) = ((res, p'), w')"
    by (cases "rt_CtxDone rt w") (simp add: pb_ReadLine_def line_wake_def)
  with line_wake_took [OF assms(1)] show ?thesis by blast
next
  case (Some err)
  then obtain w1 where c: "rt_CtxDone rt w = (Some err, w1)" by (cases "rt_CtxDone rt w") simp
  with ctx_errors_EOF [OF assms(1)] have "err \<noteq> EOF" by blast
  with c assms(2) show ?thesis by (auto simp: pb_ReadLine_def took_line_def)
qed

lemma fifo_read:
  assumes "fifo s" and "in_hand (ps_reader s) = []" and "took (ps_pipe s) res p"
  shows "fifo (after_read n ((res, p), w) s)"
  using assms by (cases res) (auto simp: fifo_def took_def delivered_def)

lemma fifo_line:
  assumes "fifo s" and "in_hand (ps_reader s) = line" and "took_line line (ps_pipe s) res p"
  shows "fifo (after_line ((res, p), w) s)"
  using assms by (cases res) (auto simp: fifo_def took_line_def delivered_def)

lemma fifo_step:
  assumes "pipe_step rt s s'" and "fifo s" and "ctx_errors rt"
  shows "fifo s'"
  using assms(1,2)
proof (induction rule: pipe_step.induct)
  case (written data s n err p)
  then show ?case by (auto simp: fifo_def pb_Write_def split: if_splits)
next
  case (closed s)
  then show ?case by (auto simp: fifo_def pb_Close_def)
next
  case (set_deadline s d)
  then show ?case by (auto simp: fifo_def pb_SetReadDeadline_def)
next
  case (read s n)
  obtain res p w where r: "pb_Read rt n (ps_pipe s) (ps_world s) = ((res, p), w)" by (metis prod.exhaust)
  have "took (ps_pipe s) res p" by (rule read_poll_took [OF r [unfolded pb_Read_def]])
  with read show ?case by (simp add: r fifo_read)
next
  case (wake_read s n d)
  obtain res p w where r: "read_wake rt d n (ps_pipe s) (ps_world s) = ((res, p), w)" by (metis prod.exhaust)
  with wake_read read_wake_took [OF r] show ?case by (simp add: fifo_read)
next
  case (read_line s)
  obtain res p w where r: "pb_ReadLine rt (ps_pipe s) (ps_world s) = ((res, p), w)" by (metis prod.exhaust)
  with read_line pb_ReadLine_took [OF assms(3) r] show ?case by (simp add: fifo_line)
next
  case (wake_line s line)
  obtain res p w where r: "line_wake rt line (ps_pipe s) (ps_world s) = ((res, p), w)" by (metis prod.exhaust)
  with wake_line line_wake_took [OF assms(3) r] show ?case by (simp add: fifo_line)
qed

text \<open>
  (C21) The pipe is a faithful transport. However the calls of the two sides interleave, with
  blocked readers, timeouts and wake-ups, what the reader has received, followed by the part of a
  line it is reading and by what is still in the buffer, is exactly what the writer's calls
  accepted, in order: no byte is lost, doubled or moved, not even when a read times out. And a
  reader is told the end only when the pipe is closed and it has received everything.
\<close>

theorem pipe_is_fifo:
  assumes "(pipe_step rt)\<^sup>*\<^sup>* (new_pipe w) s" and "ctx_errors rt"
  shows "ps_accepted s = ps_delivered s @ in_hand (ps_reader s) @ pb_buf (ps_pipe s)
    \<and> (ps_eof s \<longrightarrow> pb_closed (ps_pipe s) \<and> ps_delivered s = ps_accepted s)"
proof -
  have "fifo s"
    using assms(1)
  proof (induction rule: rtranclp_induct)
    case base
    show ?case by (simp add: fifo_def new_pipe_def NewPipeBuffer_def)
  qed (use fifo_step assms(2) in blast)
  then show ?thesis by (auto simp: fifo_def)
qed

text \<open>A waiting reader is served: woken in time with something in the buffer, it takes it; woken when
  the pipe is closed and empty, it ends.\<close>

lemma waiter_served:
  assumes "pb_buf p \<noteq> [] \<or> pb_closed p" and "case d of None \<Rightarrow> True | Some t \<Rightarrow> fst (rt_Now rt w) \<le> t"
  shows "fst (fst (read_wake rt d n p w)) =
    (if pb_buf p = [] then ReadDone [] (Some EOF) else ReadDone (take n (pb_buf p)) None)"
  using assms by (auto simp: read_wake_def read_poll_def Let_def case_prod_beta split: option.splits)

section \<open>Sample\<close>

text \<open>A reader asks for a line before there is any, and is woken when half of it has arrived.\<close>

definition listening_pipe :: "unit pipe_system" where
  "listening_pipe = after_line (pb_ReadLine rt_const (ps_pipe (new_pipe ())) (ps_world (new_pipe ()))) (new_pipe ())"

definition fed_pipe :: "unit pipe_system" where
  "fed_pipe = (let w = pb_Write ''220 ok'' (ps_pipe listening_pipe) in
     listening_pipe\<lparr>ps_pipe := snd w, ps_accepted := ps_accepted listening_pipe @ take (fst (fst w)) ''220 ok''\<rparr>)"

definition woken_pipe :: "unit pipe_system" where
  "woken_pipe = after_line (line_wake rt_const [] (ps_pipe fed_pipe) (ps_world fed_pipe)) fed_pipe"

theorem pipe_is_fifo_witness:
  "ps_reader woken_pipe = InLine ''220 ok'' \<and> pb_buf (ps_pipe woken_pipe) = []
    \<and> ps_accepted woken_pipe = ps_delivered woken_pipe @ in_hand (ps_reader woken_pipe) @ pb_buf (ps_pipe woken_pipe)"
proof -
  have "pipe_step rt_const (new_pipe ()) listening_pipe"
    unfolding listening_pipe_def by (intro pipe_step.read_line) (simp add: new_pipe_def)
  moreover have "pipe_step rt_const listening_pipe fed_pipe"
    unfolding fed_pipe_def Let_def
    by (rule pipe_step.written [where err = "snd (fst (pb_Write ''220 ok'' (ps_pipe listening_pipe)))"]) simp
  moreover have "ps_reader fed_pipe = InLine []" by code_simp
  then have "pipe_step rt_const fed_pipe woken_pipe" unfolding woken_pipe_def by (rule pipe_step.wake_line)
  ultimately have run: "(pipe_step rt_const)\<^sup>*\<^sup>* (new_pipe ()) woken_pipe" by auto
  have ctx: "ctx_errors rt_const" by (simp add: ctx_errors_def rt_const_def)
  have "ps_reader woken_pipe = InLine ''220 ok''" "pb_buf (ps_pipe woken_pipe) = []" by code_simp+
  with pipe_is_fifo [OF run ctx] show ?thesis by simp
qed

end
