(* ===== verification/Logger.thy ===== *)
theory Logger
  imports Protocol Go_Strings
begin

text \<open>
  The loggers of \<open>logger.go\<close>. A \<open>StdLogger\<close> passes its lines to a \<open>log.Logger\<close>, which is outside
  the repository: here it is the list of the messages it was given, and a logging method maps
  that list to the new one. The value of an attribute is one of the dynamic types the formatter
  distinguishes; for an error, the text its \<open>Error\<close> method returns. A write to a transcript is
  appended to what was written before.
\<close>

section \<open>Levels and attributes\<close>

type_synonym LogLevel = int

abbreviation LogLevelDebug :: LogLevel where
  "LogLevelDebug \<equiv> 0"

abbreviation LogLevelInfo :: LogLevel where
  "LogLevelInfo \<equiv> 1"

abbreviation LogLevelWarn :: LogLevel where
  "LogLevelWarn \<equiv> 2"

abbreviation LogLevelError :: LogLevel where
  "LogLevelError \<equiv> 3"

definition LogLevel_String :: "LogLevel \<Rightarrow> string" where
  "LogLevel_String l =
     (if l = LogLevelDebug then ''DEBUG'' else if l = LogLevelInfo then ''INFO''
      else if l = LogLevelWarn then ''WARN'' else if l = LogLevelError then ''ERROR''
      else ''UNKNOWN'')"

datatype LogAttrValue =
    NilValue | StringValue string | ErrorValue string | IntValue int | Int64Value int
  | BoolValue bool | OtherValue

record LogAttr =
  at_Key :: string
  at_Value :: LogAttrValue

definition Attr :: "string \<Rightarrow> LogAttrValue \<Rightarrow> LogAttr" where
  "Attr key value = \<lparr>at_Key = key, at_Value = value\<rparr>"

abbreviation AttrSessionID :: string where
  "AttrSessionID \<equiv> ''session_id''"

abbreviation AttrClientIP :: string where
  "AttrClientIP \<equiv> ''client_ip''"

abbreviation AttrCommand :: string where
  "AttrCommand \<equiv> ''command''"

abbreviation AttrState :: string where
  "AttrState \<equiv> ''state''"

abbreviation AttrError :: string where
  "AttrError \<equiv> ''error''"

abbreviation AttrReplyCode :: string where
  "AttrReplyCode \<equiv> ''reply_code''"

abbreviation AttrMailFrom :: string where
  "AttrMailFrom \<equiv> ''mail_from''"

abbreviation AttrRcptTo :: string where
  "AttrRcptTo \<equiv> ''rcpt_to''"

abbreviation AttrMessageSize :: string where
  "AttrMessageSize \<equiv> ''message_size''"

abbreviation AttrRecipients :: string where
  "AttrRecipients \<equiv> ''recipients''"

abbreviation AttrTLSVersion :: string where
  "AttrTLSVersion \<equiv> ''tls_version''"

abbreviation AttrCipherSuite :: string where
  "AttrCipherSuite \<equiv> ''cipher_suite''"

abbreviation AttrDuration :: string where
  "AttrDuration \<equiv> ''duration_ms''"

abbreviation AttrEnvelopeID :: string where
  "AttrEnvelopeID \<equiv> ''envelope_id''"

section \<open>Formatting\<close>

text \<open>The loop of \<open>intToStr\<close> fills a buffer of 20 bytes from its end; \<open>None\<close> is the panic of an
  index out of range.\<close>

function digits_loop :: "int \<Rightarrow> bytes \<Rightarrow> nat \<Rightarrow> (bytes \<times> nat) option" where
  "digits_loop n buf i =
     (if n > 0 then
        if i = 0 \<or> i > length buf then None
        else digits_loop (n div 10) (buf[i - 1 := char_of (nat (48 + n mod 10))]) (i - 1)
      else Some (buf, i))"
  by pat_completeness auto
termination
  by (relation "measure (\<lambda>(n, buf, i). nat n)") auto

declare digits_loop.simps [simp del]

definition intToStr :: "int \<Rightarrow> bytes option" where
  "intToStr n =
     (if n = 0 then Some ''0''
      else
       (let neg = n < 0; n1 = (if neg then i64 (- n) else n) in
        case digits_loop n1 (replicate 20 CHR 0x00) 20 of
          None \<Rightarrow> None
        | Some (buf, i) \<Rightarrow>
            if neg then
              if i = 0 then None else Some (drop (i - 1) (buf[i - 1 := CHR ''-'']))
            else Some (drop i buf)))"

definition formatValue :: "LogAttrValue \<Rightarrow> bytes option" where
  "formatValue v =
     (case v of
        NilValue \<Rightarrow> Some ''<nil>''
      | StringValue val \<Rightarrow> Some val
      | IntValue val \<Rightarrow> intToStr val
      | Int64Value val \<Rightarrow> intToStr val
      | BoolValue val \<Rightarrow> Some (if val then ''true'' else ''false'')
      | _ \<Rightarrow> Some ''<value>'')"

definition format_attr :: "LogAttr \<Rightarrow> bytes option" where
  "format_attr a =
     map_option (\<lambda>v. '' '' @ at_Key a @ ''='' @ v)
       (case at_Value a of
          StringValue v \<Rightarrow> Some v
        | ErrorValue v \<Rightarrow> Some v
        | v \<Rightarrow> formatValue v)"

fun format_attrs :: "LogAttr list \<Rightarrow> bytes option" where
  "format_attrs [] = Some []"
| "format_attrs (a # as) =
     (case format_attr a of
        None \<Rightarrow> None
      | Some s \<Rightarrow> map_option (\<lambda>t. s @ t) (format_attrs as))"

section \<open>The standard logger\<close>

record StdLogger =
  lg_level :: LogLevel
  lg_attrs :: "LogAttr list"

definition NewStdLogger :: "LogLevel \<Rightarrow> StdLogger" where
  "NewStdLogger level = \<lparr>lg_level = level, lg_attrs = []\<rparr>"

definition std_log :: "string \<Rightarrow> string \<Rightarrow> LogAttr list \<Rightarrow> StdLogger \<Rightarrow> bytes list \<Rightarrow> bytes list option" where
  "std_log level msg attrs l out =
     (let allAttrs = lg_attrs l @ attrs in
      if length allAttrs = 0 then Some (out @ [''['' @ level @ ''] '' @ msg])
      else map_option (\<lambda>attrStr. out @ [''['' @ level @ ''] '' @ msg @ attrStr]) (format_attrs allAttrs))"

definition log_Debug :: "string \<Rightarrow> LogAttr list \<Rightarrow> StdLogger \<Rightarrow> bytes list \<Rightarrow> bytes list option" where
  "log_Debug msg attrs l out = (if lg_level l \<le> LogLevelDebug then std_log ''DEBUG'' msg attrs l out else Some out)"

definition log_Info :: "string \<Rightarrow> LogAttr list \<Rightarrow> StdLogger \<Rightarrow> bytes list \<Rightarrow> bytes list option" where
  "log_Info msg attrs l out = (if lg_level l \<le> LogLevelInfo then std_log ''INFO'' msg attrs l out else Some out)"

definition log_Warn :: "string \<Rightarrow> LogAttr list \<Rightarrow> StdLogger \<Rightarrow> bytes list \<Rightarrow> bytes list option" where
  "log_Warn msg attrs l out = (if lg_level l \<le> LogLevelWarn then std_log ''WARN'' msg attrs l out else Some out)"

definition log_Error :: "string \<Rightarrow> LogAttr list \<Rightarrow> StdLogger \<Rightarrow> bytes list \<Rightarrow> bytes list option" where
  "log_Error msg attrs l out = (if lg_level l \<le> LogLevelError then std_log ''ERROR'' msg attrs l out else Some out)"

definition WithAttrs :: "LogAttr list \<Rightarrow> StdLogger \<Rightarrow> StdLogger" where
  "WithAttrs attrs l = \<lparr>lg_level = lg_level l, lg_attrs = lg_attrs l @ attrs\<rparr>"

definition WithSession :: "string \<Rightarrow> StdLogger \<Rightarrow> StdLogger" where
  "WithSession sessionID l = WithAttrs [Attr AttrSessionID (StringValue sessionID)] l"

text \<open>The logger that discards everything.\<close>

definition Null_log :: "string \<Rightarrow> LogAttr list \<Rightarrow> bytes list \<Rightarrow> bytes list" where
  "Null_log msg attrs out = out"

definition Null_WithAttrs :: "LogAttr list \<Rightarrow> unit \<Rightarrow> unit" where
  "Null_WithAttrs attrs n = n"

definition Null_WithSession :: "string \<Rightarrow> unit \<Rightarrow> unit" where
  "Null_WithSession sessionID n = n"

section \<open>Transcripts\<close>

definition LogInput :: "bytes \<Rightarrow> bytes \<Rightarrow> bytes" where
  "LogInput data out = (out @ ''C: '') @ data"

definition LogOutput :: "bytes \<Rightarrow> bytes \<Rightarrow> bytes" where
  "LogOutput data out = (out @ ''S: '') @ data"

section \<open>Numbers\<close>

lemma show_nat_step: "10 \<le> n \<Longrightarrow> show_nat n = show_nat (n div 10) @ [digit (n mod 10)]"
  by (subst show_nat.simps) simp

lemma digits_loop_show:
  assumes "0 < n" and "n < 10 ^ k" and "k \<le> i" and "i \<le> length buf"
  shows "\<exists>buf' i'. digits_loop (int n) buf i = Some (buf', i') \<and> i' + length (show_nat n) = i
    \<and> i \<le> i' + k \<and> length buf' = length buf \<and> drop i' buf' = show_nat n @ drop i buf"
  using assms
proof (induction k arbitrary: n i buf)
  case (Suc k)
  let ?buf = "buf[i - 1 := digit (n mod 10)]"
  have "int n mod 10 = int (n mod 10)" by (simp add: zmod_int)
  then have d: "nat (int n mod 10) = n mod 10" by simp
  have step: "digits_loop (int n) buf i = digits_loop (int (n div 10)) ?buf (i - 1)"
    using Suc.prems by (subst digits_loop.simps) (simp add: digit_def zdiv_int nat_add_distrib d)
  have last: "drop (i - 1) ?buf = digit (n mod 10) # drop i buf"
    using Suc.prems(3,4) by (simp add: drop_update_swap Cons_nth_drop_Suc [symmetric])
  show ?case
  proof (cases "n < 10")
    case True
    then have "digits_loop (int (n div 10)) ?buf (i - 1) = Some (?buf, i - 1)"
      by (subst digits_loop.simps) simp
    with True step last Suc.prems(3) show ?thesis by (subst (1 2) show_nat.simps) simp
  next
    case False
    have "0 < n div 10" "n div 10 < 10 ^ k" "k \<le> i - 1" "i - 1 \<le> length ?buf"
      using False Suc.prems by auto
    from Suc.IH [OF this] obtain buf' i' where
      "digits_loop (int (n div 10)) ?buf (i - 1) = Some (buf', i')" "i' + length (show_nat (n div 10)) = i - 1"
      "i - 1 \<le> i' + k" "length buf' = length ?buf" "drop i' buf' = show_nat (n div 10) @ drop (i - 1) ?buf"
      by auto
    with step last False Suc.prems(3) show_nat_step [of n] show ?thesis by auto
  qed
qed simp

lemma intToStr_nonneg: "0 \<le> n \<Longrightarrow> n < 2 ^ 63 \<Longrightarrow> intToStr n = Some (itoa n)"
proof (cases "n = 0")
  case True
  have "show_nat 0 = ''0''" by code_simp
  with True show ?thesis by (simp add: intToStr_def itoa_def)
next
  case False
  assume n: "0 \<le> n" "n < 2 ^ 63"
  with False have "0 < nat n" "nat n < 10 ^ 19" by auto
  from digits_loop_show [OF this, of 20 "replicate 20 CHR 0x00"] n False show ?thesis
    by (auto simp: intToStr_def itoa_def Let_def)
qed

lemma intToStr_negative:
  assumes "n < 0" and "- (2 ^ 63) < n"
  shows "intToStr n = Some (itoa n)"
proof -
  have "0 < nat (- n)" "nat (- n) < 10 ^ 19" using assms by auto
  from digits_loop_show [OF this, of 20 "replicate 20 CHR 0x00"] obtain buf i where
    loop: "digits_loop (int (nat (- n))) (replicate 20 CHR 0x00) 20 = Some (buf, i)"
    and i: "1 \<le> i" "length buf = 20" "drop i buf = show_nat (nat (- n))" "i \<le> 20" by auto
  have "drop (i - 1) (buf[i - 1 := CHR ''-'']) = CHR ''-'' # drop i buf"
    using i(1,2,4) by (simp add: drop_update_swap Cons_nth_drop_Suc [symmetric])
  moreover have "i64 (- n) = - n" using assms by (intro i64_id) simp
  ultimately show ?thesis using loop i assms(1) by (simp add: intToStr_def itoa_def Let_def)
qed

text \<open>
  (C40) The hand-written integer formatting of the logger never runs out of its 20-byte buffer,
  and prints every \<open>int64\<close> as \<open>fmt\<close> would, with one exception: the smallest one, whose negation
  overflows, is printed as a lone minus sign.
\<close>

theorem intToStr_correct:
  "intToStr (i64 n) = Some (if i64 n = - (2 ^ 63) then ''-'' else itoa (i64 n))"
proof (cases "i64 n = - (2 ^ 63)")
  case True
  have "i64 (2 ^ 63) = - (2 ^ 63)" by (rule i64_wraps)
  moreover have "drop 19 ((replicate 20 CHR 0x00)[19 := CHR ''-'']) = ''-''" by code_simp
  ultimately show ?thesis
    using True by (simp add: intToStr_def Let_def digits_loop.simps)
next
  case False
  with i64_in_range [of n] intToStr_nonneg [of "i64 n"] intToStr_negative [of "i64 n"] show ?thesis
    by (cases "0 \<le> i64 n") auto
qed

section \<open>Attributes\<close>

text \<open>
  A derived logger is the logger with its attributes written out: logging through
  \<open>WithAttrs\<close> or \<open>WithSession\<close>, however often they are applied, gives the line that the original
  logger gives for the inherited attributes followed by the message's own, on every level; and
  deriving a logger does not change the original.
\<close>

theorem derived_logger_equivalent:
  "std_log level msg attrs (fold WithAttrs groups l) out = std_log level msg (concat groups @ attrs) l out
   \<and> std_log level msg attrs (WithSession sid l) out =
       std_log level msg (Attr AttrSessionID (StringValue sid) # attrs) l out
   \<and> lg_level (fold WithAttrs groups l) = lg_level l"
proof -
  have "lg_attrs (fold WithAttrs groups l) = lg_attrs l @ concat groups"
    and "lg_level (fold WithAttrs groups l) = lg_level l"
    by (induction groups arbitrary: l) (simp_all add: WithAttrs_def)
  then show ?thesis by (simp add: std_log_def WithSession_def WithAttrs_def Let_def)
qed

end
