(* ===== verification/Timeout_Reader.thy ===== *)
theory Timeout_Reader
  imports Conn "HOL-Library.Multiset"
begin

text \<open>
  The \<open>TimeoutReader\<close> of \<open>conn.go\<close>: \<open>ReadWithContext\<close> reads in a goroutine of its own and returns
  when that has finished or the context is done. A call that is abandoned leaves its goroutine
  behind, and that goroutine goes on reading from the same reader into the buffer of a caller who
  has left. The reader is a \<open>Transport\<close>; the field \<open>timeout\<close> is stored and never used.
\<close>

section \<open>The reader and its goroutines\<close>

record TimeoutReader =
  to_r :: Transport
  to_timeout :: duration

definition NewTimeoutReader :: "Transport \<Rightarrow> duration \<Rightarrow> TimeoutReader" where
  "NewTimeoutReader r timeout = \<lparr>to_r = r, to_timeout = timeout\<rparr>"

text \<open>The call in progress, if any: its goroutine is reading, or its result lies in the channel. The
  goroutines of abandoned calls are counted. What callers got and what they missed is history.\<close>

datatype read_call = Reading | InChannel bytes "goerror option"

record ReadWithContext =
  rc_reader :: TimeoutReader
  rc_call :: "read_call option"
  rc_abandoned :: nat
  rc_returned :: "(bytes \<times> goerror option) list"
  rc_missed :: bytes
  rc_cancelled :: bool

definition no_calls :: "TimeoutReader \<Rightarrow> ReadWithContext" where
  "no_calls r = \<lparr>rc_reader = r, rc_call = None, rc_abandoned = 0, rc_returned = [], rc_missed = [], rc_cancelled = False\<rparr>"

abbreviation set_source :: "Transport \<Rightarrow> ReadWithContext \<Rightarrow> ReadWithContext" where
  "set_source t s \<equiv> s\<lparr>rc_reader := (rc_reader s)\<lparr>to_r := t\<rparr>\<rparr>"

text \<open>\<open>select\<close> takes the result or the done context, whichever is there; if both are, either.\<close>

inductive context_step :: "ReadWithContext \<Rightarrow> ReadWithContext \<Rightarrow> bool" where
  call: "rc_call s = None \<Longrightarrow> context_step s (s\<lparr>rc_call := Some Reading\<rparr>)"
| goroutine: "rc_call s = Some Reading \<Longrightarrow> tr_Read (to_r (rc_reader s)) = ((bs, err), t) \<Longrightarrow>
    context_step s ((set_source t s)\<lparr>rc_call := Some (InChannel bs err)\<rparr>)"
| abandoned: "rc_abandoned s = Suc n \<Longrightarrow> tr_Read (to_r (rc_reader s)) = ((bs, err), t) \<Longrightarrow>
    context_step s ((set_source t s)\<lparr>rc_abandoned := n, rc_missed := rc_missed s @ bs\<rparr>)"
| result: "rc_call s = Some (InChannel bs err) \<Longrightarrow>
    context_step s (s\<lparr>rc_call := None, rc_returned := rc_returned s @ [(bs, err)]\<rparr>)"
| ctx_done_reading: "rc_call s = Some Reading \<Longrightarrow> ctxErr \<in> {CtxCanceled, CtxDeadlineExceeded} \<Longrightarrow>
    context_step s (s\<lparr>rc_call := None, rc_abandoned := Suc (rc_abandoned s),
      rc_returned := rc_returned s @ [([], Some ctxErr)], rc_cancelled := True\<rparr>)"
| ctx_done_ready: "rc_call s = Some (InChannel bs err) \<Longrightarrow> ctxErr \<in> {CtxCanceled, CtxDeadlineExceeded} \<Longrightarrow>
    context_step s (s\<lparr>rc_call := None, rc_missed := rc_missed s @ bs,
      rc_returned := rc_returned s @ [([], Some ctxErr)], rc_cancelled := True\<rparr>)"

section \<open>What becomes of the bytes\<close>

definition source :: "Transport \<Rightarrow> bytes" where
  "source t = concat (map fst (tr_reads t))"

fun in_channel :: "read_call option \<Rightarrow> bytes" where
  "in_channel (Some (InChannel bs err)) = bs"
| "in_channel _ = []"

abbreviation got :: "ReadWithContext \<Rightarrow> bytes" where
  "got s \<equiv> concat (map fst (rc_returned s))"

lemma source_Read: "tr_Read t = ((bs, err), t') \<Longrightarrow> source t = bs @ source t'"
  by (auto simp: tr_Read_def source_def split: list.splits)

definition conserves :: "bytes \<Rightarrow> ReadWithContext \<Rightarrow> bool" where
  "conserves all s \<longleftrightarrow>
     mset all = mset (got s) + mset (in_channel (rc_call s)) + mset (rc_missed s) + mset (source (to_r (rc_reader s)))
   \<and> (\<not> rc_cancelled s \<longrightarrow> rc_abandoned s = 0 \<and> rc_missed s = []
        \<and> all = got s @ in_channel (rc_call s) @ source (to_r (rc_reader s)))"

lemma conserves_step: "context_step s s' \<Longrightarrow> conserves all s \<Longrightarrow> conserves all s'"
  by (induction rule: context_step.induct) (auto simp: conserves_def dest!: source_Read)

interpretation reading: invariant_system "\<lambda>s. \<exists>r. s = no_calls r \<and> source (to_r r) = all" context_step "conserves all" for all
proof
  show "\<exists>r. s = no_calls r \<and> source (to_r r) = all \<Longrightarrow> conserves all s" for s
    by (auto simp: conserves_def no_calls_def)
qed (rule conserves_step)

text \<open>
  (C35) Reading with a context delivers the stream as long as no context ends: the bytes the calls
  returned, then the result in the channel, then what the reader still holds, are the bytes the
  reader had, in order. Once a call has been cancelled that is no longer so: what its goroutine
  reads afterwards reaches nobody. No byte is invented or delivered twice in either case.
\<close>

theorem timeout_reader_conserves:
  assumes "context_step\<^sup>*\<^sup>* (no_calls (NewTimeoutReader t timeout)) s"
  shows "mset (source t) = mset (got s) + mset (in_channel (rc_call s)) + mset (rc_missed s)
      + mset (source (to_r (rc_reader s)))
    \<and> (\<not> rc_cancelled s \<longrightarrow> source t = got s @ in_channel (rc_call s) @ source (to_r (rc_reader s)))"
proof -
  have "\<exists>r. no_calls (NewTimeoutReader t timeout) = no_calls r \<and> source (to_r r) = source t"
    by (intro exI [of _ "NewTimeoutReader t timeout"]) (simp add: NewTimeoutReader_def)
  from reading.reachable_inv [OF this assms] show ?thesis by (simp add: conserves_def)
qed

text \<open>Bytes are lost in earnest: a call that is cancelled while it waits lets the next one miss the
  beginning of the stream.\<close>

lemma cancelled_read_loses:
  assumes "tr_reads t = [(a, None), (b, None)]"
  shows "\<exists>s. context_step\<^sup>*\<^sup>* (no_calls (NewTimeoutReader t timeout)) s
    \<and> rc_returned s = [([], Some CtxCanceled), (b, None)] \<and> rc_call s = None"
proof -
  let ?s0 = "no_calls (NewTimeoutReader t timeout)"
  let ?s1 = "?s0\<lparr>rc_call := Some Reading\<rparr>"
  let ?s2 = "?s1\<lparr>rc_call := None, rc_abandoned := Suc (rc_abandoned ?s1),
    rc_returned := rc_returned ?s1 @ [([], Some CtxCanceled)], rc_cancelled := True\<rparr>"
  let ?t3 = "t\<lparr>tr_reads := [(b, None)]\<rparr>"
  let ?s3 = "(set_source ?t3 ?s2)\<lparr>rc_abandoned := 0, rc_missed := rc_missed ?s2 @ a\<rparr>"
  let ?s4 = "?s3\<lparr>rc_call := Some Reading\<rparr>"
  let ?s5 = "(set_source (t\<lparr>tr_reads := []\<rparr>) ?s4)\<lparr>rc_call := Some (InChannel b None)\<rparr>"
  let ?s6 = "?s5\<lparr>rc_call := None, rc_returned := rc_returned ?s5 @ [(b, None)]\<rparr>"
  have "context_step ?s0 ?s1" by (rule context_step.call) (simp add: no_calls_def)
  moreover have "context_step ?s1 ?s2" by (rule context_step.ctx_done_reading) simp_all
  moreover have "context_step ?s2 ?s3"
    by (rule context_step.abandoned [where err = None]) (simp_all add: no_calls_def NewTimeoutReader_def tr_Read_def assms)
  moreover have "context_step ?s3 ?s4" by (rule context_step.call) (simp add: no_calls_def)
  moreover have "context_step ?s4 ?s5"
    by (rule context_step.goroutine) (simp_all add: no_calls_def NewTimeoutReader_def tr_Read_def)
  moreover have "context_step ?s5 ?s6" by (rule context_step.result) simp
  ultimately have "context_step\<^sup>*\<^sup>* ?s0 ?s6" by (meson rtranclp.rtrancl_into_rtrancl rtranclp.rtrancl_refl)
  then show ?thesis by (intro exI [of _ ?s6]) (simp add: no_calls_def)
qed

theorem timeout_reader_conserves_witness:
  "\<exists>s :: ReadWithContext. rc_returned s = [([], Some CtxCanceled), (''b'', None)]
    \<and> mset ''ab'' = mset ''b'' + mset (rc_missed s) + mset (source (to_r (rc_reader s)))"
proof -
  let ?t = "\<lparr>tr_reads = [(''a'', None), (''b'', None)], tr_writes = [], tr_sent = [], tr_rdeadline = None,
    tr_wdeadline = None, tr_closed = False\<rparr>"
  obtain s where run: "context_step\<^sup>*\<^sup>* (no_calls (NewTimeoutReader ?t 0)) s"
    and s: "rc_returned s = [([], Some CtxCanceled), (''b'', None)]" "rc_call s = None"
    using cancelled_read_loses [of ?t "''a''" "''b''" 0] by auto
  from timeout_reader_conserves [OF run] s show ?thesis by (intro exI [of _ s]) (simp add: source_def)
qed

end
