(* ===== verification/Test_Certs.thy ===== *)
theory Test_Certs
  imports Tls Go_Strings
begin

text \<open>
  The test fixtures of \<open>testdata/certs.go\<close>: the certificate files lie beside the source file, whose
  path \<open>runtime.Caller\<close> reports, and the configuration made of them is what the TLS tests use. The
  functions of \<open>path/filepath\<close> they call are modelled as on a Unix system; loading a key pair is
  the parameter \<open>load\<close>, as in \<open>Tls.thy\<close>.
\<close>

section \<open>Paths\<close>

text \<open>\<open>filepath.Clean\<close> goes through the elements of a path: empty ones and \<open>.\<close> are dropped, \<open>..\<close> removes
  the element before it, if there is one to remove. \<open>acc\<close> holds the elements kept, last first.\<close>

fun clean_elements :: "bool \<Rightarrow> string list \<Rightarrow> string list \<Rightarrow> string list" where
  "clean_elements rooted acc [] = rev acc"
| "clean_elements rooted acc (x # xs) =
     (if x = [] \<or> x = ''.'' then clean_elements rooted acc xs
      else if x = ''..'' then
        (case acc of
           [] \<Rightarrow> clean_elements rooted (if rooted then [] else [''..'']) xs
         | a # as \<Rightarrow> clean_elements rooted (if a = ''..'' then ''..'' # acc else as) xs)
      else clean_elements rooted (x # acc) xs)"

definition Clean :: "string \<Rightarrow> string" where
  "Clean path =
     (let rooted = HasPrefix path ''/''; es = clean_elements rooted [] (Split CHR ''/'' path) in
      if rooted then ''/'' @ join CHR ''/'' es else if es = [] then ''.'' else join CHR ''/'' es)"

definition Dir :: "string \<Rightarrow> string" where
  "Dir path = Clean (case last_index_of CHR ''/'' path of None \<Rightarrow> [] | Some i \<Rightarrow> take (i + 1) path)"

definition Join :: "string list \<Rightarrow> string" where
  "Join es = (case dropWhile (\<lambda>e. e = []) es of [] \<Rightarrow> [] | rest \<Rightarrow> Clean (join CHR ''/'' rest))"

section \<open>The fixtures\<close>

definition TestDataDir :: "string \<Rightarrow> string" where
  "TestDataDir file = Dir file"

definition CertFile :: "string \<Rightarrow> string" where
  "CertFile file = Join [TestDataDir file, ''server.crt'']"

definition KeyFile :: "string \<Rightarrow> string" where
  "KeyFile file = Join [TestDataDir file, ''server.key'']"

definition LoadTestCertificate :: "key_loader \<Rightarrow> string \<Rightarrow> goerror + Certificate" where
  "LoadTestCertificate load file = load (CertFile file) (KeyFile file)"

definition TestTLSConfig :: "key_loader \<Rightarrow> string \<Rightarrow> goerror + TLSConfig" where
  "TestTLSConfig load file =
     (case LoadTestCertificate load file of
        Inl err \<Rightarrow> Inl err
      | Inr cert \<Rightarrow> Inr \<lparr>tc_MinVersion = TLSVersion12, tc_CipherSuites = [], tc_Certificates = [cert],
          tc_GetCertificate = NoCallback\<rparr>)"

section \<open>Where the files are\<close>

definition plain :: "string \<Rightarrow> bool" where
  "plain e \<longleftrightarrow> e \<noteq> [] \<and> e \<noteq> ''.'' \<and> e \<noteq> ''..'' \<and> CHR ''/'' \<notin> set e"

definition rooted_path :: "string list \<Rightarrow> string" where
  "rooted_path es = ''/'' @ join CHR ''/'' es"

lemma clean_plain: "list_all plain es \<Longrightarrow> clean_elements rooted acc es = rev acc @ es"
  by (induction es arbitrary: acc) (simp_all add: plain_def)

lemma Split_rooted: "list_all plain es \<Longrightarrow> es \<noteq> [] \<Longrightarrow> Split CHR ''/'' (rooted_path es) = [] # es"
  by (simp add: rooted_path_def Split_join plain_def list_all_iff)

text \<open>A clean absolute path stays as it is, with or without a final slash.\<close>

lemma clean_elements_snoc_empty: "clean_elements rooted acc (es @ [[]]) = clean_elements rooted acc es"
  by (induction rooted acc es rule: clean_elements.induct) (auto split: list.split)

lemma Clean_rooted:
  assumes "list_all plain es"
  shows "Clean (rooted_path es) = rooted_path es"
proof (cases "es = []")
  case True
  then show ?thesis by (simp add: rooted_path_def Clean_def HasPrefix_def)
next
  case False
  then show ?thesis
    using Split_rooted [OF assms] clean_plain [OF assms]
    by (simp add: Clean_def Let_def) (simp add: rooted_path_def HasPrefix_def)
qed

lemma Split_snoc: "Split c (s @ [c]) = Split c s @ [[]]"
  by (induction s) (auto split: list.split)

lemma rooted_path_snoc: "rooted_path (ds @ [e]) = (if ds = [] then [] else rooted_path ds) @ CHR ''/'' # e"
  by (induction ds rule: induct_list012) (simp_all add: rooted_path_def)

lemma Dir_rooted:
  assumes "list_all plain ds" and "plain name"
  shows "Dir (rooted_path (ds @ [name])) = rooted_path ds"
proof -
  have name: "CHR ''/'' \<notin> set name" using assms(2) by (simp add: plain_def)
  have "Clean ((if ds = [] then [] else rooted_path ds) @ ''/'') = rooted_path ds"
  proof (cases "ds = []")
    case True
    then show ?thesis by (simp add: rooted_path_def Clean_def HasPrefix_def)
  next
    case False
    then show ?thesis
      using Split_rooted [OF assms(1)] clean_plain [OF assms(1)] clean_elements_snoc_empty
      by (simp add: Clean_def Let_def Split_snoc) (simp add: rooted_path_def HasPrefix_def)
  qed
  with name show ?thesis unfolding Dir_def rooted_path_snoc by simp
qed

text \<open>
  The fixtures are found wherever the repository lies: for a source file with a clean absolute
  path, the two files are its neighbours, and the configuration is the certificate loaded from
  exactly these two, or the loader's error.
\<close>

theorem fixtures_beside_source:
  assumes "list_all plain ds" and "plain name"
  shows "TestTLSConfig load (rooted_path (ds @ [name])) =
    (case load (rooted_path (ds @ [''server.crt''])) (rooted_path (ds @ [''server.key''])) of
       Inl err \<Rightarrow> Inl err
     | Inr cert \<Rightarrow> Inr \<lparr>tc_MinVersion = TLSVersion12, tc_CipherSuites = [], tc_Certificates = [cert],
         tc_GetCertificate = NoCallback\<rparr>)"
proof -
  have "Join [rooted_path ds, f] = rooted_path (ds @ [f])" if "plain f" for f
  proof -
    have "rooted_path ds \<noteq> []" by (simp add: rooted_path_def)
    then have "Join [rooted_path ds, f] = Clean (rooted_path ds @ CHR ''/'' # f)" by (simp add: Join_def)
    also have "\<dots> = rooted_path (ds @ [f])"
    proof (cases "ds = []")
      case True
      with that show ?thesis by (simp add: rooted_path_def Clean_def HasPrefix_def plain_def)
    next
      case False
      then have "rooted_path ds @ CHR ''/'' # f = rooted_path (ds @ [f])" by (simp add: rooted_path_snoc)
      with Clean_rooted [of "ds @ [f]"] assms(1) that show ?thesis by simp
    qed
    finally show ?thesis .
  qed
  then show ?thesis
    by (simp add: TestTLSConfig_def LoadTestCertificate_def CertFile_def KeyFile_def TestDataDir_def
        Dir_rooted [OF assms] plain_def)
qed

theorem fixtures_beside_source_witness:
  "TestTLSConfig (\<lambda>c k. if c = ''/src/testdata/server.crt'' \<and> k = ''/src/testdata/server.key'' then Inr (Certificate [''x''])
      else Inl (ErrNew ''no such file'')) ''/src/testdata/certs.go'' =
    Inr \<lparr>tc_MinVersion = TLSVersion12, tc_CipherSuites = [], tc_Certificates = [Certificate [''x'']],
      tc_GetCertificate = NoCallback\<rparr>"
  using fixtures_beside_source [of "[''src'', ''testdata'']" "''certs.go''"
      "\<lambda>c k. if c = ''/src/testdata/server.crt'' \<and> k = ''/src/testdata/server.key'' then Inr (Certificate [''x''])
        else Inl (ErrNew ''no such file'')"]
  by (simp add: rooted_path_def plain_def)

end
