(* ===== verification/Spec2Isabelle.thy ===== *)
theory Spec2Isabelle
  imports Data_Failure Lockstep Engine_Stream Harness_Pipe Logger Timeout_Reader Test_Certs
begin

text \<open>
  A verification of icesmtp, an SMTP protocol engine in Go (\<open>src/\<close>).

  \<^bold>\<open>The program.\<close> An \<open>Engine\<close> runs one SMTP session: it reads command lines from a connection,
  parses them, checks them against a protocol state machine, dispatches them to a handler, and
  writes one reply. The handlers of MAIL, RCPT and DATA build an envelope with the help of
  policies the user configures (sender policy, mailbox) and hand it to a storage; STARTTLS
  replaces the connection under the session. Limits bound what a client can do. Around the
  engine are in-memory implementations of mailbox and storage, loggers, TLS providers, a test
  harness with a scripted client, and three example servers.

  \<^bold>\<open>Theories\<close>, in the order of their imports, with the source they model:

  \<^item> \<open>Prelude\<close>: collections of rules, 64-bit integer arithmetic (\<open>i64\<close>), list lemmas, the locale
    \<open>invariant_system\<close> (reachability and invariants of a step relation).
  \<^item> \<open>Go_Strings\<close>, \<open>Go_Map\<close>: the parts of Go's string, byte, UTF-8, number formatting and map
    libraries the sources use. The locale \<open>dictionary\<close> is the contract of a map.
  \<^item> \<open>Protocol\<close> (\<open>state.go\<close>, \<open>command.go\<close>, error values of the package); \<open>State_Machine\<close>
    (\<open>statemachine.go\<close>): the two command tables are one relation, an observer sees an unbroken
    chain of transitions, DATA is reached through MAIL and RCPT only, terminal states absorb.
    \<open>Errors\<close>: the texts of errors, which name everything \<open>errors.Is\<close> finds in them.
  \<^item> \<open>Reply\<close> (\<open>reply.go\<close>); \<open>Smtp_Parser\<close> (\<open>parser.go\<close>): round trips and soundness of the
    command and path parsers, the address and host name checks equal declarative grammars,
    dot-stuffing is transparent.
  \<^item> \<open>Tls\<close> (\<open>tls.go\<close>, \<open>tls_provider.go\<close>); \<open>Conn\<close> (\<open>conn.go\<close>): connections over scripted transports,
    the buffered reader frames lines exactly (locale \<open>line_source\<close>, also met by the pipe of the
    harness). \<open>Timeout_Reader\<close>: reads raced against contexts deliver the stream in order until a
    context ends, and never a byte twice. \<open>Test_Certs\<close> (\<open>testdata/certs.go\<close>).
  \<^item> \<open>Envelope\<close> (\<open>envelope.go\<close>, \<open>envelope_builder.go\<close>): the builder refines an abstract draft
    (locale \<open>envelope_builder\<close>).
  \<^item> \<open>Session\<close> (\<open>session.go\<close>, \<open>limits.go\<close>, interfaces of \<open>mailbox.go\<close> and \<open>storage.go\<close>).
  \<^item> \<open>Engine\<close> (\<open>engine.go\<close>): the \<open>Engine\<close> struct as a record, one function per method.
    \<open>Engine_Run\<close>: frame facts and termination of \<open>Run\<close>. \<open>Engine_Inv\<close>: the invariant of a running
    session, kept by every step; no nil interface is dereferenced. \<open>Engine_Props\<close>, \<open>Engine_End\<close>:
    agreement of the visible state with the machine, TLS policy, STARTTLS, QUIT, error limit.
    \<open>Engine_Data\<close>: a 250 after DATA means the storage took exactly
    what the client sent, and a stuffed message within the limits arrives byte for byte.
    \<open>Engine_Replies\<close>: what a command may be answered, one reply per command, the transaction limit.
    \<open>Engine_Stream\<close>: a session depends on the bytes the client sends, not on how they are cut
    into reads. \<open>Client_View\<close>: an abstract protocol between a client and a server, which the engine refines:
    a client knows the state of its session from what it sent and the codes it got.
    \<open>Data_Failure\<close>: a data phase that fails leaves a session in which every command is refused.
    \<open>Engine_World\<close>: the locale \<open>session_world\<close>, the contract between the engine and the services
    the user configures.
  \<^item> \<open>Mailbox\<close> (\<open>mailbox.go\<close>, \<open>mem/mailbox.go\<close>): the registry refines sets of addresses and
    domains. \<open>Storage\<close> (\<open>storage.go\<close>, \<open>mem/storage.go\<close>): the storage refines a ledger and meets the
    contract \<open>message_store\<close>. \<open>Logger\<close> (\<open>logger.go\<close>): number formatting equals the decimal
    notation but for the smallest integer.
  \<^item> \<open>Mem_World\<close>: the in-memory services as the world of a session. \<open>Harness\<close>,
    \<open>Harness_Server\<close> (\<open>harness/harness.go\<close>): the pipe, the client, which reads back what the
    engine writes, and the server; a server with the in-memory services is no open relay.
    \<open>Harness_Pipe\<close>: the pipe under every interleaving of its writer and reader.
  \<^item> \<open>Examples\<close> (\<open>examples/\<close>): policies, hooks and configurations of the three servers.
    \<open>Server\<close>: their main programs as a step relation over the accept loop, the signal handlers and
    one goroutine per connection, which advances by one iteration of the session loop at a time
    (\<open>Run_by_steps\<close>: the iterations of an undisturbed goroutine are \<open>Run\<close>). The locale
    \<open>server_world\<close> carries the contract \<open>session_world\<close> of one session to every interleaving of
    many: the servers store only what their policies allow, keep a certificate to present, and
    serve every connection the listener hands over to its end; but they do not wait for sessions
    when told to stop, and call a failing listener again without a pause (\<open>accept_errors_spin\<close>).
  \<^item> \<open>Engine_Lines\<close>: the session cut at the places where it waits for a line; the pieces make up the
    iterations of \<open>Run\<close> (\<open>run_step_pieces\<close>). \<open>Conversation\<close>: \<open>RunConversation\<close> of the harness as two
    goroutines that share the pipes and take turns in any order. The locale \<open>commuting_pair\<close> shows
    that all schedules of two parties whose turns commute lead to the same settled state, in which
    neither can take a turn; a client that waits for ever is settled too. So what one schedule
    leads to, all do. \<open>Delivery\<close>: a mail sent through a new harness arrives in its storage. \<open>Lockstep\<close>:
    a client that waits for a reply to each command gets it, until the session has said goodbye.

  \<^bold>\<open>State and effects.\<close> Methods take the record of their object and return it updated. What lies
  outside (clock, random source, context, policies, hooks, storage) acts on a world \<open>'w\<close> that
  every operation threads; the record \<open>Runtime\<close> holds the services of the Go runtime. A peer and
  a network are a \<open>Transport\<close>, the list of the results of the reads and writes to come, which
  includes errors, timeouts and partial reads. An error is a value of the datatype \<open>goerror\<close>, a
  dereferenced nil interface the value \<open>NilDereference\<close> of \<open>go_panic\<close>. Parameters stand for code
  outside the repository: the Unicode case table, loading a key pair, the TLS handshake, names of
  cipher suites, formatting with \<open>%q\<close>, the source directory \<open>runtime.Caller\<close> reports.

  \<^bold>\<open>Loops.\<close> The session loop is a partial function whose value \<^const>\<open>None\<close> would be a session
  without end; \<open>Run_returns\<close> shows that it returns on every transport, which holds finitely many
  read results and then the end of file. The data loop and the reply reader of the harness are
  total functions, with the unread input as the measure. The buffered reader's retry loop has
  the bound 100 of \<open>bufio\<close>. No other fuel is used. The steps of a server are well-founded
  (\<open>server_steps_wf\<close>), as its listener hands over finitely many results; with a listener that
  fails for ever the loop of the examples has no end. The turns of a conversation are well-founded
  (\<open>turn_less\<close>), as a script is finite.

  \<^bold>\<open>Not modelled.\<close> Locks, and races within a method: a method is one atomic step,
  \<open>Engine.Close\<close> one between two steps of the loop, and a goroutine of a server gives way to
  others only between two iterations of its session loop. So a call of a policy or of the storage
  in the middle of one command sees no other session; the in-memory services hold a lock for a
  whole method, and a session calls each of them with values of its own. In a conversation of
  the harness no wait outlasts its deadline, the engine takes its input line by line, and client and
  engine each have a clock and a context of their own; the upgrader a test passes to \<open>StartWithTLS\<close>
  yields a scripted transport. Sockets: a listener is the list of its results. The log calls
  inside the engine, which gets nothing back from a logger. The unused interface \<open>SessionHandler\<close>; \<open>RateLimiter\<close>, \<open>ConnectionPolicy\<close> and
  \<open>StorageHook\<close> are records of methods no code implements or calls.
\<close>

end
